(* ===== verification/Kf_Prelude.thy ===== *)
theory Kf_Prelude
  imports
    Main
    "HOL-Library.Word"
    "HOL-Library.Finite_Map"
    "HOL-Library.Char_ord"
    "HOL-Library.List_Lexorder"
    "HOL-Library.Sublist"
begin

text \<open>
  The shared layer of the kfuse development. It fixes how Go's basic types are read (machine
  integers as words, byte slices and strings as character lists, maps as finite maps), models the
  pieces of Go's standard library the sources call (\<^verbatim>\<open>strings.Split\<close>,
  \<^verbatim>\<open>strings.LastIndexByte\<close>, \<^verbatim>\<open>strings.HasPrefix\<close>, \<^verbatim>\<open>utf8.ValidString\<close>), and proves the
  generic facts on words, lists and finite maps that the components use.

  A Go \<^verbatim>\<open>string\<close> and a Go \<^verbatim>\<open>[]byte\<close> are both sequences of bytes; a \<open>char\<close> of Isabelle is one byte,
  so both are \<open>string\<close> here and a conversion between the two is the identity. Go's order on strings
  is bytewise lexicographic, which is the order \<open>List_Lexorder\<close> and \<open>Char_ord\<close> give to \<open>string\<close>.
\<close>

named_theorems go_string \<open>facts on the modelled string functions\<close>
named_theorems i64_arith \<open>reading 64-bit words as integers when nothing overflows\<close>

type_synonym bytes = string
type_synonym path = string
type_synonym u32 = "32 word"
type_synonym u64 = "64 word" \<comment> \<open>\<^verbatim>\<open>uint64\<close>, read by \<^const>\<open>uint\<close>\<close>
type_synonym i64 = "64 word" \<comment> \<open>\<^verbatim>\<open>int64\<close>, read by \<^const>\<open>sint\<close>, compared by \<^const>\<open>word_sless\<close>\<close>

section \<open>Words as integers\<close>

text \<open>
  \<^verbatim>\<open>int64\<close> and \<^verbatim>\<open>uint64\<close> arithmetic wraps. The lemmas below say when the wrapped operation agrees
  with the integer one; a Go conversion between the two types keeps the bits.
\<close>

lemma sint_range: "- (2 ^ 63) \<le> sint (w :: 64 word) \<and> sint w < 2 ^ 63"
  using sint_greater_eq [of w] sint_lt [of w] by simp

lemma uint_range: "0 \<le> uint (w :: 64 word) \<and> uint w < 2 ^ 64"
  using uint_lt2p [of w] by simp

lemma signed_take_bit_63_id:
  "- (2 ^ 63) \<le> (k :: int) \<Longrightarrow> k < 2 ^ 63 \<Longrightarrow> signed_take_bit 63 k = k"
  by (rule signed_take_bit_int_eq_self) simp_all

lemma sint_plus:
  fixes a b :: "64 word"
  assumes "- (2 ^ 63) \<le> sint a + sint b" and "sint a + sint b < 2 ^ 63"
  shows "sint (a + b) = sint a + sint b"
  using signed_take_bit_63_id [OF assms] by (simp add: sint_word_add)

lemma sint_minus:
  fixes a b :: "64 word"
  assumes "- (2 ^ 63) \<le> sint a - sint b" and "sint a - sint b < 2 ^ 63"
  shows "sint (a - b) = sint a - sint b"
  using signed_take_bit_63_id [OF assms] by (simp add: sint_word_diff)

lemma sint_eq_uint_small: "uint (w :: 64 word) < 2 ^ 63 \<Longrightarrow> sint w = uint w"
proof -
  assume small: "uint w < 2 ^ 63"
  have "sint w = signed_take_bit 63 (uint w)"
    by (simp add: sint_uint)
  also have "\<dots> = uint w"
    using small uint_range [of w] by (intro signed_take_bit_63_id) linarith+
  finally show ?thesis .
qed

lemma uint_eq_sint_nonneg: "0 \<le> sint (w :: 64 word) \<Longrightarrow> uint w = sint w"
proof -
  assume nonneg: "0 \<le> sint w"
  have "uint w = take_bit 64 (sint w)"
    using uint_range [of w]
    by (simp add: take_bit_signed_take_bit sint_uint take_bit_int_eq_self)
  also have "\<dots> = sint w"
    using nonneg sint_range [of w] by (intro take_bit_int_eq_self) simp_all
  finally show ?thesis .
qed

lemma uint_plus:
  fixes a b :: "64 word"
  assumes "uint a + uint b < 2 ^ 64"
  shows "uint (a + b) = uint a + uint b"
  using assms by (simp add: uint_word_ariths)

lemma sint_word_of_nat:
  "int n < 2 ^ 63 \<Longrightarrow> sint (word_of_nat n :: 64 word) = int n"
  by (subst sint_eq_uint_small) (simp_all add: unsigned_of_nat take_bit_nat_eq_self uint_nat
      flip: of_nat_less_iff)

lemma uint_word_of_nat:
  "int n < 2 ^ 64 \<Longrightarrow> uint (word_of_nat n :: 64 word) = int n"
  by (simp add: unsigned_of_nat take_bit_nat_eq_self uint_nat flip: of_nat_less_iff)

lemmas word_order_int [i64_arith] = word_sless_alt word_sle_eq

section \<open>Go's string functions\<close>

abbreviation slash :: char where
  "slash \<equiv> CHR ''/''"

text \<open>\<^verbatim>\<open>strings.HasPrefix(s, p)\<close> and \<^verbatim>\<open>strings.Contains(s, "/")\<close>.\<close>

abbreviation HasPrefix :: "string \<Rightarrow> string \<Rightarrow> bool" where
  "HasPrefix s p \<equiv> prefix p s"

definition contains_slash :: "string \<Rightarrow> bool" where
  "contains_slash s \<longleftrightarrow> slash \<in> set s"

text \<open>
  \<^verbatim>\<open>strings.Split(s, "/")\<close> for a non-empty separator: always at least one part. The parts are the
  maximal slash-free pieces, in order.
\<close>

fun split_slash :: "string \<Rightarrow> string list" where
  "split_slash [] = [[]]"
| "split_slash (c # cs) =
     (if c = slash then [] # split_slash cs
      else case split_slash cs of
             [] \<Rightarrow> [[c]]
           | p # ps \<Rightarrow> (c # p) # ps)"

text \<open>\<^verbatim>\<open>strings.LastIndexByte(s, '/')\<close>: the last index, or -1.\<close>

fun last_index_slash :: "string \<Rightarrow> int" where
  "last_index_slash [] = -1"
| "last_index_slash (c # cs) =
     (let i = last_index_slash cs
      in if 0 \<le> i then i + 1 else if c = slash then 0 else -1)"

lemma split_slash_nonempty [simp, go_string]: "split_slash s \<noteq> []"
  by (induction s) (auto split: list.splits)

lemma split_slash_parts [go_string]: "p \<in> set (split_slash s) \<Longrightarrow> slash \<notin> set p"
  by (induction s arbitrary: p) (auto split: list.splits if_splits)

lemma split_slash_plain [go_string]: "slash \<notin> set s \<Longrightarrow> split_slash s = [s]"
  by (induction s) auto

lemma split_slash_append [go_string]:
  "split_slash (s @ slash # t) = split_slash s @ split_slash t"
proof (induction s)
  case Nil
  then show ?case by simp
next
  case (Cons c s)
  then show ?case by (cases "split_slash s") auto
qed

lemma last_index_slash_range [go_string]:
  "-1 \<le> last_index_slash s \<and> last_index_slash s < int (length s)"
  by (induction s) (auto simp: Let_def)

lemma last_index_slash_neg [go_string]: "last_index_slash s < 0 \<longleftrightarrow> slash \<notin> set s"
  by (induction s) (auto simp: Let_def)

text \<open>
  What the last index is for: it splits a path into its parent and its last component. Every other
  split of the path at a slash splits the parent at that slash.
\<close>

lemma last_index_slash_split [go_string]:
  "0 \<le> last_index_slash s \<Longrightarrow>
     s = take (nat (last_index_slash s)) s @ slash # drop (Suc (nat (last_index_slash s))) s \<and>
     slash \<notin> set (drop (Suc (nat (last_index_slash s))) s)"
proof (induction s)
  case Nil
  then show ?case by simp
next
  case (Cons c s)
  show ?case
  proof (cases "0 \<le> last_index_slash s")
    case True
    then have "nat (last_index_slash s + 1) = Suc (nat (last_index_slash s))" by simp
    with True Cons.IH show ?thesis by (simp add: Let_def)
  next
    case False
    with Cons.prems show ?thesis
      by (auto simp: Let_def last_index_slash_neg [symmetric] split: if_splits)
  qed
qed

lemma last_index_slash_append [go_string]:
  "slash \<notin> set t \<Longrightarrow> last_index_slash (s @ slash # t) = int (length s)"
proof (induction s)
  case Nil
  then have "last_index_slash t < 0" by (simp add: last_index_slash_neg)
  then show ?case by (simp add: Let_def)
next
  case (Cons c s)
  then show ?case by (simp add: Let_def)
qed

section \<open>UTF-8\<close>

text \<open>
  \<^verbatim>\<open>utf8.ValidString\<close>: every byte is ASCII or part of a well-formed sequence. The first byte fixes the
  length and the range of the second byte, which rules out overlong forms, surrogates and values
  above U+10FFFF; the further bytes are continuation bytes.
\<close>

abbreviation byte_of :: "char \<Rightarrow> nat" where
  "byte_of c \<equiv> of_char c"

definition byte_in :: "char \<Rightarrow> nat \<Rightarrow> nat \<Rightarrow> bool" where
  "byte_in c lo hi \<longleftrightarrow> lo \<le> byte_of c \<and> byte_of c \<le> hi"

fun valid_utf8 :: "string \<Rightarrow> bool" where
  "valid_utf8 [] = True"
| "valid_utf8 (a # r) =
     (if byte_of a < 128 then valid_utf8 r
      else case r of
        [] \<Rightarrow> False
      | b # r2 \<Rightarrow>
          if byte_in a 194 223 then byte_in b 128 191 \<and> valid_utf8 r2
          else case r2 of
            [] \<Rightarrow> False
          | c # r3 \<Rightarrow>
              if byte_in a 224 239 then
                byte_in b (if byte_of a = 224 then 160 else 128)
                          (if byte_of a = 237 then 159 else 191) \<and>
                byte_in c 128 191 \<and> valid_utf8 r3
              else case r3 of
                [] \<Rightarrow> False
              | d # r4 \<Rightarrow>
                  byte_in a 240 244 \<and>
                  byte_in b (if byte_of a = 240 then 144 else 128)
                            (if byte_of a = 244 then 143 else 191) \<and>
                  byte_in c 128 191 \<and> byte_in d 128 191 \<and> valid_utf8 r4)"

declare valid_utf8.simps(2) [simp del]

lemma valid_utf8_ascii: "\<forall>c\<in>set s. byte_of c < 128 \<Longrightarrow> valid_utf8 s"
  by (induction s) (simp_all add: valid_utf8.simps(2))

lemma valid_utf8_append_ascii:
  assumes "byte_of c < 128"
  shows "valid_utf8 (a @ c # b) \<longleftrightarrow> valid_utf8 a \<and> valid_utf8 b"
proof (induction a rule: valid_utf8.induct)
  case 1
  then show ?case using assms by (simp add: valid_utf8.simps(2))
next
  case (2 x r)
  show ?case
  proof (cases "byte_of x < 128")
    case True
    then show ?thesis using 2 by (simp add: valid_utf8.simps(2))
  next
    case x: False
    show ?thesis
    proof (cases r)
      case Nil
      then show ?thesis using x assms
        by (auto simp: valid_utf8.simps(2) byte_in_def split: list.splits)
    next
      case y: (Cons y r2)
      show ?thesis
      proof (cases r2)
        case Nil
        then show ?thesis using x y assms 2(2)
          by (auto simp: valid_utf8.simps(2) byte_in_def split: list.splits)
      next
        case z: (Cons z r3)
        show ?thesis
        proof (cases r3)
          case Nil
          then show ?thesis using x y z assms 2(2,3)
            by (auto simp: valid_utf8.simps(2) [of x] byte_in_def split: list.splits)
        next
          case (Cons w r4)
          then show ?thesis using x y z assms 2(2,3,4)
            by (auto simp: valid_utf8.simps(2) [of x])
        qed
      qed
    qed
  qed
qed

section \<open>Lists\<close>

lemma set_map_filter_iff: "y \<in> set (List.map_filter f xs) \<longleftrightarrow> (\<exists>x\<in>set xs. f x = Some y)"
  by (induction xs) (auto simp: List.map_filter_def)

lemma distinct_map_filter:
  "distinct xs \<Longrightarrow> (\<And>x y v. x \<in> set xs \<Longrightarrow> y \<in> set xs \<Longrightarrow> f x = Some v \<Longrightarrow> f y = Some v \<Longrightarrow> x = y) \<Longrightarrow>
     distinct (List.map_filter f xs)"
proof (induction xs)
  case Nil
  then show ?case by (simp add: List.map_filter_def)
next
  case (Cons x xs)
  then have IH: "distinct (List.map_filter f xs)" by auto
  show ?case
  proof (cases "f x")
    case None
    with IH show ?thesis by (simp add: List.map_filter_def)
  next
    case (Some v)
    have "v \<notin> set (List.map_filter f xs)"
    proof
      assume "v \<in> set (List.map_filter f xs)"
      then obtain y where "y \<in> set xs" "f y = Some v" by (auto simp: set_map_filter_iff)
      with Cons.prems Some show False by (metis distinct.simps(2) list.set_intros)
    qed
    with IH Some show ?thesis by (simp add: List.map_filter_def)
  qed
qed

lemma map_fst_map_filter:
  "(\<And>x. x \<in> set xs \<Longrightarrow> map_option fst (f x) = g x) \<Longrightarrow>
     map fst (List.map_filter f xs) = List.map_filter g xs"
proof (induction xs)
  case Nil
  then show ?case by (simp add: List.map_filter_def)
next
  case (Cons x xs)
  then have "g x = map_option fst (f x)" by simp
  with Cons show ?case by (cases "f x") (simp_all add: List.map_filter_def)
qed

section \<open>Finite maps\<close>

text \<open>
  Go ranges over a map in an unspecified order. Where the model has to enumerate the keys it takes
  them in ascending order; \<open>fold_order\<close>-style lemmas in the components show the order is irrelevant.
\<close>

abbreviation keys_of :: "(string, 'v) fmap \<Rightarrow> string list" where
  "keys_of m \<equiv> sorted_list_of_fset (fmdom m)"

lemma distinct_sorted_list_of_fset [simp]: "distinct (sorted_list_of_fset A)"
  by (simp add: sorted_list_of_fset.rep_eq)

lemma sorted_sorted_list_of_fset [simp]: "sorted (sorted_list_of_fset A)"
  by (simp add: sorted_list_of_fset.rep_eq)

lemma fset_fmdom [simp]: "fset (fmdom m) = fmdom' m"
  by (simp add: fmdom'_alt_def)

lemma set_keys_of [simp]: "set (keys_of m) = fmdom' m"
  by simp

end
