(* ===== verification/Extents.thy ===== *)
theory Extents
  imports Kf_Prelude
begin

text \<open>
  The extent maps of overlay files (\<^verbatim>\<open>internal/upper/upper.go\<close> and \<^verbatim>\<open>internal/upper/apply.go\<close>):
  the record \<open>extent\<close>, the list operations \<open>insertExtent\<close>, \<open>coalesce\<close> and \<open>clipExtents\<close>.

  The reference semantics of an extent list is \<open>src_at\<close>: which byte of which blob a file position
  reads from. The theorems say that the three operations keep the list sorted and non-overlapping
  and change \<open>src_at\<close> exactly as a write, a no-op and a truncation do.
\<close>

section \<open>Extents and the list operations\<close>

record extent =
  FileOffset :: i64
  Length :: u64
  BlobID :: bytes
  BlobOffset :: u64

definition End :: "extent \<Rightarrow> i64" where
  "End e = FileOffset e + Length e"

definition overlaps :: "extent \<Rightarrow> i64 \<Rightarrow> i64 \<Rightarrow> bool" where
  "overlaps x s e \<longleftrightarrow> s <s End x \<and> FileOffset x <s e"

definition adjacent :: "extent \<Rightarrow> extent \<Rightarrow> bool" where
  "adjacent a b \<longleftrightarrow>
     End a = FileOffset b \<and> BlobID a = BlobID b \<and> BlobOffset a + Length a = BlobOffset b"

text \<open>
  The loop of \<open>coalesce\<close> keeps the last output element as its state; in the source it is a pointer
  into the output slice, which shares the input's array but never overtakes the read position.
\<close>

fun coalesce_loop :: "extent \<Rightarrow> extent list \<Rightarrow> extent list" where
  "coalesce_loop lst [] = [lst]"
| "coalesce_loop lst (x # xs) =
     (if adjacent lst x then coalesce_loop (lst\<lparr>Length := Length lst + Length x\<rparr>) xs
      else lst # coalesce_loop x xs)"

fun coalesce :: "extent list \<Rightarrow> extent list" where
  "coalesce [] = []"
| "coalesce [x] = [x]"
| "coalesce (x # y # zs) = coalesce_loop x (y # zs)"

text \<open>One iteration of the loop of \<open>insertExtent\<close>: what is left of \<open>x\<close> outside \<open>[eStart, eEnd)\<close>.\<close>

definition keep_outside :: "i64 \<Rightarrow> i64 \<Rightarrow> extent \<Rightarrow> extent list" where
  "keep_outside eStart eEnd x =
     (if \<not> overlaps x eStart eEnd then [x]
      else (if FileOffset x <s eStart
            then [\<lparr>FileOffset = FileOffset x, Length = eStart - FileOffset x,
                   BlobID = BlobID x, BlobOffset = BlobOffset x\<rparr>]
            else []) @
           (if eEnd <s End x
            then [\<lparr>FileOffset = eEnd, Length = End x - eEnd,
                   BlobID = BlobID x, BlobOffset = BlobOffset x + (eEnd - FileOffset x)\<rparr>]
            else []))"

text \<open>
  \<^verbatim>\<open>slices.SortFunc\<close> is not stable; on the lists it is called with here all start offsets differ
  (\<open>insert_parts_disjoint\<close> below), so every sort by start offset gives this one result.
\<close>

definition insertExtent :: "extent list \<Rightarrow> extent \<Rightarrow> extent list" where
  "insertExtent extents e =
     (if Length e = 0 then extents
      else coalesce
             (sort_key (\<lambda>x. sint (FileOffset x))
                (concat (map (keep_outside (FileOffset e) (End e)) extents) @ [e])))"

fun clipExtents :: "extent list \<Rightarrow> i64 \<Rightarrow> extent list" where
  "clipExtents [] fin = []"
| "clipExtents (x # xs) fin =
     (if fin \<le>s FileOffset x then clipExtents xs fin
      else (if fin <s End x then x\<lparr>Length := fin - FileOffset x\<rparr> else x) # clipExtents xs fin)"

section \<open>Well-formed extent lists and what they mean\<close>

abbreviation ext_start :: "extent \<Rightarrow> int" where
  "ext_start e \<equiv> sint (FileOffset e)"

abbreviation ext_stop :: "extent \<Rightarrow> int" where
  "ext_stop e \<equiv> sint (FileOffset e) + uint (Length e)"

text \<open>An extent is in range when neither its file range nor its blob range overflows.\<close>

definition ext_ok :: "extent \<Rightarrow> bool" where
  "ext_ok e \<longleftrightarrow> 0 \<le> ext_start e \<and> 0 < uint (Length e) \<and> ext_stop e < 2 ^ 63 \<and>
     uint (BlobOffset e) + uint (Length e) < 2 ^ 64"

definition before :: "extent \<Rightarrow> extent \<Rightarrow> bool" where
  "before a b \<longleftrightarrow> ext_stop a \<le> ext_start b"

definition exts_wf :: "extent list \<Rightarrow> bool" where
  "exts_wf xs \<longleftrightarrow> (\<forall>x\<in>set xs. ext_ok x) \<and> sorted_wrt before xs"

definition covers :: "extent \<Rightarrow> int \<Rightarrow> bool" where
  "covers e i \<longleftrightarrow> ext_start e \<le> i \<and> i < ext_stop e"

definition ext_src :: "extent \<Rightarrow> int \<Rightarrow> bytes \<times> int" where
  "ext_src e i = (BlobID e, uint (BlobOffset e) + (i - ext_start e))"

definition src_at :: "extent list \<Rightarrow> int \<Rightarrow> (bytes \<times> int) option" where
  "src_at xs i = map_option (\<lambda>e. ext_src e i) (find (\<lambda>e. covers e i) xs)"

lemma ext_okD:
  assumes "ext_ok e"
  shows "0 \<le> ext_start e" and "0 < uint (Length e)" and "ext_stop e < 2 ^ 63"
    and "uint (BlobOffset e) + uint (Length e) < 2 ^ 64"
  using assms by (auto simp: ext_ok_def)

lemma sint_Length: "ext_ok e \<Longrightarrow> sint (Length e) = uint (Length e)"
  by (rule sint_eq_uint_small) (use ext_okD [of e] in linarith)

lemma sint_End [i64_arith]: "ext_ok e \<Longrightarrow> sint (End e) = ext_stop e"
  using ext_okD [of e] sint_Length [of e] by (simp add: End_def sint_plus)

lemma overlaps_int [i64_arith]:
  "ext_ok x \<Longrightarrow> overlaps x s e \<longleftrightarrow> sint s < ext_stop x \<and> ext_start x < sint e"
  by (simp add: overlaps_def i64_arith)

lemma adjacent_int:
  assumes "ext_ok a" and "ext_ok b"
  shows "adjacent a b \<longleftrightarrow> ext_stop a = ext_start b \<and> BlobID a = BlobID b \<and>
    uint (BlobOffset a) + uint (Length a) = uint (BlobOffset b)"
proof -
  have "End a = FileOffset b \<longleftrightarrow> ext_stop a = ext_start b"
    using assms(1) by (metis sint_End signed_word_eqI)
  moreover have "BlobOffset a + Length a = BlobOffset b \<longleftrightarrow>
      uint (BlobOffset a) + uint (Length a) = uint (BlobOffset b)"
    using ext_okD(4) [OF assms(1)] by (metis uint_plus word_uint_eq_iff)
  ultimately show ?thesis by (simp add: adjacent_def)
qed

lemma exts_wf_Cons:
  "exts_wf (x # xs) \<longleftrightarrow> ext_ok x \<and> (\<forall>y\<in>set xs. before x y) \<and> exts_wf xs"
  by (auto simp: exts_wf_def)

lemma exts_wf_Nil [simp]: "exts_wf []"
  by (simp add: exts_wf_def)

text \<open>
  In a well-formed list at most one extent covers a position, so \<open>src_at\<close> does not depend on the
  order of the list: it can be read off the set of extents.
\<close>

lemma exts_wf_unique:
  "exts_wf xs \<Longrightarrow> a \<in> set xs \<Longrightarrow> b \<in> set xs \<Longrightarrow> covers a i \<Longrightarrow> covers b i \<Longrightarrow> a = b"
  by (induction xs) (auto simp: exts_wf_Cons covers_def before_def)

lemma src_at_iff:
  assumes "exts_wf xs"
  shows "src_at xs i = Some v \<longleftrightarrow> (\<exists>e\<in>set xs. covers e i \<and> v = ext_src e i)"
proof (cases "find (\<lambda>e. covers e i) xs")
  case None
  then have "\<forall>e\<in>set xs. \<not> covers e i" by (auto simp: find_None_iff)
  with None show ?thesis by (auto simp: src_at_def)
next
  case (Some e)
  then have "e \<in> set xs" and "covers e i"
    by (auto simp: find_Some_iff)
  with Some exts_wf_unique [OF assms] show ?thesis
    by (auto simp: src_at_def)
qed

lemma src_at_eqI:
  assumes "exts_wf xs"
    and "\<And>v. (\<exists>e\<in>set xs. covers e i \<and> v = ext_src e i) \<longleftrightarrow> r = Some v"
  shows "src_at xs i = r"
  using assms by (metis src_at_iff not_Some_eq)


section \<open>What insertion leaves of the old extents\<close>

text \<open>
  The two parts of \<open>x\<close> that survive a write over the range of \<open>e\<close>, and their bounds as integers:
  under \<open>ext_ok\<close> none of the subtractions and additions of the loop body wraps.
\<close>

definition left_part :: "extent \<Rightarrow> extent \<Rightarrow> extent" where
  "left_part e x = \<lparr>FileOffset = FileOffset x, Length = FileOffset e - FileOffset x,
     BlobID = BlobID x, BlobOffset = BlobOffset x\<rparr>"

definition right_part :: "extent \<Rightarrow> extent \<Rightarrow> extent" where
  "right_part e x = \<lparr>FileOffset = End e, Length = End x - End e,
     BlobID = BlobID x, BlobOffset = BlobOffset x + (End e - FileOffset x)\<rparr>"

lemma uint_diff_signed:
  fixes a b :: "64 word"
  assumes "0 \<le> sint b" and "sint b \<le> sint a"
  shows "uint (a - b) = sint a - sint b"
proof -
  have "sint (a - b) = sint a - sint b"
    using assms sint_range [of a] by (intro sint_minus) linarith+
  with assms show ?thesis by (simp add: uint_eq_sint_nonneg)
qed

lemma left_part_simps [simp]:
  "FileOffset (left_part e x) = FileOffset x" "BlobID (left_part e x) = BlobID x"
  "BlobOffset (left_part e x) = BlobOffset x"
  by (simp_all add: left_part_def)

lemma right_part_simps [simp]:
  "FileOffset (right_part e x) = End e" "BlobID (right_part e x) = BlobID x"
  by (simp_all add: right_part_def)

lemma left_part_length:
  assumes "ext_ok x" and "ext_start x \<le> ext_start e"
  shows "uint (Length (left_part e x)) = ext_start e - ext_start x"
  unfolding left_part_def using assms
  by (simp add: uint_diff_signed ext_ok_def)

lemma right_part_length:
  assumes "ext_ok x" and "ext_ok e" and "ext_stop e \<le> ext_stop x"
  shows "uint (Length (right_part e x)) = ext_stop x - ext_stop e"
  unfolding right_part_def using assms
  by (simp add: uint_diff_signed ext_ok_def sint_End)

lemma right_part_offset:
  assumes "ext_ok x" and "ext_ok e" and "ext_start x \<le> ext_stop e" and "ext_stop e \<le> ext_stop x"
  shows "uint (BlobOffset (right_part e x)) = uint (BlobOffset x) + (ext_stop e - ext_start x)"
proof -
  have "uint (End e - FileOffset x) = ext_stop e - ext_start x"
    using assms by (subst uint_diff_signed) (auto simp: ext_ok_def sint_End)
  then show ?thesis
    unfolding right_part_def using assms ext_okD(4) [OF assms(1)]
    by (simp add: uint_plus)
qed

lemmas part_bounds = left_part_length right_part_length right_part_offset sint_End

lemma left_part_ok:
  assumes "ext_ok x" and "ext_start x < ext_start e" and "ext_start e < ext_stop x"
  shows "ext_ok (left_part e x)"
  using assms ext_okD [OF assms(1)] by (simp add: ext_ok_def left_part_length)

lemma right_part_ok:
  assumes "ext_ok x" and "ext_ok e" and "ext_start x < ext_stop e" and "ext_stop e < ext_stop x"
  shows "ext_ok (right_part e x)"
  using assms(3,4) ext_okD [OF assms(1)] ext_okD [OF assms(2)]
  by (simp add: ext_ok_def part_bounds assms(1,2))

lemma keep_outside_int:
  assumes "ext_ok x" and "ext_ok e"
  shows "keep_outside (FileOffset e) (End e) x =
    (if ext_start e < ext_stop x \<and> ext_start x < ext_stop e
     then (if ext_start x < ext_start e then [left_part e x] else []) @
          (if ext_stop e < ext_stop x then [right_part e x] else [])
     else [x])"
  using assms
  by (simp add: keep_outside_def overlaps_int word_sless_alt sint_End left_part_def right_part_def)

lemma keep_outside_ok:
  assumes "ext_ok x" and "ext_ok e" and "p \<in> set (keep_outside (FileOffset e) (End e) x)"
  shows "ext_ok p \<and> ext_start x \<le> ext_start p \<and> ext_stop p \<le> ext_stop x \<and>
    (before p e \<or> before e p)"
  using assms
  by (cases "ext_start e < ext_stop x \<and> ext_start x < ext_stop e";
      cases "ext_start x < ext_start e"; cases "ext_stop e < ext_stop x")
    (auto simp: keep_outside_int part_bounds left_part_ok right_part_ok before_def)

lemma keep_outside_sorted:
  assumes "ext_ok x" and "ext_ok e"
  shows "sorted_wrt before (keep_outside (FileOffset e) (End e) x)"
  using ext_okD [OF assms(1)] ext_okD [OF assms(2)]
  by (simp add: keep_outside_int [OF assms] part_bounds assms before_def)

text \<open>The parts cover exactly the positions of \<open>x\<close> outside \<open>e\<close>, and read the same bytes there.\<close>

lemma keep_outside_src:
  assumes "ext_ok x" and "ext_ok e"
  shows "(\<exists>p\<in>set (keep_outside (FileOffset e) (End e) x). covers p i \<and> v = ext_src p i) \<longleftrightarrow>
    covers x i \<and> \<not> covers e i \<and> v = ext_src x i"
proof (cases "ext_start e < ext_stop x \<and> ext_start x < ext_stop e")
  case False
  then have "\<not> (covers x i \<and> covers e i)" and "keep_outside (FileOffset e) (End e) x = [x]"
    by (auto simp: covers_def keep_outside_int [OF assms])
  then show ?thesis by auto
next
  case True
  have left: "covers (left_part e x) i \<longleftrightarrow> ext_start x \<le> i \<and> i < ext_start e"
    and "ext_src (left_part e x) i = ext_src x i" if "ext_start x < ext_start e"
    using that assms by (simp_all add: covers_def ext_src_def left_part_length)
  moreover have "covers (right_part e x) i \<longleftrightarrow> ext_stop e \<le> i \<and> i < ext_stop x"
    and "ext_src (right_part e x) i = ext_src x i" if "ext_stop e < ext_stop x"
    using that assms True by (simp_all add: covers_def ext_src_def part_bounds)
  moreover have "covers x i \<and> \<not> covers e i \<longleftrightarrow>
      ext_start x < ext_start e \<and> ext_start x \<le> i \<and> i < ext_start e \<or>
      ext_stop e < ext_stop x \<and> ext_stop e \<le> i \<and> i < ext_stop x"
    using True ext_okD(2) [OF assms(1)] ext_okD(2) [OF assms(2)] unfolding covers_def by linarith
  ultimately show ?thesis
    using True
    by (cases "ext_start x < ext_start e"; cases "ext_stop e < ext_stop x")
      (auto simp: keep_outside_int [OF assms])
qed

section \<open>Sorting pairwise disjoint extents\<close>

definition disjoint_exts :: "extent list \<Rightarrow> bool" where
  "disjoint_exts xs \<longleftrightarrow> (\<forall>x\<in>set xs. ext_ok x) \<and> distinct xs \<and>
     (\<forall>a\<in>set xs. \<forall>b\<in>set xs. a \<noteq> b \<longrightarrow> before a b \<or> before b a)"

lemma exts_wf_disjoint: "exts_wf xs \<Longrightarrow> disjoint_exts xs"
proof (induction xs)
  case Nil
  then show ?case by (simp add: disjoint_exts_def)
next
  case (Cons x xs)
  then have "x \<notin> set xs" by (auto simp: exts_wf_Cons before_def ext_ok_def)
  with Cons show ?case by (auto simp: exts_wf_Cons disjoint_exts_def)
qed

lemma disjoint_sorted_wf:
  assumes "disjoint_exts xs" and "sorted (map (\<lambda>x. sint (FileOffset x)) xs)"
  shows "exts_wf xs"
  using assms
proof (induction xs)
  case Nil
  then show ?case by simp
next
  case (Cons x xs)
  then have "exts_wf xs" by (auto simp: disjoint_exts_def)
  moreover have "before x y" if "y \<in> set xs" for y
  proof -
    from Cons.prems that have "before x y \<or> before y x" and "ext_start x \<le> ext_start y"
      and "ext_ok y" by (auto simp: disjoint_exts_def)
    then show ?thesis by (auto simp: before_def ext_ok_def)
  qed
  ultimately show ?case using Cons.prems by (simp add: exts_wf_Cons disjoint_exts_def)
qed

lemma sort_disjoint_wf:
  "disjoint_exts xs \<Longrightarrow> exts_wf (sort_key (\<lambda>x. sint (FileOffset x)) xs)"
  by (rule disjoint_sorted_wf) (simp_all add: disjoint_exts_def)

text \<open>The list handed to the sort in \<open>insertExtent\<close> is pairwise disjoint.\<close>

lemma concat_keep_outside_wf:
  assumes "exts_wf xs" and "ext_ok e"
  shows "exts_wf (concat (map (keep_outside (FileOffset e) (End e)) xs))"
  using assms(1)
proof (induction xs)
  case Nil
  then show ?case by simp
next
  case (Cons x xs)
  have x: "ext_ok x" and wf: "exts_wf xs" using Cons.prems by (simp_all add: exts_wf_Cons)
  have "before p q"
    if p: "p \<in> set (keep_outside (FileOffset e) (End e) x)"
      and y: "y \<in> set xs" and q: "q \<in> set (keep_outside (FileOffset e) (End e) y)" for p q y
  proof -
    have "ext_ok y" and "before x y" using Cons.prems y by (auto simp: exts_wf_def)
    with keep_outside_ok [OF x assms(2) p] keep_outside_ok [OF _ assms(2) q] show ?thesis
      by (auto simp: before_def)
  qed
  moreover have "\<forall>p\<in>set (keep_outside (FileOffset e) (End e) x). ext_ok p"
    using keep_outside_ok [OF x assms(2)] by blast
  moreover note keep_outside_sorted [OF x assms(2)] Cons.IH [OF wf]
  ultimately show ?case by (auto simp: exts_wf_def sorted_wrt_append)
qed

lemma insert_parts_disjoint:
  assumes "exts_wf xs" and "ext_ok e"
  shows "disjoint_exts (concat (map (keep_outside (FileOffset e) (End e)) xs) @ [e])"
proof -
  let ?ps = "concat (map (keep_outside (FileOffset e) (End e)) xs)"
  have apart: "before p e \<or> before e p" if "p \<in> set ?ps" for p
  proof -
    from that obtain x where "x \<in> set xs" and p: "p \<in> set (keep_outside (FileOffset e) (End e) x)"
      by auto
    with assms(1) have "ext_ok x" by (simp add: exts_wf_def)
    with keep_outside_ok [OF _ assms(2) p] show ?thesis by blast
  qed
  then have "e \<notin> set ?ps"
    using ext_okD(2) [OF assms(2)] by (fastforce simp: before_def)
  with apart exts_wf_disjoint [OF concat_keep_outside_wf [OF assms]] assms(2) show ?thesis
    unfolding disjoint_exts_def by auto
qed

section \<open>Coalescing changes nothing\<close>

definition same_src :: "extent list \<Rightarrow> extent list \<Rightarrow> bool" where
  "same_src xs ys \<longleftrightarrow> (\<forall>i v. (\<exists>e\<in>set xs. covers e i \<and> v = ext_src e i) \<longleftrightarrow>
     (\<exists>e\<in>set ys. covers e i \<and> v = ext_src e i))"

lemma same_srcD: "same_src xs ys \<Longrightarrow> exts_wf xs \<Longrightarrow> exts_wf ys \<Longrightarrow> src_at xs i = src_at ys i"
proof -
  assume "same_src xs ys" and "exts_wf xs" and "exts_wf ys"
  then have "src_at xs i = Some v \<longleftrightarrow> src_at ys i = Some v" for v
    unfolding same_src_def by (simp add: src_at_iff del: split_paired_All)
  then show ?thesis by (metis not_Some_eq)
qed

text \<open>Merging two adjacent extents covers both ranges and reads the same bytes.\<close>

lemma merge_adjacent:
  assumes "ext_ok a" and "ext_ok b" and "adjacent a b"
  defines "m \<equiv> a\<lparr>Length := Length a + Length b\<rparr>"
  shows "ext_ok m" and "ext_start m = ext_start a" and "ext_stop m = ext_stop b"
    and "(covers m i \<and> v = ext_src m i) \<longleftrightarrow>
      (covers a i \<and> v = ext_src a i) \<or> (covers b i \<and> v = ext_src b i)"
proof -
  note adj = assms(3) [unfolded adjacent_int [OF assms(1,2)]]
  note ok = ext_okD [OF assms(1)] ext_okD [OF assms(2)]
  have len: "uint (Length m) = uint (Length a) + uint (Length b)"
    unfolding m_def using adj ok by (simp add: uint_plus)
  show "ext_start m = ext_start a" by (simp add: m_def)
  show "ext_stop m = ext_stop b" using len adj by (simp add: m_def)
  show "ext_ok m" using len adj ok by (simp add: ext_ok_def m_def)
  show "(covers m i \<and> v = ext_src m i) \<longleftrightarrow>
      (covers a i \<and> v = ext_src a i) \<or> (covers b i \<and> v = ext_src b i)"
    using len adj ok by (auto simp: covers_def ext_src_def m_def)
qed

lemma coalesce_loop_wf:
  "exts_wf (lst # xs) \<Longrightarrow> exts_wf (coalesce_loop lst xs) \<and> same_src (coalesce_loop lst xs) (lst # xs) \<and>
     (\<forall>y\<in>set (coalesce_loop lst xs). ext_start lst \<le> ext_start y)"
proof (induction lst xs rule: coalesce_loop.induct)
  case (1 lst)
  then show ?case by (simp add: same_src_def)
next
  case (2 lst x xs)
  have ok: "ext_ok lst" "ext_ok x" "before lst x" "exts_wf xs" "\<forall>y\<in>set xs. before x y"
    "\<forall>y\<in>set xs. before lst y"
    using "2.prems" by (auto simp: exts_wf_Cons)
  show ?case
  proof (cases "adjacent lst x")
    case True
    let ?m = "lst\<lparr>Length := Length lst + Length x\<rparr>"
    note m = merge_adjacent [OF ok(1,2) True]
    have "exts_wf (?m # xs)"
      using m(1,3) ok by (auto simp: exts_wf_Cons before_def)
    with "2.IH"(1) [OF True] have "exts_wf (coalesce_loop ?m xs)"
      and "same_src (coalesce_loop ?m xs) (?m # xs)"
      and "\<forall>y\<in>set (coalesce_loop ?m xs). ext_start ?m \<le> ext_start y"
      by blast+
    with True m(2,4) show ?thesis by (auto simp: same_src_def)
  next
    case False
    from ok have "exts_wf (x # xs)" by (simp add: exts_wf_Cons)
    with "2.IH"(2) [OF False] have IH: "exts_wf (coalesce_loop x xs)"
      "same_src (coalesce_loop x xs) (x # xs)"
      "\<forall>y\<in>set (coalesce_loop x xs). ext_start x \<le> ext_start y" by blast+
    from IH(3) ok(3) have "\<forall>y\<in>set (coalesce_loop x xs). before lst y"
      by (auto simp: before_def)
    moreover have "\<forall>y\<in>set (coalesce_loop x xs). ext_start lst \<le> ext_start y"
      using IH(3) ok(1,3) by (fastforce simp: before_def ext_ok_def)
    ultimately show ?thesis
      using False IH(1,2) ok(1) by (auto simp: exts_wf_Cons same_src_def)
  qed
qed

lemma coalesce_wf:
  assumes "exts_wf xs"
  shows "exts_wf (coalesce xs)" and "same_src (coalesce xs) xs"
proof -
  have "exts_wf (coalesce xs) \<and> same_src (coalesce xs) xs"
  proof (cases xs rule: coalesce.cases)
    case (3 x y zs)
    with assms show ?thesis by (simp only: coalesce.simps coalesce_loop_wf simp_thms)
  qed (use assms in \<open>simp_all add: same_src_def\<close>)
  then show "exts_wf (coalesce xs)" and "same_src (coalesce xs) xs" by simp_all
qed

text \<open>After a pass no two neighbours can be merged any more: the list is canonical.\<close>

fun no_adjacent :: "extent list \<Rightarrow> bool" where
  "no_adjacent (x # y # zs) \<longleftrightarrow> \<not> adjacent x y \<and> no_adjacent (y # zs)"
| "no_adjacent _ \<longleftrightarrow> True"

lemma coalesce_loop_head:
  "\<exists>y zs. coalesce_loop lst xs = y # zs \<and> FileOffset y = FileOffset lst \<and>
     BlobID y = BlobID lst \<and> BlobOffset y = BlobOffset lst"
  by (induction lst xs rule: coalesce_loop.induct) auto

lemma adjacent_head:
  "FileOffset y = FileOffset x \<Longrightarrow> BlobID y = BlobID x \<Longrightarrow> BlobOffset y = BlobOffset x \<Longrightarrow>
     adjacent a y \<longleftrightarrow> adjacent a x"
  by (simp add: adjacent_def)

lemma coalesce_loop_no_adjacent: "no_adjacent (coalesce_loop lst xs)"
proof (induction lst xs rule: coalesce_loop.induct)
  case (1 lst)
  then show ?case by simp
next
  case (2 lst x xs)
  show ?case
  proof (cases "adjacent lst x")
    case True
    with "2.IH"(1) show ?thesis by simp
  next
    case False
    obtain y zs where y: "coalesce_loop x xs = y # zs" "FileOffset y = FileOffset x"
      "BlobID y = BlobID x" "BlobOffset y = BlobOffset x"
      using coalesce_loop_head by blast
    with False "2.IH"(2) show ?thesis by (simp add: adjacent_head [OF y(2-4)])
  qed
qed

lemma coalesce_no_adjacent: "no_adjacent (coalesce xs)"
  by (cases xs rule: coalesce.cases) (simp_all add: coalesce_loop_no_adjacent del: coalesce_loop.simps)

section \<open>The contract of the extent operations\<close>

lemma Length_zero_iff: "Length e = 0 \<longleftrightarrow> uint (Length e) = 0"
  by (simp add: uint_0_iff)

lemma insertExtent_wf:
  assumes "exts_wf xs" and "ext_ok e"
  shows "exts_wf (insertExtent xs e) \<and> no_adjacent (insertExtent xs e)"
proof -
  have "Length e \<noteq> 0" using ext_okD(2) [OF assms(2)] by (auto simp: Length_zero_iff)
  then show ?thesis
    using coalesce_wf(1) [OF sort_disjoint_wf [OF insert_parts_disjoint [OF assms]]]
      coalesce_no_adjacent
    by (simp add: insertExtent_def)
qed

lemma insert_parts_src:
  assumes "exts_wf xs" and "ext_ok e"
  shows "(\<exists>p\<in>set (concat (map (keep_outside (FileOffset e) (End e)) xs) @ [e]).
      covers p i \<and> v = ext_src p i) \<longleftrightarrow>
    (if covers e i then v = ext_src e i else \<exists>x\<in>set xs. covers x i \<and> v = ext_src x i)"
proof -
  have "(\<exists>p\<in>set (concat (map (keep_outside (FileOffset e) (End e)) xs)). covers p i \<and> v = ext_src p i)
    \<longleftrightarrow> (\<exists>x\<in>set xs. covers x i \<and> \<not> covers e i \<and> v = ext_src x i)"
    using keep_outside_src [OF _ assms(2)] assms(1) by (simp add: exts_wf_def)
  then show ?thesis by auto
qed

lemma insertExtent_src:
  assumes "exts_wf xs" and "ext_ok e"
  shows "src_at (insertExtent xs e) i = (if covers e i then Some (ext_src e i) else src_at xs i)"
proof -
  let ?ps = "concat (map (keep_outside (FileOffset e) (End e)) xs) @ [e]"
  let ?s = "sort_key (\<lambda>x. sint (FileOffset x)) ?ps"
  note wf = sort_disjoint_wf [OF insert_parts_disjoint [OF assms]]
  have "Length e \<noteq> 0" using ext_okD(2) [OF assms(2)] by (auto simp: Length_zero_iff)
  then have "src_at (insertExtent xs e) i = src_at ?s i"
    using same_srcD [OF coalesce_wf(2) [OF wf] coalesce_wf(1) [OF wf] wf]
    by (simp add: insertExtent_def)
  also have "\<dots> = (if covers e i then Some (ext_src e i) else src_at xs i)"
  proof (rule src_at_eqI [OF wf])
    show "(\<exists>p\<in>set ?s. covers p i \<and> v = ext_src p i) \<longleftrightarrow>
        (if covers e i then Some (ext_src e i) else src_at xs i) = Some v" for v
      unfolding set_sort insert_parts_src [OF assms]
      by (cases "covers e i") (auto simp: src_at_iff [OF assms(1)])
  qed
  finally show ?thesis .
qed

lemma clip_one:
  assumes "ext_ok x" and "ext_start x < sint fin" and "sint fin < ext_stop x"
  defines "c \<equiv> x\<lparr>Length := fin - FileOffset x\<rparr>"
  shows "ext_ok c" and "ext_stop c = sint fin"
proof -
  have "uint (fin - FileOffset x) = sint fin - ext_start x"
    using assms ext_okD [OF assms(1)] by (intro uint_diff_signed) simp_all
  then show "ext_ok c" and "ext_stop c = sint fin"
    using assms ext_okD [OF assms(1)] by (simp_all add: ext_ok_def)
qed

lemma clipExtents_before:
  "exts_wf xs \<Longrightarrow> \<forall>y\<in>set xs. before x y \<Longrightarrow> \<forall>y\<in>set (clipExtents xs fin). before x y"
  by (induction xs fin rule: clipExtents.induct) (auto simp: exts_wf_Cons before_def)

lemma clipExtents_wf_stop:
  assumes "exts_wf xs"
  shows "exts_wf (clipExtents xs fin) \<and> (\<forall>y\<in>set (clipExtents xs fin). ext_stop y \<le> sint fin)"
  using assms
proof (induction xs fin rule: clipExtents.induct)
  case (1 fin)
  then show ?case by simp
next
  case (2 x xs fin)
  have x: "ext_ok x" and xs: "exts_wf xs" and bef: "\<forall>y\<in>set xs. before x y"
    using "2.prems" by (simp_all add: exts_wf_Cons)
  show ?case
  proof (cases "fin \<le>s FileOffset x")
    case True
    with "2.IH"(1) xs show ?thesis by simp
  next
    case False
    note IH = "2.IH"(2) [OF False xs]
    note after = clipExtents_before [OF xs bef, of fin]
    show ?thesis
    proof (cases "fin <s End x")
      case True
      let ?c = "x\<lparr>Length := fin - FileOffset x\<rparr>"
      have "ext_start x < sint fin" and "sint fin < ext_stop x"
        using x True False by (simp_all add: i64_arith)
      note c = clip_one [OF x this]
      have "\<forall>y\<in>set (clipExtents xs fin). before ?c y"
        using after c(2) True x by (fastforce simp: before_def i64_arith)
      with c True False IH show ?thesis by (simp add: exts_wf_Cons)
    next
      case cut: False
      with x False IH after show ?thesis by (simp add: exts_wf_Cons i64_arith)
    qed
  qed
qed

lemma clip_one_src:
  assumes "ext_ok x" and "ext_start x < sint fin"
  shows "(covers (if fin <s End x then x\<lparr>Length := fin - FileOffset x\<rparr> else x) i \<and>
      v = ext_src (if fin <s End x then x\<lparr>Length := fin - FileOffset x\<rparr> else x) i) \<longleftrightarrow>
    i < sint fin \<and> covers x i \<and> v = ext_src x i"
proof (cases "fin <s End x")
  case True
  with assms have "sint fin < ext_stop x" by (simp add: i64_arith)
  with assms clip_one(2) [OF assms this] True show ?thesis
    by (auto simp: covers_def ext_src_def)
next
  case False
  with assms show ?thesis by (auto simp: covers_def i64_arith)
qed

lemma clipExtents_src_set:
  "exts_wf xs \<Longrightarrow> (\<exists>e\<in>set (clipExtents xs fin). covers e i \<and> v = ext_src e i) \<longleftrightarrow>
     i < sint fin \<and> (\<exists>e\<in>set xs. covers e i \<and> v = ext_src e i)"
proof (induction xs fin rule: clipExtents.induct)
  case (1 fin)
  then show ?case by simp
next
  case (2 x xs fin)
  have x: "ext_ok x" and xs: "exts_wf xs" using "2.prems" by (simp_all add: exts_wf_Cons)
  show ?case
  proof (cases "fin \<le>s FileOffset x")
    case True
    then have "\<not> (i < sint fin \<and> covers x i)" by (auto simp: covers_def i64_arith)
    with True "2.IH"(1) xs show ?thesis by auto
  next
    case False
    then have "ext_start x < sint fin" by (simp add: i64_arith)
    with False "2.IH"(2) xs clip_one_src [OF x] show ?thesis
      by (simp only: clipExtents.simps if_False list.set bex_simps) blast
  qed
qed

lemma clipExtents_src:
  assumes "exts_wf xs"
  shows "exts_wf (clipExtents xs fin) \<and> (\<forall>y\<in>set (clipExtents xs fin). ext_stop y \<le> sint fin) \<and>
    src_at (clipExtents xs fin) i = (if i < sint fin then src_at xs i else None)"
proof -
  note wf = clipExtents_wf_stop [OF assms, of fin]
  have "src_at (clipExtents xs fin) i = (if i < sint fin then src_at xs i else None)"
    using wf by (intro src_at_eqI)
      (simp_all only: clipExtents_src_set [OF assms] src_at_iff [OF assms] split: if_split, simp)
  with wf show ?thesis by blast
qed

text \<open>The positions past the last extent are exactly those no extent covers.\<close>

lemma stops_iff_src:
  assumes "exts_wf xs"
  shows "(\<forall>e\<in>set xs. ext_stop e \<le> n) \<longleftrightarrow> (\<forall>i\<ge>n. src_at xs i = None)"
proof
  assume "\<forall>e\<in>set xs. ext_stop e \<le> n"
  then show "\<forall>i\<ge>n. src_at xs i = None"
    by (fastforce simp: src_at_def covers_def find_None_iff)
next
  assume none: "\<forall>i\<ge>n. src_at xs i = None"
  show "\<forall>e\<in>set xs. ext_stop e \<le> n"
  proof (rule ccontr)
    assume "\<not> (\<forall>e\<in>set xs. ext_stop e \<le> n)"
    then obtain e where e: "e \<in> set xs" "n < ext_stop e" by force
    with assms have "covers e (ext_stop e - 1)" by (auto simp: covers_def exts_wf_def ext_ok_def)
    with e(1) have "src_at xs (ext_stop e - 1) \<noteq> None"
      by (auto simp: src_at_def find_None_iff)
    with none e(2) show False by simp
  qed
qed

section \<open>The interface of an extent map\<close>

text \<open>
  What the overlay relies on: insertion overwrites a range, clipping forgets a suffix, both keep the
  map well-formed. \<open>src\<close> is the meaning of a map. The lemmas below follow from the laws alone.
\<close>

locale extent_store =
  fixes ins :: "'m \<Rightarrow> extent \<Rightarrow> 'm" and clip :: "'m \<Rightarrow> i64 \<Rightarrow> 'm"
    and src :: "'m \<Rightarrow> int \<Rightarrow> (bytes \<times> int) option" and wf :: "'m \<Rightarrow> bool"
  assumes ins_wf: "wf m \<Longrightarrow> ext_ok e \<Longrightarrow> wf (ins m e)"
    and ins_src: "wf m \<Longrightarrow> ext_ok e \<Longrightarrow>
      src (ins m e) i = (if covers e i then Some (ext_src e i) else src m i)"
    and clip_wf: "wf m \<Longrightarrow> wf (clip m fin)"
    and clip_src: "wf m \<Longrightarrow> src (clip m fin) i = (if i < sint fin then src m i else None)"
begin

lemma writes_wf: "wf m \<Longrightarrow> \<forall>e\<in>set es. ext_ok e \<Longrightarrow> wf (foldl ins m es)"
  by (induction es arbitrary: m) (simp_all add: ins_wf)

lemma last_write_wins:
  "wf m \<Longrightarrow> \<forall>e\<in>set es. ext_ok e \<Longrightarrow>
     src (foldl ins m es) i =
       (case find (\<lambda>e. covers e i) (rev es) of Some e \<Rightarrow> Some (ext_src e i) | None \<Rightarrow> src m i)"
proof (induction es rule: rev_induct)
  case Nil
  then show ?case by simp
next
  case (snoc e es)
  then show ?case using writes_wf [of m es] by (simp add: ins_src)
qed

text \<open>A write that reaches the end of the file: insert, then clip at the end of the new extent.\<close>

lemma write_to_end:
  assumes "wf m" and "ext_ok e"
  shows "wf (clip (ins m e) (End e))"
    and "src (clip (ins m e) (End e)) i =
      (if covers e i then Some (ext_src e i) else if i < ext_stop e then src m i else None)"
  using assms by (auto simp: clip_wf ins_wf clip_src ins_src sint_End covers_def)

lemma truncate_twice:
  assumes "wf m"
  shows "src (clip (clip m a) b) i = (if i < min (sint a) (sint b) then src m i else None)"
  using assms by (simp add: clip_wf clip_src)

end

interpretation ext: extent_store insertExtent clipExtents src_at exts_wf
  using insertExtent_wf insertExtent_src clipExtents_src by unfold_locales blast+

text \<open>
  \<open>insertExtent\<close> is an overwrite. On a well-formed list (extents in range, sorted, disjoint) it
  gives a well-formed list in which no two neighbours could be merged any more, a position inside the
  new extent reads from it, and every other position reads what it read before: splitting, sorting
  and coalescing are invisible.
\<close>

theorem insertExtent_overwrites:
  assumes "exts_wf xs" and "ext_ok e"
  shows "exts_wf (insertExtent xs e) \<and> no_adjacent (insertExtent xs e) \<and>
    src_at (insertExtent xs e) i = (if covers e i then Some (ext_src e i) else src_at xs i)"
  using insertExtent_wf [OF assms] ext.ins_src [OF assms] by simp

text \<open>
  \<open>clipExtents\<close> is a truncation. It keeps a list well-formed with nothing past \<open>fin\<close> and forgets
  exactly the positions at or after \<open>fin\<close>: it never changes a byte it keeps.
\<close>

theorem clipExtents_truncates:
  assumes "exts_wf xs"
  shows "exts_wf (clipExtents xs fin) \<and> (\<forall>y\<in>set (clipExtents xs fin). ext_stop y \<le> sint fin) \<and>
    src_at (clipExtents xs fin) i = (if i < sint fin then src_at xs i else None)"
  using clipExtents_src [OF assms] .

text \<open>
  C25. Any number of writes, in any overlap pattern, leave each position reading from the last write
  that covers it (or from the list before, where none does): the extent list of a file means exactly
  its write history.
\<close>

theorem insertExtent_last_write_wins:
  assumes "exts_wf xs" and "\<forall>e\<in>set es. ext_ok e"
  shows "src_at (foldl insertExtent xs es) i =
    (case find (\<lambda>e. covers e i) (rev es) of
       Some e \<Rightarrow> Some (ext_src e i) | None \<Rightarrow> src_at xs i)"
  using assms by (rule ext.last_write_wins)

section \<open>Concrete instances\<close>

definition sample_old :: extent where
  "sample_old = \<lparr>FileOffset = 0, Length = 10, BlobID = ''a'', BlobOffset = 0\<rparr>"

definition sample_new :: extent where
  "sample_new = \<lparr>FileOffset = 3, Length = 4, BlobID = ''b'', BlobOffset = 0\<rparr>"

lemma sample_ok: "exts_wf [sample_old]" "ext_ok sample_old" "ext_ok sample_new"
  by (simp_all add: exts_wf_def ext_ok_def sample_old_def sample_new_def)

text \<open>Overwriting the middle of an extent splits it in two around the new one.\<close>

theorem insertExtent_overwrites_witness:
  "exts_wf (insertExtent [sample_old] sample_new) \<and>
   map FileOffset (insertExtent [sample_old] sample_new) = [0, 3, 7] \<and>
   src_at (insertExtent [sample_old] sample_new) 8 = Some (''a'', 8) \<and>
   src_at (insertExtent [sample_old] sample_new) 4 = Some (''b'', 1)"
proof -
  have "map FileOffset (insertExtent [sample_old] sample_new) = [0, 3, 7]" by code_simp
  then show ?thesis
    using insertExtent_overwrites [OF sample_ok(1,3), of 8]
      insertExtent_overwrites [OF sample_ok(1,3), of 4]
    by (simp add: src_at_def covers_def ext_src_def sample_old_def sample_new_def)
qed

theorem clipExtents_truncates_witness:
  "exts_wf (clipExtents [sample_old] 4) \<and> src_at (clipExtents [sample_old] 4) 3 = Some (''a'', 3) \<and>
   src_at (clipExtents [sample_old] 4) 4 = None"
  using clipExtents_truncates [OF sample_ok(1), of 4 3] clipExtents_truncates [OF sample_ok(1), of 4 4]
  by (simp add: src_at_def covers_def ext_src_def sample_old_def)

theorem insertExtent_last_write_wins_witness:
  "src_at (foldl insertExtent [] [sample_old, sample_new, sample_old]) 4 = Some (''a'', 4)"
  using insertExtent_last_write_wins [of "[]" "[sample_old, sample_new, sample_old]" 4] sample_ok
  by (simp add: covers_def ext_src_def sample_old_def)

end
