(* ===== verification/Extent_Read.thy ===== *)
theory Extent_Read
  imports Extents
begin

text \<open>
  Reading through an extent map (\<^verbatim>\<open>internal/fs/extents.go\<close>): \<open>extentBytes\<close> cuts an extent's bytes out
  of its blob and \<open>mergeExtents\<close> lays them over a window that already holds the lower file's bytes or
  zeros. Fetching a blob is a parameter \<open>get\<close>, as in the source. A Go slice expression with bad
  bounds panics; the model has that as the error \<open>SlicePanic\<close>, and the theorems show it is
  unreachable for well-formed lists.
\<close>

declare nat_uint_eq [simp del] \<comment> \<open>lengths stay \<open>nat (uint _)\<close>, which linear arithmetic can read\<close>

datatype 'e merge_error = BlobFailed bytes 'e | ExceedsBlob extent nat | SlicePanic

type_synonym ('e, 'a) outcome = "'e merge_error + 'a"

text \<open>\<^verbatim>\<open>xs[lo:hi]\<close> for integer bounds.\<close>

definition go_slice :: "'a list \<Rightarrow> int \<Rightarrow> int \<Rightarrow> 'a list option" where
  "go_slice xs lo hi =
     (if 0 \<le> lo \<and> lo \<le> hi \<and> hi \<le> int (length xs)
      then Some (take (nat (hi - lo)) (drop (nat lo) xs)) else None)"

text \<open>\<^verbatim>\<open>copy(dst[k:], src)\<close>: panics when \<open>k\<close> is out of range, else copies what fits.\<close>

definition go_copy_at :: "'a list \<Rightarrow> int \<Rightarrow> 'a list \<Rightarrow> 'a list option" where
  "go_copy_at dst k src =
     (if 0 \<le> k \<and> k \<le> int (length dst)
      then Some (take (nat k) dst @ take (length dst - nat k) src @ drop (nat k + length src) dst)
      else None)"

definition extentBytes :: "extent \<Rightarrow> bytes \<Rightarrow> ('e, bytes) outcome" where
  "extentBytes ext blob =
     (let lo = BlobOffset ext; hi = BlobOffset ext + Length ext
      in if int (length blob) < uint hi then Inl (ExceedsBlob ext (length blob))
         else case go_slice blob (uint lo) (uint hi) of
                None \<Rightarrow> Inl SlicePanic
              | Some b \<Rightarrow> Inr b)"

text \<open>
  The body of the loop of \<open>mergeExtents\<close>, after the test that leaves the loop: \<open>copy_window\<close> is its
  second half, which clips the extent's bytes to the window and copies them.
\<close>

definition copy_window :: "i64 \<Rightarrow> i64 \<Rightarrow> extent \<Rightarrow> bytes \<Rightarrow> bytes \<Rightarrow> ('e, bytes) outcome" where
  "copy_window off fin ext src dst =
     (let lo = (if FileOffset ext <s off then off - FileOffset ext else 0);
          hi0 = word_of_nat (length src);
          clipped = fin - FileOffset ext;
          hi = (if clipped <s hi0 then clipped else hi0)
      in if hi \<le>s lo then Inr dst
         else case go_slice src (sint lo) (sint hi) of
                None \<Rightarrow> Inl SlicePanic
              | Some part \<Rightarrow>
                  (case go_copy_at dst (sint (FileOffset ext + lo - off)) part of
                     None \<Rightarrow> Inl SlicePanic
                   | Some dst' \<Rightarrow> Inr dst'))"

definition merge_one ::
    "(bytes \<Rightarrow> 'e + bytes) \<Rightarrow> i64 \<Rightarrow> i64 \<Rightarrow> extent \<Rightarrow> bytes \<Rightarrow> ('e, bytes) outcome" where
  "merge_one get off fin ext dst =
     (if End ext \<le>s off then Inr dst
      else case get (BlobID ext) of
        Inl err \<Rightarrow> Inl (BlobFailed (BlobID ext) err)
      | Inr blob \<Rightarrow>
          (case extentBytes ext blob of
             Inl err \<Rightarrow> Inl err
           | Inr src \<Rightarrow> copy_window off fin ext src dst))"

fun merge_loop ::
    "(bytes \<Rightarrow> 'e + bytes) \<Rightarrow> i64 \<Rightarrow> i64 \<Rightarrow> extent list \<Rightarrow> bytes \<Rightarrow> ('e, bytes) outcome" where
  "merge_loop get off fin [] dst = Inr dst"
| "merge_loop get off fin (ext # exts) dst =
     (if fin \<le>s FileOffset ext then Inr dst
      else case merge_one get off fin ext dst of
             Inl err \<Rightarrow> Inl err
           | Inr dst' \<Rightarrow> merge_loop get off fin exts dst')"

definition mergeExtents ::
    "extent list \<Rightarrow> i64 \<Rightarrow> bytes \<Rightarrow> (bytes \<Rightarrow> 'e + bytes) \<Rightarrow> ('e, bytes) outcome" where
  "mergeExtents exts off dst get =
     merge_loop get off (off + word_of_nat (length dst)) exts dst"

section \<open>One extent\<close>

text \<open>An extent whose blob can be fetched and is long enough.\<close>

definition blob_ok :: "(bytes \<Rightarrow> 'e + bytes) \<Rightarrow> extent \<Rightarrow> bool" where
  "blob_ok get e \<longleftrightarrow>
     (case get (BlobID e) of
        Inl _ \<Rightarrow> False
      | Inr blob \<Rightarrow> uint (BlobOffset e) + uint (Length e) \<le> int (length blob))"

lemma extentBytes_ok:
  assumes "ext_ok e" and "uint (BlobOffset e) + uint (Length e) \<le> int (length blob)"
  shows "extentBytes e blob =
    Inr (take (nat (uint (Length e))) (drop (nat (uint (BlobOffset e))) blob))"
  using assms ext_okD(4) [OF assms(1)]
  by (simp add: extentBytes_def go_slice_def uint_plus Let_def)

text \<open>A window \<open>[off, off + n)\<close> whose bounds fit an \<^verbatim>\<open>int64\<close>.\<close>

definition window_ok :: "i64 \<Rightarrow> nat \<Rightarrow> bool" where
  "window_ok off n \<longleftrightarrow> 0 \<le> sint off \<and> sint off + int n < 2 ^ 63"

lemma window_end: "window_ok off n \<Longrightarrow> sint (off + word_of_nat n) = sint off + int n"
  by (subst sint_plus) (auto simp: window_ok_def sint_word_of_nat)

text \<open>The byte an extent holds for file position \<open>i\<close>.\<close>

definition ext_byte :: "extent \<Rightarrow> bytes \<Rightarrow> int \<Rightarrow> char" where
  "ext_byte e blob i = blob ! nat (uint (BlobOffset e) + (i - ext_start e))"

lemma go_copy_at_length: "go_copy_at dst k part = Some d \<Longrightarrow> length d = length dst"
  by (auto simp: go_copy_at_def min_def split: if_splits)

lemma go_copy_at_nth:
  assumes "go_copy_at dst k part = Some d" and "j < length dst"
  shows "d ! j = (if nat k \<le> j \<and> j < nat k + length part then part ! (j - nat k) else dst ! j)"
  using assms by (auto simp: go_copy_at_def nth_append min_def split: if_splits)

text \<open>
  The window bounds of \<open>merge_one\<close> as integers: \<open>lo\<close> and \<open>hi\<close> delimit the part of the extent inside
  the window, and the copy lands where that part starts.
\<close>

lemma merge_bounds:
  assumes e: "ext_ok e" and w: "window_ok off n"
    and "ext_start e < sint off + int n" and "sint off < ext_stop e"
  defines "lo \<equiv> if FileOffset e <s off then off - FileOffset e else 0"
  shows "sint lo = max 0 (sint off - ext_start e)"
    and "sint (off + word_of_nat n - FileOffset e) = sint off + int n - ext_start e"
    and "sint (FileOffset e + lo - off) = max 0 (ext_start e - sint off)"
proof -
  note ok = ext_okD [OF e] w [unfolded window_ok_def]
  show lo: "sint lo = max 0 (sint off - ext_start e)"
    using ok by (auto simp: lo_def i64_arith sint_minus)
  show "sint (off + word_of_nat n - FileOffset e) = sint off + int n - ext_start e"
    using ok assms(3) by (subst sint_minus) (auto simp: window_end [OF w])
  have "sint (FileOffset e + lo) = max (ext_start e) (sint off)"
    using ok lo assms(3,4) by (subst sint_plus) auto
  then show "sint (FileOffset e + lo - off) = max 0 (ext_start e - sint off)"
    using ok assms(3,4) by (subst sint_minus) auto
qed

lemma copy_window_int:
  assumes "ext_ok e" and "window_ok off (length dst)"
    and "ext_start e < sint off + int (length dst)" and "sint off < ext_stop e"
    and "length src = nat (uint (Length e))"
  shows "copy_window off (off + word_of_nat (length dst)) e src dst =
    (let lo = max 0 (sint off - ext_start e);
         hi = min (uint (Length e)) (sint off + int (length dst) - ext_start e)
     in if hi \<le> lo then Inr dst
        else case go_slice src lo hi of
               None \<Rightarrow> Inl SlicePanic
             | Some part \<Rightarrow>
                 (case go_copy_at dst (max 0 (ext_start e - sint off)) part of
                    None \<Rightarrow> Inl SlicePanic | Some dst' \<Rightarrow> Inr dst'))"
proof -
  let ?c = "off + word_of_nat (length dst) - FileOffset e"
  note bnd = merge_bounds [OF assms(1-4)]
  have "word_of_nat (length src) = Length e" using assms(5) by simp
  then have hi: "sint (if ?c <s word_of_nat (length src) then ?c else word_of_nat (length src)) =
      min (uint (Length e)) (sint off + int (length dst) - ext_start e)"
    using bnd(2) by (simp add: word_sless_alt sint_Length [OF assms(1)])
  show ?thesis by (simp only: copy_window_def Let_def word_sle_eq hi bnd)
qed

text \<open>Copying an extent's bytes changes exactly the window positions the extent covers.\<close>

lemma copy_window_ok:
  assumes e: "ext_ok e" and w: "window_ok off (length dst)"
    and start: "ext_start e < sint off + int (length dst)" and stop: "sint off < ext_stop e"
    and len: "length src = nat (uint (Length e))"
  obtains d where "copy_window off (off + word_of_nat (length dst)) e src dst = Inr d"
    and "length d = length dst"
    and "\<And>j. j < length dst \<Longrightarrow> d ! j =
      (if covers e (sint off + int j) then src ! nat (sint off + int j - ext_start e) else dst ! j)"
proof -
  let ?lo = "max 0 (sint off - ext_start e)"
  let ?hi = "min (uint (Length e)) (sint off + int (length dst) - ext_start e)"
  let ?k = "max 0 (ext_start e - sint off)"
  show ?thesis
  proof (cases "?hi \<le> ?lo")
    case True
    then have "\<not> covers e (sint off + int j)" if "j < length dst" for j
      using that stop by (auto simp: covers_def)
    with True show ?thesis
      using copy_window_int [OF assms] by (intro that [of dst]) (simp_all add: Let_def)
  next
    case nonempty: False
    let ?part = "take (nat (?hi - ?lo)) (drop (nat ?lo) src)"
    have part: "go_slice src ?lo ?hi = Some ?part"
      using nonempty len by (auto simp: go_slice_def)
    have plen: "length ?part = nat (?hi - ?lo)" unfolding length_take length_drop len using nonempty by linarith
    obtain d where d: "go_copy_at dst ?k ?part = Some d"
      using start by (auto simp: go_copy_at_def)
    have nth: "d ! j = (if covers e (sint off + int j)
        then src ! nat (sint off + int j - ext_start e) else dst ! j)" if j: "j < length dst" for j
    proof -
      have "nat ?k \<le> j \<and> j < nat ?k + nat (?hi - ?lo) \<longleftrightarrow> covers e (sint off + int j)"
        using j nonempty stop start ext_okD(1) [OF e] by (auto simp: covers_def)
      moreover have "?part ! (j - nat ?k) = src ! nat (sint off + int j - ext_start e)"
        if c: "covers e (sint off + int j)"
      proof -
        have "nat ?lo + (j - nat ?k) = nat (sint off + int j - ext_start e)"
          and "j - nat ?k < nat (?hi - ?lo)" and "nat ?lo \<le> length src"
          using c j nonempty len by (auto simp: covers_def)
        then show ?thesis by simp
      qed
      ultimately show ?thesis
        using go_copy_at_nth [OF d j] unfolding plen by simp
    qed
    show ?thesis
    proof (rule that [OF _ _ nth])
      show "copy_window off (off + word_of_nat (length dst)) e src dst = Inr d"
        using copy_window_int [OF assms] nonempty part d by (simp add: Let_def)
      show "length d = length dst" using d by (rule go_copy_at_length)
    qed
  qed
qed

lemma merge_one_ok:
  fixes get :: "bytes \<Rightarrow> 'e + bytes"
  assumes e: "ext_ok e" and w: "window_ok off (length dst)"
    and start: "ext_start e < sint off + int (length dst)"
    and blob: "sint off < ext_stop e \<Longrightarrow> blob_ok get e"
  obtains d where "merge_one get off (off + word_of_nat (length dst)) e dst = Inr d"
    and "length d = length dst"
    and "\<And>j. j < length dst \<Longrightarrow> \<not> covers e (sint off + int j) \<Longrightarrow> d ! j = dst ! j"
    and "\<And>j. j < length dst \<Longrightarrow> covers e (sint off + int j) \<Longrightarrow>
      \<exists>b. get (BlobID e) = Inr b \<and> uint (BlobOffset e) + uint (Length e) \<le> int (length b) \<and>
        d ! j = ext_byte e b (sint off + int j)"
proof (cases "End e \<le>s off")
  case True
  then have "merge_one get off (off + word_of_nat (length dst)) e dst = Inr dst"
    by (simp add: merge_one_def)
  moreover have "\<not> covers e (sint off + int j)" for j
    using True e by (auto simp: i64_arith covers_def)
  ultimately show ?thesis using that by blast
next
  case False
  then have stop: "sint off < ext_stop e" using e by (simp add: i64_arith)
  then obtain b where b: "get (BlobID e) = Inr b"
      "uint (BlobOffset e) + uint (Length e) \<le> int (length b)"
    using blob by (auto simp: blob_ok_def split: sum.splits)
  let ?src = "take (nat (uint (Length e))) (drop (nat (uint (BlobOffset e))) b)"
  have bu: "nat (uint (BlobOffset e)) + nat (uint (Length e)) \<le> length b"
    using b(2) uint_range [of "BlobOffset e"] uint_range [of "Length e"] by linarith
  then have len: "length ?src = nat (uint (Length e))" by simp
  obtain d where d: "copy_window off (off + word_of_nat (length dst)) e ?src dst =
      (Inr d :: ('e, bytes) outcome)" and ld: "length d = length dst" and nth: "\<And>j. j < length dst \<Longrightarrow> d ! j =
      (if covers e (sint off + int j) then ?src ! nat (sint off + int j - ext_start e) else dst ! j)"
    using copy_window_ok [OF e w start stop len] by blast
  have "?src ! nat (i - ext_start e) = ext_byte e b i" if "covers e i" for i
  proof -
    have "nat (i - ext_start e) < nat (uint (Length e))" using that by (auto simp: covers_def)
    with bu that show ?thesis by (simp add: ext_byte_def covers_def nat_add_distrib)
  qed
  moreover have "merge_one get off (off + word_of_nat (length dst)) e dst = Inr d"
    using False b(1) d by (simp only: merge_one_def extentBytes_ok [OF e b(2)] sum.case if_False)
  ultimately show ?thesis using that ld nth b by simp
qed

section \<open>The whole list\<close>

lemma src_at_Cons:
  "src_at (e # es) i = (if covers e i then Some (ext_src e i) else src_at es i)"
  by (simp add: src_at_def)

lemma src_at_after:
  assumes "exts_wf (e # es)" and "covers e i"
  shows "src_at es i = None"
proof -
  have "\<not> covers x i" if "x \<in> set es" for x
    using assms that by (auto simp: exts_wf_Cons covers_def before_def)
  then have "find (\<lambda>x. covers x i) es = None" by (simp add: find_None_iff)
  then show ?thesis by (simp add: src_at_def)
qed

text \<open>The blobs a read of the window needs: those of the extents that meet it.\<close>

definition window_blobs_ok :: "(bytes \<Rightarrow> 'e + bytes) \<Rightarrow> extent list \<Rightarrow> i64 \<Rightarrow> nat \<Rightarrow> bool" where
  "window_blobs_ok get exts off n \<longleftrightarrow>
     (\<forall>e\<in>set exts. ext_start e < sint off + int n \<and> sint off < ext_stop e \<longrightarrow> blob_ok get e)"

text \<open>What the merged window shows at position \<open>i\<close>: the blob byte \<open>src_at\<close> names, else the old one.\<close>

definition shows_byte ::
    "(bytes \<Rightarrow> 'e + bytes) \<Rightarrow> extent list \<Rightarrow> int \<Rightarrow> char \<Rightarrow> char \<Rightarrow> bool" where
  "shows_byte get exts i old new \<longleftrightarrow>
     (case src_at exts i of
        None \<Rightarrow> new = old
      | Some (b, k) \<Rightarrow>
          (\<exists>blob. get b = Inr blob \<and> 0 \<le> k \<and> k < int (length blob) \<and> new = blob ! nat k))"

lemma merge_loop_ok:
  assumes "exts_wf exts" and "window_ok off (length dst)" and "window_blobs_ok get exts off (length dst)"
  shows "\<exists>d. merge_loop get off (off + word_of_nat (length dst)) exts dst = Inr d \<and>
    length d = length dst \<and>
    (\<forall>j < length dst. shows_byte get exts (sint off + int j) (dst ! j) (d ! j))"
  using assms
proof (induction exts arbitrary: dst)
  case Nil
  then show ?case by (auto simp: shows_byte_def src_at_def)
next
  case (Cons e es)
  have e: "ext_ok e" and es: "exts_wf es" and bef: "\<forall>x\<in>set es. before e x"
    using Cons.prems(1) by (simp_all add: exts_wf_Cons)
  show ?case
  proof (cases "off + word_of_nat (length dst) \<le>s FileOffset e")
    case True
    then have far: "sint off + int (length dst) \<le> ext_start e"
      by (simp add: word_sle_eq window_end [OF Cons.prems(2)])
    have "\<not> covers x (sint off + int j)" if "x \<in> set (e # es)" "j < length dst" for x j
      using that far bef ext_okD(2) [OF e] by (fastforce simp: covers_def before_def)
    then have "src_at (e # es) (sint off + int j) = None" if "j < length dst" for j
      using that by (fastforce simp: src_at_def find_None_iff)
    with True show ?thesis by (simp add: shows_byte_def)
  next
    case False
    then have start: "ext_start e < sint off + int (length dst)"
      by (simp add: word_sle_eq window_end [OF Cons.prems(2)])
    obtain d where d: "merge_one get off (off + word_of_nat (length dst)) e dst = Inr d"
      and len: "length d = length dst"
      and out: "\<And>j. j < length dst \<Longrightarrow> \<not> covers e (sint off + int j) \<Longrightarrow> d ! j = dst ! j"
      and ins: "\<And>j. j < length dst \<Longrightarrow> covers e (sint off + int j) \<Longrightarrow>
        \<exists>b. get (BlobID e) = Inr b \<and> uint (BlobOffset e) + uint (Length e) \<le> int (length b) \<and>
          d ! j = ext_byte e b (sint off + int j)"
      using merge_one_ok [OF e Cons.prems(2) start, of get] Cons.prems(3) start
      by (auto simp: window_blobs_ok_def)
    obtain r where r: "merge_loop get off (off + word_of_nat (length dst)) es d = Inr r"
      "length r = length dst"
      "\<And>j. j < length dst \<Longrightarrow> shows_byte get es (sint off + int j) (d ! j) (r ! j)"
      using Cons.IH [OF es, of d] Cons.prems(2,3) len by (auto simp: window_blobs_ok_def)
    have "shows_byte get (e # es) (sint off + int j) (dst ! j) (r ! j)" if j: "j < length dst" for j
    proof (cases "covers e (sint off + int j)")
      case True
      with r(3) [OF j] src_at_after [OF Cons.prems(1)] have "r ! j = d ! j"
        by (simp add: shows_byte_def)
      with ins [OF j True] True show ?thesis
        by (auto simp: shows_byte_def src_at_Cons ext_src_def ext_byte_def covers_def)
    next
      case out_e: False
      with r(3) [OF j] out [OF j] show ?thesis by (simp add: shows_byte_def src_at_Cons)
    qed
    with False d r show ?thesis by auto
  qed
qed

text \<open>
  C7. A read through a well-formed extent list succeeds whenever the blobs it touches can be fetched
  and are long enough: it never panics, keeps the window's length, and every byte is the blob byte
  \<open>src_at\<close> names for that file position, or the byte that was there (lower file or zero) where no
  extent covers it. In particular leaving the loop at the first extent past the window loses nothing.
\<close>

theorem mergeExtents_correct:
  assumes "exts_wf exts" and "window_ok off (length dst)" and "window_blobs_ok get exts off (length dst)"
  shows "\<exists>d. mergeExtents exts off dst get = Inr d \<and> length d = length dst \<and>
    (\<forall>j < length dst. shows_byte get exts (sint off + int j) (dst ! j) (d ! j))"
  using merge_loop_ok [OF assms] by (simp add: mergeExtents_def)

definition sample_get :: "bytes \<Rightarrow> unit + bytes" where
  "sample_get b = (if b = ''a'' then Inr ''0123456789'' else if b = ''b'' then Inr ''wxyz'' else Inl ())"

theorem mergeExtents_correct_witness:
  "\<exists>d. mergeExtents [sample_new] 2 ''......'' sample_get = Inr d \<and> d ! 1 = CHR ''w'' \<and> d ! 5 = CHR ''.''"
proof -
  have w: "exts_wf [sample_new]" using sample_ok(3) by (simp add: exts_wf_def)
  have o: "window_ok 2 (length ''......'')" by (simp add: window_ok_def)
  have b: "window_blobs_ok sample_get [sample_new] 2 (length ''......'')"
    by (simp add: window_blobs_ok_def blob_ok_def sample_get_def sample_new_def)
  from mergeExtents_correct [OF w o b] obtain d where
    d: "mergeExtents [sample_new] 2 ''......'' sample_get = Inr d"
      "\<forall>j < 6. shows_byte sample_get [sample_new] (2 + int j) (''......'' ! j) (d ! j)"
    by auto
  have "shows_byte sample_get [sample_new] (2 + int 1) (''......'' ! 1) (d ! 1)"
    by (rule d(2) [rule_format]) simp
  moreover have "shows_byte sample_get [sample_new] (2 + int 5) (''......'' ! 5) (d ! 5)"
    by (rule d(2) [rule_format]) simp
  ultimately show ?thesis using d(1)
    by (simp add: shows_byte_def src_at_def covers_def ext_src_def sample_new_def sample_get_def)
qed

end
