(* ===== verification/Events.thy ===== *)
theory Events
  imports Kf_Prelude
begin

text \<open>
  The events of a session's log: the message types of \<^verbatim>\<open>api/kfusev1/events.pb.go\<close> as records, their
  \<^verbatim>\<open>oneof\<close> as the datatype \<open>event_op\<close>, and the two functions of \<^verbatim>\<open>api/kfusev1/envelope.go\<close>.
  An optional proto3 field is an \<open>option\<close>; an envelope with no operation set has \<open>Op = None\<close>.
  \<open>Unlink\<close> and \<open>Rmdir\<close> carry a path only, so their constructors take it directly.
\<close>

record lineage =
  ParentSessionId :: string
  ParentOffset :: i64

record session_start =
  ss_LowerId :: string
  ss_Lineage :: "lineage option"

record create_msg =
  cr_Path :: path
  cr_Mode :: u32
  cr_Uid :: u32
  cr_Gid :: u32

record write_msg =
  wr_Path :: path
  wr_Offset :: i64
  wr_Length :: u64
  wr_BlobId :: bytes
  wr_BlobOffset :: u64
  wr_Eof :: bool
  wr_Mode :: u32
  wr_Fallthrough :: bool
  wr_Uid :: u32
  wr_Gid :: u32

record mkdir_msg =
  mk_Path :: path
  mk_Mode :: u32
  mk_Uid :: u32
  mk_Gid :: u32

record symlink_msg =
  sy_Path :: path
  sy_Target :: string
  sy_Uid :: u32
  sy_Gid :: u32

record rename_msg =
  rn_From :: path
  rn_To :: path
  rn_FromLower :: bool

record setattr_msg =
  sa_Path :: path
  sa_Mode :: "u32 option"
  sa_Uid :: "u32 option"
  sa_Gid :: "u32 option"
  sa_AtimeNs :: "i64 option"
  sa_MtimeNs :: "i64 option"
  sa_Size :: "u64 option"

datatype event_op =
    SessionStart session_start
  | Create create_msg
  | Write write_msg
  | Unlink path
  | Rmdir path
  | Mkdir mkdir_msg
  | Rename rename_msg
  | Symlink symlink_msg
  | Setattr setattr_msg

record envelope =
  Seq :: u64
  UnixMicros :: i64
  SessionId :: string
  LowerId :: string
  Op :: "event_op option"

fun OpName :: "event_op option \<Rightarrow> string" where
  "OpName (Some (SessionStart _)) = ''session_start''"
| "OpName (Some (Create _)) = ''create''"
| "OpName (Some (Write _)) = ''write''"
| "OpName (Some (Unlink _)) = ''unlink''"
| "OpName (Some (Mkdir _)) = ''mkdir''"
| "OpName (Some (Rmdir _)) = ''rmdir''"
| "OpName (Some (Rename _)) = ''rename''"
| "OpName (Some (Symlink _)) = ''symlink''"
| "OpName (Some (Setattr _)) = ''setattr''"
| "OpName None = ''unknown''"

text \<open>\<^verbatim>\<open>time.Now().UnixMicro()\<close> is the argument \<open>now\<close>.\<close>

definition NewEnvelope :: "i64 \<Rightarrow> string \<Rightarrow> string \<Rightarrow> event_op \<Rightarrow> envelope" where
  "NewEnvelope now sessionID lowerID op =
     \<lparr>Seq = 0, UnixMicros = now, SessionId = sessionID, LowerId = lowerID, Op = Some op\<rparr>"

lemma NewEnvelope_simps [simp]:
  "Seq (NewEnvelope now sid lid op) = 0" "SessionId (NewEnvelope now sid lid op) = sid"
  "LowerId (NewEnvelope now sid lid op) = lid" "Op (NewEnvelope now sid lid op) = Some op"
  by (simp_all add: NewEnvelope_def)

text \<open>The paths an event names, in the order the code checks them.\<close>

fun op_paths :: "event_op \<Rightarrow> path list" where
  "op_paths (SessionStart _) = []"
| "op_paths (Create c) = [cr_Path c]"
| "op_paths (Write w) = [wr_Path w]"
| "op_paths (Unlink p) = [p]"
| "op_paths (Rmdir p) = [p]"
| "op_paths (Mkdir m) = [mk_Path m]"
| "op_paths (Rename r) = [rn_From r, rn_To r]"
| "op_paths (Symlink s) = [sy_Path s]"
| "op_paths (Setattr s) = [sa_Path s]"

end
