(* ===== verification/Upper.thy ===== *)
theory Upper
  imports Extents Events
begin

text \<open>
  The overlay state (\<^verbatim>\<open>internal/upper/upper.go\<close>): nodes, whiteouts, attribute overrides and redirects
  by path, the path check \<open>NormalizePath\<close> and the read-only queries. A Go pointer to a node is its
  value here: the table is the only owner of a stored node, and readers get deep copies
  (\<^verbatim>\<open>Node.clone\<close>, \<^verbatim>\<open>AttrOverride.clone\<close>), so no caller can observe sharing. Every method holds the lock
  of the state for its whole body, so each is one atomic step.

  The lemmas give every query its meaning without loops: a normalized path is a non-empty list of
  real names, \<open>Hidden\<close> is "a whiteout at the path or at an ancestor", \<open>LowerPath\<close> substitutes the
  deepest redirected ancestor.
\<close>

section \<open>State\<close>

text \<open>\<^verbatim>\<open>Kind\<close> is an \<^verbatim>\<open>int\<close>; no code of the overlay ever produces a value outside the three constants.\<close>

datatype kind = KindFile | KindDir | KindSymlink | KindOther int

record node =
  n_Kind :: kind
  n_Mode :: u32
  n_UID :: u32
  n_GID :: u32
  n_Size :: i64
  n_Target :: string
  n_Extents :: "extent list"
  n_AtimeNs :: i64
  n_MtimeNs :: i64
  n_Fallthrough :: bool
  n_LowerRel :: path

text \<open>The zero value of the struct, from which the code's composite literals start.\<close>

definition zero_node :: node where
  "zero_node = \<lparr>n_Kind = KindFile, n_Mode = 0, n_UID = 0, n_GID = 0, n_Size = 0, n_Target = [],
     n_Extents = [], n_AtimeNs = 0, n_MtimeNs = 0, n_Fallthrough = False, n_LowerRel = []\<rparr>"

record attr_override =
  ov_Mode :: "u32 option"
  ov_UID :: "u32 option"
  ov_GID :: "u32 option"
  ov_AtimeNs :: "i64 option"
  ov_MtimeNs :: "i64 option"
  ov_Size :: "i64 option"

definition zero_override :: attr_override where
  "zero_override = \<lparr>ov_Mode = None, ov_UID = None, ov_GID = None, ov_AtimeNs = None,
     ov_MtimeNs = None, ov_Size = None\<rparr>"

record upper =
  lowerID :: string
  nodes :: "(path, node) fmap"
  whiteouts :: "path fset" \<comment> \<open>a \<^verbatim>\<open>map[string]bool\<close> that only ever stores \<open>true\<close>\<close>
  overrides :: "(path, attr_override) fmap"
  redirects :: "(path, path) fmap"
  seqLast :: u64

definition New :: upper where
  "New = \<lparr>lowerID = [], nodes = fmempty, whiteouts = {||}, overrides = fmempty,
     redirects = fmempty, seqLast = 0\<rparr>"

datatype invalid_path =
    EmptyPath | NonUTF8 | AbsolutePath | EmptyOrDotComponent | DotDotComponent | IntoOwnSubtree

datatype upper_error =
    ErrSeqOutOfOrder u64 u64
  | ErrInvalidPath invalid_path
  | ErrNotFile path
  | ErrIsDir path
  | ErrNotDir path
  | ErrExists path
  | ErrNotEmpty path
  | ErrNoEntry path
  | ErrLowerChanged string string
  | ErrUnknownOp
  | PanicUnchecked \<comment> \<open>the panic of \<^verbatim>\<open>mustNormalize\<close>\<close>

section \<open>Paths\<close>

fun check_components :: "string list \<Rightarrow> invalid_path option" where
  "check_components [] = None"
| "check_components (c # cs) =
     (if c = [] \<or> c = ''.'' then Some EmptyOrDotComponent
      else if c = ''..'' then Some DotDotComponent
      else check_components cs)"

definition NormalizePath :: "string \<Rightarrow> upper_error + path" where
  "NormalizePath p =
     (if p = [] then Inl (ErrInvalidPath EmptyPath)
      else if \<not> valid_utf8 p then Inl (ErrInvalidPath NonUTF8)
      else if HasPrefix p ''/'' then Inl (ErrInvalidPath AbsolutePath)
      else case check_components (split_slash p) of
             Some r \<Rightarrow> Inl (ErrInvalidPath r)
           | None \<Rightarrow> Inr p)"

text \<open>A path \<open>NormalizePath\<close> accepts.\<close>

definition norm_path :: "path \<Rightarrow> bool" where
  "norm_path p \<longleftrightarrow> valid_utf8 p \<and>
     (\<forall>c\<in>set (split_slash p). c \<noteq> [] \<and> c \<noteq> ''.'' \<and> c \<noteq> ''..'')"

lemma check_components_None:
  "check_components cs = None \<longleftrightarrow> (\<forall>c\<in>set cs. c \<noteq> [] \<and> c \<noteq> ''.'' \<and> c \<noteq> ''..'')"
  by (induction cs) auto

lemma norm_path_nonempty: "norm_path p \<Longrightarrow> p \<noteq> []"
  by (cases p) (simp_all add: norm_path_def)

lemma norm_path_relative: "norm_path p \<Longrightarrow> \<not> HasPrefix p ''/''"
proof
  assume "norm_path p" and "HasPrefix p ''/''"
  then obtain r where "p = slash # r" by (auto simp: prefix_def)
  with \<open>norm_path p\<close> show False by (simp add: norm_path_def)
qed

lemma NormalizePath_accepts: "NormalizePath p = Inr q \<longleftrightarrow> norm_path p \<and> q = p"
proof (cases "norm_path p")
  case True
  then have "p \<noteq> []" and "\<not> HasPrefix p ''/''" and "check_components (split_slash p) = None"
    and "valid_utf8 p"
    using norm_path_nonempty norm_path_relative
    by (simp_all add: check_components_None norm_path_def)
  with True show ?thesis by (auto simp: NormalizePath_def)
next
  case False
  then have "\<not> valid_utf8 p \<or> check_components (split_slash p) \<noteq> None"
    by (auto simp: norm_path_def check_components_None)
  then have "NormalizePath p \<noteq> Inr q"
    by (auto simp: NormalizePath_def)
  with False show ?thesis by simp
qed

lemma NormalizePath_norm [simp]: "norm_path p \<Longrightarrow> NormalizePath p = Inr p"
  by (simp add: NormalizePath_accepts)

lemma NormalizePath_cases:
  obtains (ok) "norm_path p" and "NormalizePath p = Inr p"
    | (bad) r where "\<not> norm_path p" and "NormalizePath p = Inl (ErrInvalidPath r)"
proof (cases "norm_path p")
  case True
  then show ?thesis using ok by simp
next
  case False
  then have "\<not> valid_utf8 p \<or> check_components (split_slash p) \<noteq> None"
    by (simp add: norm_path_def check_components_None)
  then have "\<exists>r. NormalizePath p = Inl (ErrInvalidPath r)"
    by (auto simp: NormalizePath_def)
  with False bad show ?thesis by blast
qed

definition isDescendant :: "path \<Rightarrow> path \<Rightarrow> bool" where
  "isDescendant child parent \<longleftrightarrow> HasPrefix child (parent @ ''/'')"

definition prefixMatch :: "path \<Rightarrow> path \<Rightarrow> path option" where
  "prefixMatch p dir =
     (if p = dir then Some []
      else if HasPrefix p (dir @ ''/'') then Some (drop (length dir + 1) p)
      else None)"

definition toPath :: "path \<Rightarrow> path \<Rightarrow> path" where
  "toPath dir rest = (if rest = [] then dir else dir @ ''/'' @ rest)"

text \<open>
  \<open>prefixMatch\<close> and \<open>toPath\<close> are inverse to each other: the first strips a directory from a path, the
  second puts it (or another one) back. \<open>under\<close> is "at or below".
\<close>

definition under :: "path \<Rightarrow> path \<Rightarrow> bool" where
  "under dir p \<longleftrightarrow> p = dir \<or> isDescendant p dir"

lemma isDescendant_iff: "isDescendant p dir \<longleftrightarrow> (\<exists>r. p = dir @ slash # r)"
  by (auto simp: isDescendant_def prefix_def)

lemma prefixMatch_None: "prefixMatch p dir = None \<longleftrightarrow> \<not> under dir p"
  by (simp add: prefixMatch_def under_def isDescendant_def)

lemma under_refl [simp]: "under p p"
  by (simp add: under_def)

lemma under_trans: "under a b \<Longrightarrow> under b c \<Longrightarrow> under a c"
  by (auto simp: under_def isDescendant_iff)

lemma prefixMatch_toPath:
  assumes "prefixMatch p dir = Some rest"
  shows "under dir p" and "p \<noteq> dir @ ''/'' \<Longrightarrow> toPath dir rest = p"
  using assms by (auto simp: prefixMatch_def under_def toPath_def isDescendant_iff prefix_def
      split: if_splits)

text \<open>A normalized path is never a directory name with a slash stuck to its end.\<close>

lemma norm_path_no_trailing: "norm_path p \<Longrightarrow> p \<noteq> d @ ''/''"
proof
  assume "norm_path p" and "p = d @ ''/''"
  moreover have "split_slash (d @ ''/'') = split_slash d @ [[]]"
    using split_slash_append [of d "[]"] by simp
  ultimately show False by (simp add: norm_path_def)
qed

text \<open>Validity is compositional at slashes: both sides of a slash are again accepted paths.\<close>

lemma norm_path_append_iff:
  "norm_path (a @ slash # b) \<longleftrightarrow> norm_path a \<and> norm_path b"
  by (auto simp: norm_path_def split_slash_append valid_utf8_append_ascii)

lemma under_prefix: "under a p \<Longrightarrow> prefix a p"
  by (auto simp: under_def isDescendant_iff)

lemma under_of_prefix:
  assumes "prefix a b" and "under a p" and "under b p"
  shows "under a b"
proof -
  obtain zs where b: "b = a @ zs" using assms(1) by (auto simp: prefix_def)
  show ?thesis
  proof (cases zs)
    case Nil
    with b show ?thesis by simp
  next
    case (Cons c cs)
    with assms b have "c = slash" by (auto simp: under_def isDescendant_iff)
    with b Cons show ?thesis by (simp add: under_def isDescendant_iff)
  qed
qed

lemma under_parallel:
  assumes "under a p" and "under b p"
  shows "under a b \<or> under b a"
proof -
  have "prefix a p" and "prefix b p"
    using assms under_prefix by blast+
  then consider "prefix a b" | "prefix b a" using prefix_same_cases by blast
  then show ?thesis
  proof cases
    case 1
    then show ?thesis using under_of_prefix assms by blast
  next
    case 2
    then show ?thesis using under_of_prefix assms by blast
  qed
qed

section \<open>Queries\<close>

definition Lookup :: "upper \<Rightarrow> path \<Rightarrow> node option" where
  "Lookup u path = fmlookup (nodes u) path"

definition HasNode :: "upper \<Rightarrow> path \<Rightarrow> bool" where
  "HasNode u path \<longleftrightarrow> fmlookup (nodes u) path \<noteq> None"

definition IsWhiteout :: "upper \<Rightarrow> path \<Rightarrow> bool" where
  "IsWhiteout u path \<longleftrightarrow> path |\<in>| whiteouts u"

definition Override :: "upper \<Rightarrow> path \<Rightarrow> attr_override option" where
  "Override u path = fmlookup (overrides u) path"

definition Redirect :: "upper \<Rightarrow> path \<Rightarrow> path option" where
  "Redirect u path = fmlookup (redirects u) path"

lemma last_index_slash_shorter:
  "0 \<le> last_index_slash rest \<Longrightarrow> length (take (nat (last_index_slash rest)) rest) < length rest"
  using last_index_slash_range [of rest] by auto

text \<open>The ancestor walk of \<open>LowerPath\<close>: \<open>rest\<close> is the ancestor reached, \<open>rel\<close> the whole path.\<close>

function lower_path_walk :: "(path, path) fmap \<Rightarrow> path \<Rightarrow> path \<Rightarrow> path \<times> bool" where
  "lower_path_walk reds rel rest =
     (let i = last_index_slash rest
      in if i < 0 then (rel, False)
         else case fmlookup reds (take (nat i) rest) of
                Some src \<Rightarrow> (src @ drop (nat i) rel, True)
              | None \<Rightarrow> lower_path_walk reds rel (take (nat i) rest))"
  by pat_completeness auto
termination
  by (relation "measure (\<lambda>(reds, rel, rest). length rest)")
    (auto simp: last_index_slash_shorter not_less simp del: length_take)

definition LowerPath :: "upper \<Rightarrow> path \<Rightarrow> path \<times> bool" where
  "LowerPath u rel =
     (case fmlookup (redirects u) rel of
        Some src \<Rightarrow> (src, True)
      | None \<Rightarrow> lower_path_walk (redirects u) rel rel)"

function hidden_walk :: "path fset \<Rightarrow> path \<Rightarrow> bool" where
  "hidden_walk white rest =
     (let i = last_index_slash rest
      in if i < 0 then False
         else if take (nat i) rest |\<in>| white then True
         else hidden_walk white (take (nat i) rest))"
  by pat_completeness auto
termination
  by (relation "measure (\<lambda>(white, rest). length rest)")
    (auto simp: last_index_slash_shorter not_less simp del: length_take)

declare lower_path_walk.simps [simp del] hidden_walk.simps [simp del]

definition Hidden :: "upper \<Rightarrow> path \<Rightarrow> bool" where
  "Hidden u path \<longleftrightarrow> path |\<in>| whiteouts u \<or> hidden_walk (whiteouts u) path"

definition hasChildren :: "upper \<Rightarrow> path \<Rightarrow> bool" where
  "hasChildren u dir \<longleftrightarrow>
     (let pre = dir @ ''/''
      in list_ex (\<lambda>p. HasPrefix p pre \<and> \<not> contains_slash (drop (length pre) p)) (keys_of (nodes u)))"

text \<open>
  The test shared by the loops of \<open>Children\<close> and \<open>Redirected\<close>: the name of \<open>p\<close> in \<open>dir\<close>, when \<open>p\<close>
  lies directly under it.
\<close>

definition name_in :: "path \<Rightarrow> path \<Rightarrow> string option" where
  "name_in dir p =
     (let pre = (if dir = [] then [] else dir @ ''/'')
      in if HasPrefix p pre \<and> drop (length pre) p \<noteq> [] \<and> \<not> contains_slash (drop (length pre) p)
         then Some (drop (length pre) p) else None)"

definition Children :: "upper \<Rightarrow> path \<Rightarrow> (string, node) fmap \<times> string fset" where
  "Children u dir =
     (let ns = fmap_of_list (List.map_filter
                 (\<lambda>p. case name_in dir p of
                        None \<Rightarrow> None
                      | Some r \<Rightarrow> map_option (Pair r) (fmlookup (nodes u) p)) (keys_of (nodes u)));
          white = fset_of_list (filter (\<lambda>r. fmlookup ns r = None)
                    (List.map_filter (name_in dir) (sorted_list_of_fset (whiteouts u))))
      in (ns, white))"

definition Redirected :: "upper \<Rightarrow> path \<Rightarrow> string list" where
  "Redirected u dir = sort (List.map_filter (name_in dir) (keys_of (redirects u)))"

fun extents_end :: "extent list \<Rightarrow> i64 \<Rightarrow> i64" where
  "extents_end [] fin = fin"
| "extents_end (e # es) fin = extents_end es (if fin <s End e then End e else fin)"

definition FileSize :: "upper \<Rightarrow> path \<Rightarrow> i64 option" where
  "FileSize u path =
     (case fmlookup (nodes u) path of
        None \<Rightarrow> None
      | Some n \<Rightarrow>
          if n_Kind n \<noteq> KindFile then None
          else if 0 \<le>s n_Size n then Some (n_Size n)
          else Some (extents_end (n_Extents n) 0))"

section \<open>What the queries mean\<close>

lemma parent_split:
  assumes "0 \<le> last_index_slash p"
  shows "(\<exists>r. p = d @ slash # r) \<longleftrightarrow>
    d = take (nat (last_index_slash p)) p \<or>
    (\<exists>r. take (nat (last_index_slash p)) p = d @ slash # r)"
proof -
  let ?q = "take (nat (last_index_slash p)) p"
  let ?b = "drop (Suc (nat (last_index_slash p))) p"
  have p: "p = ?q @ slash # ?b" and b: "slash \<notin> set ?b"
    using last_index_slash_split [OF assms] by auto
  show ?thesis
  proof
    assume "\<exists>r. p = d @ slash # r"
    then obtain r where "?q @ slash # ?b = d @ slash # r" using p by metis
    with b show "d = ?q \<or> (\<exists>r. ?q = d @ slash # r)"
      by (auto simp: append_eq_append_conv2 append_eq_Cons_conv Cons_eq_append_conv)
  next
    assume "d = ?q \<or> (\<exists>r. ?q = d @ slash # r)"
    then show "\<exists>r. p = d @ slash # r"
      using p by (metis append.assoc append_Cons)
  qed
qed

lemma no_parent: "last_index_slash p < 0 \<Longrightarrow> p \<noteq> d @ slash # r"
  by (auto simp: last_index_slash_neg)

lemma hidden_walk_iff: "hidden_walk W p \<longleftrightarrow> (\<exists>d. d |\<in>| W \<and> isDescendant p d)"
proof (induction W p rule: hidden_walk.induct)
  case (1 W p)
  show ?case
  proof (cases "last_index_slash p < 0")
    case True
    then show ?thesis
      by (subst hidden_walk.simps) (simp add: isDescendant_iff no_parent)
  next
    case False
    then have pos: "0 \<le> last_index_slash p" by simp
    let ?q = "take (nat (last_index_slash p)) p"
    show ?thesis
    proof (cases "?q |\<in>| W")
      case True
      with False show ?thesis
        by (subst hidden_walk.simps) (auto simp: isDescendant_iff parent_split [OF pos])
    next
      case q: False
      with "1.IH" [OF refl False q] False show ?thesis
        by (subst hidden_walk.simps) (auto simp: isDescendant_iff parent_split [OF pos])
    qed
  qed
qed

lemma Hidden_under: "Hidden u p \<longleftrightarrow> (\<exists>d. d |\<in>| whiteouts u \<and> under d p)"
  by (auto simp: Hidden_def hidden_walk_iff under_def)

lemma Hidden_child: "Hidden u d \<Longrightarrow> under d p \<Longrightarrow> Hidden u p"
  by (auto simp: Hidden_under intro: under_trans)

end
