(* ===== verification/Upper_Apply.thy ===== *)
theory Upper_Apply
  imports Upper
begin

text \<open>
  The transition function of the overlay (\<^verbatim>\<open>internal/upper/apply.go\<close> and \<^verbatim>\<open>internal/upper/check.go\<close>):
  \<open>checkLocked\<close> with its helpers, \<open>Apply\<close> with one definition per kind of event, and \<open>Replay\<close>.
  A Go error is the left side of a sum; the panic of \<open>mustNormalize\<close> is the error \<open>PanicUnchecked\<close>,
  and \<open>Apply_outcome\<close> shows that no event reaches it.

  The loops of the rename helpers run over a snapshot of a map's keys. They are recursions over a
  key list here, and every lemma about them holds for any list that enumerates the keys once, so the
  iteration order Go leaves open never matters.
\<close>

unbundle bit_operations_syntax

section \<open>Preconditions\<close>

definition subtreePresent :: "upper \<Rightarrow> path \<Rightarrow> bool" where
  "subtreePresent u dir \<longleftrightarrow>
     list_ex (\<lambda>p. prefixMatch p dir \<noteq> None) (keys_of (nodes u)) \<or>
     list_ex (\<lambda>p. prefixMatch p dir \<noteq> None) (keys_of (redirects u))"

definition checkFresh :: "upper \<Rightarrow> string \<Rightarrow> upper_error option" where
  "checkFresh u p =
     (case NormalizePath p of
        Inl err \<Rightarrow> Some err
      | Inr path \<Rightarrow> if fmlookup (nodes u) path \<noteq> None then Some (ErrExists path) else None)"

definition checkRename :: "upper \<Rightarrow> rename_msg \<Rightarrow> upper_error option" where
  "checkRename u r =
     (case NormalizePath (rn_From r) of
        Inl err \<Rightarrow> Some err
      | Inr from \<Rightarrow>
          (case NormalizePath (rn_To r) of
             Inl err \<Rightarrow> Some err
           | Inr to \<Rightarrow>
               if from = to then None
               else if isDescendant to from then Some (ErrInvalidPath IntoOwnSubtree)
               else if \<not> subtreePresent u from \<and> \<not> rn_FromLower r then Some (ErrNoEntry from)
               else None))"

text \<open>The four remaining branches of the switch of \<open>checkLocked\<close>.\<close>

definition check_write :: "upper \<Rightarrow> write_msg \<Rightarrow> upper_error option" where
  "check_write u w =
     (case NormalizePath (wr_Path w) of
        Inl err \<Rightarrow> Some err
      | Inr path \<Rightarrow>
          (case fmlookup (nodes u) path of
             Some n \<Rightarrow> if n_Kind n \<noteq> KindFile then Some (ErrNotFile path) else None
           | None \<Rightarrow> None))"

definition check_unlink :: "upper \<Rightarrow> string \<Rightarrow> upper_error option" where
  "check_unlink u p =
     (case NormalizePath p of
        Inl err \<Rightarrow> Some err
      | Inr path \<Rightarrow>
          (case fmlookup (nodes u) path of
             Some n \<Rightarrow> if n_Kind n = KindDir then Some (ErrIsDir path) else None
           | None \<Rightarrow> None))"

definition check_rmdir :: "upper \<Rightarrow> string \<Rightarrow> upper_error option" where
  "check_rmdir u p =
     (case NormalizePath p of
        Inl err \<Rightarrow> Some err
      | Inr path \<Rightarrow>
          (case fmlookup (nodes u) path of
             Some n \<Rightarrow>
               if n_Kind n \<noteq> KindDir then Some (ErrNotDir path)
               else if hasChildren u path then Some (ErrNotEmpty path)
               else None
           | None \<Rightarrow> None))"

definition check_setattr :: "upper \<Rightarrow> setattr_msg \<Rightarrow> upper_error option" where
  "check_setattr u sa =
     (case NormalizePath (sa_Path sa) of
        Inl err \<Rightarrow> Some err
      | Inr path \<Rightarrow>
          (case fmlookup (nodes u) path of
             Some n \<Rightarrow> if sa_Size sa \<noteq> None \<and> n_Kind n \<noteq> KindFile then Some (ErrNotFile path) else None
           | None \<Rightarrow> None))"

definition checkLocked :: "upper \<Rightarrow> envelope \<Rightarrow> upper_error option" where
  "checkLocked u ev =
     (if LowerId ev \<noteq> [] \<and> lowerID u \<noteq> [] \<and> lowerID u \<noteq> LowerId ev
      then Some (ErrLowerChanged (lowerID u) (LowerId ev))
      else case Op ev of
        Some (SessionStart _) \<Rightarrow> None
      | Some (Create c) \<Rightarrow> checkFresh u (cr_Path c)
      | Some (Mkdir m) \<Rightarrow> checkFresh u (mk_Path m)
      | Some (Symlink s) \<Rightarrow> checkFresh u (sy_Path s)
      | Some (Write w) \<Rightarrow> check_write u w
      | Some (Unlink p) \<Rightarrow> check_unlink u p
      | Some (Rmdir p) \<Rightarrow> check_rmdir u p
      | Some (Rename r) \<Rightarrow> checkRename u r
      | Some (Setattr sa) \<Rightarrow> check_setattr u sa
      | None \<Rightarrow> Some ErrUnknownOp)"

definition Check :: "upper \<Rightarrow> envelope \<Rightarrow> upper_error option" where
  "Check u ev = checkLocked u ev"

section \<open>Attributes\<close>

definition perm_bits :: "u32 \<Rightarrow> u32" where
  "perm_bits m = m AND 4095" \<comment> \<open>\<^verbatim>\<open>m & 0o7777\<close>\<close>

definition or_else :: "'a option \<Rightarrow> 'a \<Rightarrow> 'a" where
  "or_else x d = (case x of None \<Rightarrow> d | Some v \<Rightarrow> v)"

definition absorb_attrs :: "attr_override \<Rightarrow> node \<Rightarrow> node" where
  "absorb_attrs ov n = n\<lparr>
     n_Mode := or_else (ov_Mode ov) (n_Mode n),
     n_UID := or_else (ov_UID ov) (n_UID n),
     n_GID := or_else (ov_GID ov) (n_GID n),
     n_AtimeNs := or_else (ov_AtimeNs ov) (n_AtimeNs n),
     n_MtimeNs := or_else (ov_MtimeNs ov) (n_MtimeNs n)\<rparr>"

definition absorbOverride :: "upper \<Rightarrow> path \<Rightarrow> node \<Rightarrow> upper \<times> node" where
  "absorbOverride u path n =
     (case fmlookup (overrides u) path of
        None \<Rightarrow> (u, n)
      | Some ov \<Rightarrow> (u\<lparr>overrides := fmdrop path (overrides u)\<rparr>, absorb_attrs ov n))"

text \<open>The five field updates that both node branches of \<open>applySetattr\<close> perform.\<close>

definition set_attrs :: "setattr_msg \<Rightarrow> node \<Rightarrow> node" where
  "set_attrs sa n = n\<lparr>
     n_Mode := or_else (map_option perm_bits (sa_Mode sa)) (n_Mode n),
     n_UID := or_else (sa_Uid sa) (n_UID n),
     n_GID := or_else (sa_Gid sa) (n_GID n),
     n_AtimeNs := or_else (sa_AtimeNs sa) (n_AtimeNs n),
     n_MtimeNs := or_else (sa_MtimeNs sa) (n_MtimeNs n)\<rparr>"

definition first_of :: "'a option \<Rightarrow> 'a option \<Rightarrow> 'a option" where
  "first_of x y = (case x of None \<Rightarrow> y | Some v \<Rightarrow> Some v)"

definition set_override :: "setattr_msg \<Rightarrow> attr_override \<Rightarrow> attr_override" where
  "set_override sa ov = ov\<lparr>
     ov_Mode := first_of (map_option perm_bits (sa_Mode sa)) (ov_Mode ov),
     ov_UID := first_of (sa_Uid sa) (ov_UID ov),
     ov_GID := first_of (sa_Gid sa) (ov_GID ov),
     ov_AtimeNs := first_of (sa_AtimeNs sa) (ov_AtimeNs ov),
     ov_MtimeNs := first_of (sa_MtimeNs sa) (ov_MtimeNs ov)\<rparr>"

section \<open>Mutations\<close>

definition mustNormalize :: "string \<Rightarrow> upper_error + path" where
  "mustNormalize p = (case NormalizePath p of Inl _ \<Rightarrow> Inl PanicUnchecked | Inr path \<Rightarrow> Inr path)"

definition put_node :: "path \<Rightarrow> node \<Rightarrow> upper \<Rightarrow> upper" where
  "put_node path n u = u\<lparr>nodes := fmupd path n (nodes u)\<rparr>"

text \<open>The shared body of the \<open>Unlink\<close> and \<open>Rmdir\<close> branches.\<close>

definition remove_entry :: "path \<Rightarrow> upper \<Rightarrow> upper" where
  "remove_entry path u =
     (if fmlookup (nodes u) path \<noteq> None then u\<lparr>nodes := fmdrop path (nodes u)\<rparr>
      else u\<lparr>whiteouts := finsert path (whiteouts u)\<rparr>)"

text \<open>The node a write starts from, with the overrides it absorbed removed from the state.\<close>

definition write_target :: "upper \<Rightarrow> write_msg \<Rightarrow> path \<Rightarrow> upper \<times> node" where
  "write_target u w path =
     (case fmlookup (nodes u) path of
        Some n \<Rightarrow> (u, n)
      | None \<Rightarrow>
          let n = zero_node\<lparr>n_Kind := KindFile, n_Mode := wr_Mode w, n_Size := 0\<rparr>
          in if wr_Fallthrough w
             then absorbOverride u path
                    (n\<lparr>n_Size := - 1, n_Fallthrough := True, n_LowerRel := path,
                       n_UID := wr_Uid w, n_GID := wr_Gid w\<rparr>)
             else (u, n))"

definition write_extents :: "write_msg \<Rightarrow> node \<Rightarrow> node" where
  "write_extents w n =
     (if 0 < wr_Length w
      then n\<lparr>n_Extents := insertExtent (n_Extents n)
               \<lparr>FileOffset = wr_Offset w, Length = wr_Length w,
                BlobID = wr_BlobId w, BlobOffset = wr_BlobOffset w\<rparr>\<rparr>
      else n)"

definition write_size :: "write_msg \<Rightarrow> node \<Rightarrow> node" where
  "write_size w n =
     (let fin = wr_Offset w + wr_Length w
      in if wr_Eof w then n\<lparr>n_Size := fin, n_Extents := clipExtents (n_Extents n) fin\<rparr>
         else if \<not> n_Fallthrough n \<and> n_Size n <s fin then n\<lparr>n_Size := fin\<rparr>
         else n)"

definition apply_write :: "write_msg \<Rightarrow> path \<Rightarrow> upper \<Rightarrow> upper" where
  "apply_write w path u =
     (case write_target u w path of
        (u', n) \<Rightarrow> put_node path (write_size w (write_extents w n)) u')"

definition applySetattr :: "setattr_msg \<Rightarrow> upper \<Rightarrow> upper_error + upper" where
  "applySetattr sa u =
     (case mustNormalize (sa_Path sa) of
        Inl err \<Rightarrow> Inl err
      | Inr path \<Rightarrow> Inr
          (case fmlookup (nodes u) path of
             Some n \<Rightarrow>
               let n1 = set_attrs sa n
               in put_node path
                    (case sa_Size sa of
                       None \<Rightarrow> n1
                     | Some s \<Rightarrow> n1\<lparr>n_Size := s, n_Extents := clipExtents (n_Extents n1) s\<rparr>) u
           | None \<Rightarrow>
               (case sa_Size sa of
                  Some s \<Rightarrow>
                    let n = zero_node\<lparr>n_Kind := KindFile, n_Mode := 420, n_Size := s,
                              n_Fallthrough := True, n_LowerRel := path\<rparr>
                    in (case absorbOverride u path n of
                          (u', n') \<Rightarrow> put_node path (set_attrs sa n') u')
                | None \<Rightarrow>
                    u\<lparr>overrides := fmupd path
                        (set_override sa (or_else (fmlookup (overrides u) path) zero_override))
                        (overrides u)\<rparr>)))"

text \<open>
  The rename helpers. \<open>ks\<close> is the snapshot of the keys. Go reads \<^verbatim>\<open>m[p]\<close> before the assignment; a key
  of the snapshot is still present when its turn comes, so the \<open>None\<close> branch is never taken.
\<close>

fun move_keys :: "path \<Rightarrow> path \<Rightarrow> path list \<Rightarrow> (path, 'v) fmap \<Rightarrow> (path, 'v) fmap" where
  "move_keys from to [] m = m"
| "move_keys from to (p # ks) m =
     (case prefixMatch p from of
        None \<Rightarrow> move_keys from to ks m
      | Some rest \<Rightarrow>
          (case fmlookup m p of
             None \<Rightarrow> move_keys from to ks m
           | Some v \<Rightarrow> move_keys from to ks (fmdrop p (fmupd (toPath to rest) v m))))"

fun move_white :: "path \<Rightarrow> path \<Rightarrow> path list \<Rightarrow> path fset \<Rightarrow> path fset" where
  "move_white from to [] W = W"
| "move_white from to (p # ks) W =
     (case prefixMatch p from of
        None \<Rightarrow> move_white from to ks W
      | Some rest \<Rightarrow>
          if rest \<noteq> [] then move_white from to ks (finsert (toPath to rest) (W |-| {|p|}))
          else move_white from to ks W)"

fun delete_keys :: "path \<Rightarrow> path list \<Rightarrow> (path, 'v) fmap \<Rightarrow> (path, 'v) fmap" where
  "delete_keys to [] m = m"
| "delete_keys to (p # ks) m =
     (if prefixMatch p to \<noteq> None then delete_keys to ks (fmdrop p m) else delete_keys to ks m)"

fun delete_white :: "path \<Rightarrow> path list \<Rightarrow> path fset \<Rightarrow> path fset" where
  "delete_white to [] W = W"
| "delete_white to (p # ks) W =
     (if prefixMatch p to \<noteq> None then delete_white to ks (W |-| {|p|}) else delete_white to ks W)"

definition moveNodes :: "path \<Rightarrow> path \<Rightarrow> upper \<Rightarrow> upper" where
  "moveNodes from to u = u\<lparr>nodes := move_keys from to (keys_of (nodes u)) (nodes u)\<rparr>"

definition moveRedirects :: "path \<Rightarrow> path \<Rightarrow> upper \<Rightarrow> upper" where
  "moveRedirects from to u = u\<lparr>redirects := move_keys from to (keys_of (redirects u)) (redirects u)\<rparr>"

definition moveWhiteouts :: "path \<Rightarrow> path \<Rightarrow> upper \<Rightarrow> upper" where
  "moveWhiteouts from to u =
     u\<lparr>whiteouts := move_white from to (sorted_list_of_fset (whiteouts u)) (whiteouts u)\<rparr>"

definition moveOverrides :: "path \<Rightarrow> path \<Rightarrow> upper \<Rightarrow> upper" where
  "moveOverrides from to u = u\<lparr>overrides := move_keys from to (keys_of (overrides u)) (overrides u)\<rparr>"

definition moveSubtree :: "path \<Rightarrow> path \<Rightarrow> upper \<Rightarrow> upper" where
  "moveSubtree from to u =
     moveOverrides from to (moveWhiteouts from to (moveRedirects from to (moveNodes from to u)))"

definition deleteSubtree :: "path \<Rightarrow> upper \<Rightarrow> upper" where
  "deleteSubtree to u = u\<lparr>
     nodes := delete_keys to (keys_of (nodes u)) (nodes u),
     redirects := delete_keys to (keys_of (redirects u)) (redirects u),
     whiteouts := delete_white to (sorted_list_of_fset (whiteouts u)) (whiteouts u),
     overrides := delete_keys to (keys_of (overrides u)) (overrides u)\<rparr>"

definition rename_paths :: "path \<Rightarrow> path \<Rightarrow> bool \<Rightarrow> upper \<Rightarrow> upper" where
  "rename_paths from to fromLower u =
     (if from = to then u
      else
        let u1 = deleteSubtree to u;
            hasUpper = subtreePresent u1 from;
            u2 = (if hasUpper then moveSubtree from to u1 else u1);
            u3 = (if fromLower then u2\<lparr>whiteouts := finsert from (whiteouts u2)\<rparr> else u2)
        in if \<not> hasUpper
           then (let u4 = moveOverrides from to (moveWhiteouts from to u3)
                 in u4\<lparr>redirects := fmupd to from (redirects u4)\<rparr>)
           else u3)"

definition applyRename :: "rename_msg \<Rightarrow> upper \<Rightarrow> upper_error + upper" where
  "applyRename r u =
     (case mustNormalize (rn_From r) of
        Inl err \<Rightarrow> Inl err
      | Inr from \<Rightarrow>
          (case mustNormalize (rn_To r) of
             Inl err \<Rightarrow> Inl err
           | Inr to \<Rightarrow> Inr (rename_paths from to (rn_FromLower r) u)))"

text \<open>The switch of \<open>Apply\<close>.\<close>

definition with_path :: "string \<Rightarrow> (path \<Rightarrow> upper) \<Rightarrow> upper_error + upper" where
  "with_path p f = (case mustNormalize p of Inl err \<Rightarrow> Inl err | Inr path \<Rightarrow> Inr (f path))"

definition apply_op :: "event_op option \<Rightarrow> upper \<Rightarrow> upper_error + upper" where
  "apply_op op u =
     (case op of
        None \<Rightarrow> Inr u
      | Some (SessionStart _) \<Rightarrow> Inr u
      | Some (Create c) \<Rightarrow> with_path (cr_Path c) (\<lambda>path. put_node path
          (zero_node\<lparr>n_Kind := KindFile, n_Mode := cr_Mode c, n_UID := cr_Uid c,
             n_GID := cr_Gid c, n_Size := 0\<rparr>) u)
      | Some (Write w) \<Rightarrow> with_path (wr_Path w) (\<lambda>path. apply_write w path u)
      | Some (Unlink p) \<Rightarrow> with_path p (\<lambda>path. remove_entry path u)
      | Some (Mkdir m) \<Rightarrow> with_path (mk_Path m) (\<lambda>path. put_node path
          (zero_node\<lparr>n_Kind := KindDir, n_Mode := mk_Mode m, n_UID := mk_Uid m,
             n_GID := mk_Gid m\<rparr>) u)
      | Some (Rmdir p) \<Rightarrow> with_path p (\<lambda>path. remove_entry path u)
      | Some (Symlink s) \<Rightarrow> with_path (sy_Path s) (\<lambda>path. put_node path
          (zero_node\<lparr>n_Kind := KindSymlink, n_Mode := 511, n_Target := sy_Target s,
             n_UID := sy_Uid s, n_GID := sy_Gid s\<rparr>) u)
      | Some (Rename r) \<Rightarrow> applyRename r u
      | Some (Setattr sa) \<Rightarrow> applySetattr sa u)"

definition Apply :: "upper \<Rightarrow> envelope \<Rightarrow> upper_error + upper" where
  "Apply u ev =
     (if Seq ev \<le> seqLast u then Inl (ErrSeqOutOfOrder (Seq ev) (seqLast u))
      else case checkLocked u ev of
        Some err \<Rightarrow> Inl err
      | None \<Rightarrow>
          let u1 = (if LowerId ev \<noteq> [] then u\<lparr>lowerID := LowerId ev\<rparr> else u)
          in (case apply_op (Op ev) u1 of
                Inl err \<Rightarrow> Inl err
              | Inr u2 \<Rightarrow> Inr (u2\<lparr>seqLast := Seq ev\<rparr>)))"

fun replay_from :: "upper \<Rightarrow> envelope list \<Rightarrow> upper_error + upper" where
  "replay_from u [] = Inr u"
| "replay_from u (ev # evs) =
     (case Apply u ev of Inl err \<Rightarrow> Inl err | Inr u' \<Rightarrow> replay_from u' evs)"

definition Replay :: "envelope list \<Rightarrow> upper_error + upper" where
  "Replay events = replay_from New events"

section \<open>Check decides Apply\<close>

lemma mustNormalize_iff: "mustNormalize p = (if norm_path p then Inr p else Inl PanicUnchecked)"
  by (cases p rule: NormalizePath_cases) (simp_all add: mustNormalize_def)

lemma checkFresh_None: "checkFresh u p = None \<longleftrightarrow> norm_path p \<and> fmlookup (nodes u) p = None"
  by (cases p rule: NormalizePath_cases) (simp_all add: checkFresh_def)

lemma check_write_None:
  "check_write u w = None \<longleftrightarrow>
     norm_path (wr_Path w) \<and> (\<forall>n. fmlookup (nodes u) (wr_Path w) = Some n \<longrightarrow> n_Kind n = KindFile)"
  by (cases "wr_Path w" rule: NormalizePath_cases) (auto simp: check_write_def split: option.splits)

lemma check_unlink_None:
  "check_unlink u p = None \<longleftrightarrow>
     norm_path p \<and> (\<forall>n. fmlookup (nodes u) p = Some n \<longrightarrow> n_Kind n \<noteq> KindDir)"
  by (cases p rule: NormalizePath_cases) (auto simp: check_unlink_def split: option.splits)

lemma check_rmdir_None:
  "check_rmdir u p = None \<longleftrightarrow>
     norm_path p \<and>
     (\<forall>n. fmlookup (nodes u) p = Some n \<longrightarrow> n_Kind n = KindDir \<and> \<not> hasChildren u p)"
  by (cases p rule: NormalizePath_cases) (auto simp: check_rmdir_def split: option.splits)

lemma check_setattr_None:
  "check_setattr u sa = None \<longleftrightarrow>
     norm_path (sa_Path sa) \<and>
     (\<forall>n. fmlookup (nodes u) (sa_Path sa) = Some n \<longrightarrow> sa_Size sa = None \<or> n_Kind n = KindFile)"
  by (cases "sa_Path sa" rule: NormalizePath_cases)
    (auto simp: check_setattr_def split: option.splits)

lemma checkRename_None:
  "checkRename u r = None \<longleftrightarrow>
     norm_path (rn_From r) \<and> norm_path (rn_To r) \<and>
     (rn_From r = rn_To r \<or>
      \<not> isDescendant (rn_To r) (rn_From r) \<and> (subtreePresent u (rn_From r) \<or> rn_FromLower r))"
  by (cases "rn_From r" rule: NormalizePath_cases; cases "rn_To r" rule: NormalizePath_cases)
    (auto simp: checkRename_def)

lemmas check_None = checkFresh_None check_write_None check_unlink_None check_rmdir_None
  check_setattr_None checkRename_None

lemma checkLocked_paths:
  "checkLocked u ev = None \<Longrightarrow> \<exists>op. Op ev = Some op \<and> (\<forall>p\<in>set (op_paths op). norm_path p)"
  by (auto simp: checkLocked_def check_None split: if_splits option.splits event_op.splits)

lemma apply_op_total:
  "\<forall>p\<in>set (op_paths op). norm_path p \<Longrightarrow> \<exists>u'. apply_op (Some op) u = Inr u'"
  by (cases op) (simp_all add: apply_op_def with_path_def applyRename_def applySetattr_def
      mustNormalize_iff)

lemma Apply_outcome:
  "Apply u ev =
     (if Seq ev \<le> seqLast u then Inl (ErrSeqOutOfOrder (Seq ev) (seqLast u))
      else case Check u ev of
        Some err \<Rightarrow> Inl err
      | None \<Rightarrow>
          Inr ((projr (apply_op (Op ev) (if LowerId ev \<noteq> [] then u\<lparr>lowerID := LowerId ev\<rparr> else u)))
                 \<lparr>seqLast := Seq ev\<rparr>))"
proof (cases "checkLocked u ev")
  case None
  then obtain op where "Op ev = Some op" "\<forall>p\<in>set (op_paths op). norm_path p"
    using checkLocked_paths by blast
  then show ?thesis
    using None apply_op_total [of op "if LowerId ev \<noteq> [] then u\<lparr>lowerID := LowerId ev\<rparr> else u"]
    by (auto simp: Apply_def Check_def)
next
  case (Some err)
  then show ?thesis by (simp add: Apply_def Check_def)
qed

end
