(* ===== verification/Upper_Rename.thy ===== *)
theory Upper_Rename
  imports Upper_Apply
begin

text \<open>
  What a rename does, without loops. \<open>renamed from to m\<close> is the reference definition: the table \<open>m\<close>
  with the subtree at \<open>from\<close> put in place of the subtree at \<open>to\<close>. The lemmas show that the snapshot
  loops of \<^verbatim>\<open>apply.go\<close> compute it, for every order in which Go may enumerate the keys.
\<close>

section \<open>Moving a path from one directory to another\<close>

definition swap :: "path \<Rightarrow> path \<Rightarrow> path \<Rightarrow> path" where
  "swap from to p = to @ drop (length from) p"

definition renamed :: "path \<Rightarrow> path \<Rightarrow> (path \<Rightarrow> 'v option) \<Rightarrow> path \<Rightarrow> 'v option" where
  "renamed from to m q =
     (if under to q then m (swap to from q) else if under from q then None else m q)"

definition apart :: "path \<Rightarrow> path \<Rightarrow> bool" where
  "apart from to \<longleftrightarrow> \<not> under from to \<and> \<not> under to from"

lemma swap_under [simp]: "under from p \<Longrightarrow> under to (swap from to p)"
  by (auto simp: under_def swap_def isDescendant_iff)

lemma swap_swap [simp]: "under from p \<Longrightarrow> swap to from (swap from to p) = p"
  by (auto simp: under_def swap_def isDescendant_iff)

lemma swap_self [simp]: "swap from to from = to"
  by (simp add: swap_def)

lemma apart_disjoint: "apart from to \<Longrightarrow> under to q \<Longrightarrow> \<not> under from q"
  using under_parallel by (auto simp: apart_def)

lemma prefixMatch_Some:
  assumes "p \<noteq> from @ ''/''"
  shows "prefixMatch p from = Some rest \<Longrightarrow> toPath to rest = swap from to p"
    and "prefixMatch p from = None \<longleftrightarrow> \<not> under from p"
    and "prefixMatch p from = Some [] \<longleftrightarrow> p = from"
  using assms
  by (auto simp: prefixMatch_def toPath_def swap_def under_def isDescendant_def prefix_def
      split: if_splits)

lemma prefixMatch_cases:
  assumes "p \<noteq> from @ ''/''"
  obtains (out) "\<not> under from p" "prefixMatch p from = None"
    | (at) "p = from" "prefixMatch p from = Some []"
    | (below) rest where "under from p" "p \<noteq> from" "rest \<noteq> []" "prefixMatch p from = Some rest"
        "\<And>to. toPath to rest = swap from to p"
proof (cases "prefixMatch p from")
  case None
  with prefixMatch_Some [OF assms] out show ?thesis by blast
next
  case (Some rest)
  show ?thesis
  proof (cases "rest = []")
    case True
    with Some prefixMatch_Some(3) [OF assms] at show ?thesis by auto
  next
    case False
    then show ?thesis
      using below [of rest] Some prefixMatch_Some [OF assms] by (metis option.distinct(1) option.inject)
  qed
qed

lemma swap_inj_to: "under from p \<Longrightarrow> under to q \<Longrightarrow> swap to from q = p \<longleftrightarrow> q = swap from to p"
  by (metis swap_swap)

section \<open>The loops\<close>

lemma move_keys_lookup:
  assumes "apart from to" and "distinct ks" and "set ks \<subseteq> fmdom' m"
    and "\<And>p. p \<in> set ks \<Longrightarrow> p \<noteq> from @ ''/''"
  shows "fmlookup (move_keys from to ks m) q =
    (if under to q \<and> swap to from q \<in> set ks then fmlookup m (swap to from q)
     else if under from q \<and> q \<in> set ks then None else fmlookup m q)"
  using assms(2-4)
proof (induction ks arbitrary: m)
  case Nil
  then show ?case by simp
next
  case (Cons p ks)
  note disj = apart_disjoint [OF assms(1)]
  from Cons.prems obtain v where v: "fmlookup m p = Some v" by (auto simp: fmlookup_dom'_iff)
  have p: "p \<noteq> from @ ''/''" using Cons.prems by simp
  show ?case
  proof (cases "under from p")
    case False
    with prefixMatch_Some(2) [OF p] have "prefixMatch p from = None" by blast
    moreover have "under to q \<Longrightarrow> swap to from q \<noteq> p" using False by (metis swap_under)
    ultimately show ?thesis using Cons False by (auto simp: disj)
  next
    case True
    then obtain rest where rest: "prefixMatch p from = Some rest" "toPath to rest = swap from to p"
      using prefixMatch_Some(1,2) [OF p] by blast
    let ?t = "swap from to p"
    let ?m = "fmdrop p (fmupd ?t v m)"
    have t: "under to ?t" "\<not> under from ?t" using True disj by auto
    have sub: "set ks \<subseteq> fmdom' ?m" using Cons.prems by auto
    have IH: "fmlookup (move_keys from to ks ?m) q =
      (if under to q \<and> swap to from q \<in> set ks then fmlookup ?m (swap to from q)
       else if under from q \<and> q \<in> set ks then None else fmlookup ?m q)"
      using Cons.IH [of ?m] Cons.prems sub by simp
    have step: "move_keys from to (p # ks) m = move_keys from to ks ?m"
      using rest v by simp
    have look: "fmlookup ?m q = (if q = p then None else if q = ?t then Some v else fmlookup m q)" for q
      by simp
    consider "q = ?t" | "q \<noteq> ?t" "under to q" | "\<not> under to q" by blast
    then show ?thesis
    proof cases
      case 1
      then show ?thesis unfolding step IH look using t v True Cons.prems(1) by auto
    next
      case 2
      then have "swap to from q \<noteq> p" and "\<not> under from q" and "under from (swap to from q)"
        using True disj by (auto simp: swap_inj_to)
      moreover from this(3) t(2) have "swap to from q \<noteq> ?t" by metis
      ultimately show ?thesis unfolding step IH look using 2 t True by auto
    next
      case 3
      with t(1) have "q \<noteq> ?t" by metis
      with 3 show ?thesis unfolding step IH look using True by auto
    qed
  qed
qed

lemma move_white_mem:
  assumes "apart from to" and "distinct ks" and "set ks \<subseteq> fset W"
    and "\<And>p. p \<in> set ks \<Longrightarrow> p \<noteq> from @ ''/''"
  shows "q |\<in>| move_white from to ks W \<longleftrightarrow>
    (if under to q \<and> q \<noteq> to \<and> swap to from q \<in> set ks then True
     else if under from q \<and> q \<noteq> from \<and> q \<in> set ks then False else q |\<in>| W)"
  using assms(2-4)
proof (induction ks arbitrary: W)
  case Nil
  then show ?case by simp
next
  case (Cons p ks)
  note disj = apart_disjoint [OF assms(1)]
  have p: "p \<noteq> from @ ''/''" using Cons.prems by simp
  show ?case
  proof (cases "under from p \<and> p \<noteq> from")
    case False
    have eq: "move_white from to (p # ks) W = move_white from to ks W"
      using False by (cases rule: prefixMatch_cases [OF p]) auto
    have "under to q \<and> q \<noteq> to \<Longrightarrow> swap to from q \<noteq> p"
      using False by (metis swap_under swap_swap swap_self)
    then show ?thesis using Cons.IH [of W] Cons.prems False unfolding eq by auto
  next
    case True
    then have u: "under from p" and ne: "p \<noteq> from" by auto
    let ?t = "swap from to p"
    let ?W = "finsert ?t (W |-| {|p|})"
    have t: "under to ?t" "\<not> under from ?t" "?t \<noteq> to"
      using u ne disj by (auto, metis swap_self swap_swap)
    have step: "move_white from to (p # ks) W = move_white from to ks ?W"
      using u ne by (cases rule: prefixMatch_cases [OF p]) auto
    have IH: "q |\<in>| move_white from to ks ?W \<longleftrightarrow>
      (if under to q \<and> q \<noteq> to \<and> swap to from q \<in> set ks then True
       else if under from q \<and> q \<noteq> from \<and> q \<in> set ks then False else q |\<in>| ?W)"
      by (rule Cons.IH) (use Cons.prems in auto)
    consider "q = ?t" | "q \<noteq> ?t" "under to q" | "\<not> under to q" by blast
    then show ?thesis
    proof cases
      case 1
      then show ?thesis unfolding step IH using t u by auto
    next
      case 2
      then have "swap to from q \<noteq> p" and "\<not> under from q"
        using u disj by (auto simp: swap_inj_to)
      then show ?thesis unfolding step IH using 2 u by auto
    next
      case 3
      with t(1) have "q \<noteq> ?t" by metis
      with 3 show ?thesis unfolding step IH using u ne by auto
    qed
  qed
qed

lemma delete_keys_lookup:
  "fmlookup (delete_keys to ks m) q = (if q \<in> set ks \<and> under to q then None else fmlookup m q)"
  by (induction ks arbitrary: m) (auto simp: prefixMatch_None)

lemma delete_white_mem:
  "q |\<in>| delete_white to ks W \<longleftrightarrow> q |\<in>| W \<and> \<not> (q \<in> set ks \<and> under to q)"
  by (induction ks arbitrary: W) (auto simp: prefixMatch_None)

lemma delete_all_keys:
  "set ks = fmdom' m \<Longrightarrow> fmlookup (delete_keys to ks m) q = (if under to q then None else fmlookup m q)"
  by (auto simp: delete_keys_lookup fmlookup_dom'_iff)

lemma delete_all_white:
  "set ks = fset W \<Longrightarrow> q |\<in>| delete_white to ks W \<longleftrightarrow> q |\<in>| W \<and> \<not> under to q"
  by (auto simp: delete_white_mem)

text \<open>Deleting the destination and then moving the source onto it, over any enumerations of the keys.\<close>

lemma rename_keys:
  assumes "apart from to" and "set ks = fmdom' m" and "distinct ks'"
    and "set ks' = fmdom' (delete_keys to ks m)" and "\<And>p. p \<in> fmdom' m \<Longrightarrow> p \<noteq> from @ ''/''"
  shows "fmlookup (move_keys from to ks' (delete_keys to ks m)) q = renamed from to (fmlookup m) q"
proof -
  note del = delete_all_keys [OF assms(2), of to]
  have keys: "p \<noteq> from @ ''/''" if "p \<in> set ks'" for p
    using that assms(4,5) del by (force simp: fmlookup_dom'_iff split: if_splits)
  have mv: "fmlookup (move_keys from to ks' (delete_keys to ks m)) q =
    (if under to q \<and> swap to from q \<in> set ks' then fmlookup (delete_keys to ks m) (swap to from q)
     else if under from q \<and> q \<in> set ks' then None else fmlookup (delete_keys to ks m) q)"
    using move_keys_lookup [OF assms(1,3), of "delete_keys to ks m"] assms(4) keys by blast
  show ?thesis
  proof (cases "under to q")
    case True
    then have "\<not> under to (swap to from q)" "\<not> under from q"
      using apart_disjoint assms(1) by (metis swap_under)+
    then show ?thesis using True mv
      by (auto simp: renamed_def del assms(4) fmlookup_dom'_iff split: if_splits)
  next
    case False
    then show ?thesis using mv
      by (auto simp: renamed_def del assms(4) fmlookup_dom'_iff split: if_splits)
  qed
qed

lemma move_all_white:
  assumes "apart from to" and "distinct ks" and "set ks = fset W"
    and "\<And>p. p |\<in>| W \<Longrightarrow> p \<noteq> from @ ''/''" and "\<And>p. p |\<in>| W \<Longrightarrow> \<not> under to p"
  shows "q |\<in>| move_white from to ks W \<longleftrightarrow>
    (if under to q then q \<noteq> to \<and> swap to from q |\<in>| W
     else if under from q then q = from \<and> q |\<in>| W else q |\<in>| W)"
proof -
  have sub: "set ks \<subseteq> fset W" "\<And>p. p \<in> set ks \<Longrightarrow> p \<noteq> from @ ''/''" using assms(3,4) by auto
  show ?thesis
    using move_white_mem [OF assms(1,2) sub, of q] assms(3)
    by (cases "under to q"; cases "under from q"; cases "q |\<in>| W") (auto simp: assms(5))
qed

section \<open>The whole rename\<close>

definition keys_norm :: "upper \<Rightarrow> bool" where
  "keys_norm u \<longleftrightarrow>
     (\<forall>p. p \<in> fmdom' (nodes u) \<or> p |\<in>| whiteouts u \<or> p \<in> fmdom' (overrides u) \<or>
          p \<in> fmdom' (redirects u) \<longrightarrow> norm_path p)"

lemma keys_normD:
  assumes "keys_norm u"
  shows "p \<in> fmdom' (nodes u) \<Longrightarrow> norm_path p" "p |\<in>| whiteouts u \<Longrightarrow> norm_path p"
    "p \<in> fmdom' (overrides u) \<Longrightarrow> norm_path p" "p \<in> fmdom' (redirects u) \<Longrightarrow> norm_path p"
  using assms by (auto simp: keys_norm_def)

lemma keys_norm_no_trailing:
  assumes "keys_norm u"
  shows "p \<in> fmdom' (nodes u) \<Longrightarrow> p \<noteq> d @ ''/''" "p |\<in>| whiteouts u \<Longrightarrow> p \<noteq> d @ ''/''"
    "p \<in> fmdom' (overrides u) \<Longrightarrow> p \<noteq> d @ ''/''" "p \<in> fmdom' (redirects u) \<Longrightarrow> p \<noteq> d @ ''/''"
  using assms norm_path_no_trailing unfolding keys_norm_def by blast+

lemma subtreePresent_iff:
  "subtreePresent u dir \<longleftrightarrow>
     (\<exists>p. under dir p \<and> (fmlookup (nodes u) p \<noteq> None \<or> fmlookup (redirects u) p \<noteq> None))"
  unfolding subtreePresent_def list_ex_iff set_keys_of prefixMatch_None
  by (auto simp: fmlookup_dom'_iff)

lemma deleteSubtree_simps [simp]:
  "lowerID (deleteSubtree to u) = lowerID u" "seqLast (deleteSubtree to u) = seqLast u"
  "fmlookup (nodes (deleteSubtree to u)) q = (if under to q then None else fmlookup (nodes u) q)"
  "fmlookup (redirects (deleteSubtree to u)) q = (if under to q then None else fmlookup (redirects u) q)"
  "fmlookup (overrides (deleteSubtree to u)) q = (if under to q then None else fmlookup (overrides u) q)"
  "q |\<in>| whiteouts (deleteSubtree to u) \<longleftrightarrow> q |\<in>| whiteouts u \<and> \<not> under to q"
  by (simp_all add: deleteSubtree_def delete_all_keys delete_all_white)

lemma deleteSubtree_present:
  assumes "apart from to"
  shows "subtreePresent (deleteSubtree to u) from = subtreePresent u from"
proof -
  have "under from p \<Longrightarrow> \<not> under to p" for p
    using apart_disjoint [OF assms] by blast
  then show ?thesis unfolding subtreePresent_iff by auto
qed

text \<open>One table after \<open>deleteSubtree\<close> and the matching move.\<close>

lemma rename_tables:
  assumes "apart from to" and "keys_norm u"
  defines "v \<equiv> deleteSubtree to u"
  shows "fmlookup (move_keys from to (keys_of (nodes v)) (nodes v)) q = renamed from to (fmlookup (nodes u)) q"
    and "fmlookup (move_keys from to (keys_of (redirects v)) (redirects v)) q =
      renamed from to (fmlookup (redirects u)) q"
    and "fmlookup (move_keys from to (keys_of (overrides v)) (overrides v)) q =
      renamed from to (fmlookup (overrides u)) q"
proof -
  note kn = keys_norm_no_trailing [OF assms(2)]
  show "fmlookup (move_keys from to (keys_of (nodes v)) (nodes v)) q =
      renamed from to (fmlookup (nodes u)) q"
    unfolding v_def deleteSubtree_def by (simp, intro rename_keys [OF assms(1)]) (simp_all add: kn(1))
  show "fmlookup (move_keys from to (keys_of (redirects v)) (redirects v)) q =
      renamed from to (fmlookup (redirects u)) q"
    unfolding v_def deleteSubtree_def by (simp, intro rename_keys [OF assms(1)]) (simp_all add: kn(4))
  show "fmlookup (move_keys from to (keys_of (overrides v)) (overrides v)) q =
      renamed from to (fmlookup (overrides u)) q"
    unfolding v_def deleteSubtree_def by (simp, intro rename_keys [OF assms(1)]) (simp_all add: kn(3))
qed

lemma rename_paths_nodes:
  assumes "apart from to" and "keys_norm u"
  shows "fmlookup (nodes (rename_paths from to fl u)) q = renamed from to (fmlookup (nodes u)) q"
    and "fmlookup (overrides (rename_paths from to fl u)) q = renamed from to (fmlookup (overrides u)) q"
    and "fmlookup (redirects (rename_paths from to fl u)) q =
      (if \<not> subtreePresent u from \<and> q = to then Some from
       else renamed from to (fmlookup (redirects u)) q)"
proof -
  note tabs = rename_tables [OF assms]
  note present = deleteSubtree_present [OF assms(1), of u]
  have ne: "from \<noteq> to" using assms(1) by (auto simp: apart_def)
  have absent: "\<not> subtreePresent u from \<Longrightarrow> under from p \<Longrightarrow>
      fmlookup (nodes u) p = None \<and> fmlookup (redirects u) p = None" for p
    by (auto simp: subtreePresent_iff)
  show "fmlookup (nodes (rename_paths from to fl u)) q = renamed from to (fmlookup (nodes u)) q"
    using ne tabs(1) absent
    by (auto simp: rename_paths_def Let_def present moveSubtree_def moveNodes_def moveRedirects_def
        moveWhiteouts_def moveOverrides_def renamed_def)
  show "fmlookup (overrides (rename_paths from to fl u)) q = renamed from to (fmlookup (overrides u)) q"
    using ne tabs(3)
    by (simp add: rename_paths_def Let_def present moveSubtree_def moveNodes_def moveRedirects_def
        moveWhiteouts_def moveOverrides_def)
  show "fmlookup (redirects (rename_paths from to fl u)) q =
      (if \<not> subtreePresent u from \<and> q = to then Some from
       else renamed from to (fmlookup (redirects u)) q)"
    using ne tabs(2) absent
    by (auto simp: rename_paths_def Let_def present moveSubtree_def moveNodes_def moveRedirects_def
        moveWhiteouts_def moveOverrides_def renamed_def)
qed

lemma rename_paths_whiteouts:
  assumes "apart from to" and "keys_norm u" and "norm_path from"
  shows "q |\<in>| whiteouts (rename_paths from to fl u) \<longleftrightarrow>
    (if under to q then q \<noteq> to \<and> swap to from q |\<in>| whiteouts u
     else if under from q then q = from \<and> (fl \<or> q |\<in>| whiteouts u) else q |\<in>| whiteouts u)"
proof -
  note present = deleteSubtree_present [OF assms(1), of u]
  have ne: "from \<noteq> to" using assms(1) by (auto simp: apart_def)
  let ?v = "deleteSubtree to u"
  have white: "from @ ''/'' |\<notin>| whiteouts u"
    using keys_norm_no_trailing(2) [OF assms(2)] by blast
  have fr: "from \<noteq> from @ ''/''" "\<not> under to from" using assms(1) by (auto simp: apart_def)
  have mv: "q |\<in>| move_white from to (sorted_list_of_fset W) W \<longleftrightarrow>
    (if under to q then q \<noteq> to \<and> swap to from q |\<in>| W
     else if under from q then q = from \<and> q |\<in>| W else q |\<in>| W)"
    if "W = whiteouts ?v \<or> W = finsert from (whiteouts ?v)" for W
    by (rule move_all_white [OF assms(1)]) (use that white fr in auto)
  have sw: "under to q \<Longrightarrow> \<not> under to (swap to from q)"
    using apart_disjoint [OF assms(1)] by (metis swap_under)
  have sw2: "under to q \<Longrightarrow> swap to from q = from \<Longrightarrow> q = to"
    by (simp add: swap_inj_to [OF under_refl])
  show ?thesis
    using ne fr(2) sw2 mv [OF disjI1 [OF refl]] mv [OF disjI2 [OF refl]] sw
    by (auto simp: rename_paths_def Let_def present moveSubtree_def moveNodes_def moveRedirects_def
        moveWhiteouts_def moveOverrides_def)
qed

end
