(* ===== verification/Upper_Inv.thy ===== *)
theory Upper_Inv
  imports Upper_Rename
begin

text \<open>
  The invariant of the overlay, its preservation by every event, and the reference semantics of
  writes and truncations on one file. \<open>reachable\<close> is the transition system of the overlay: the states
  that in-range events lead to from the empty state.
\<close>

section \<open>The invariant\<close>

definition sizes_ok :: "node \<Rightarrow> bool" where
  "sizes_ok n \<longleftrightarrow>
     (if n_Fallthrough n then - 1 \<le> sint (n_Size n) \<and> norm_path (n_LowerRel n)
      else n_LowerRel n = [] \<and> 0 \<le> sint (n_Size n) \<and> (\<forall>e\<in>set (n_Extents n). ext_stop e \<le> sint (n_Size n)))"

definition node_ok :: "node \<Rightarrow> bool" where
  "node_ok n \<longleftrightarrow> exts_wf (n_Extents n) \<and> sizes_ok n \<and>
     (n_Kind n \<noteq> KindFile \<longrightarrow> n_Extents n = [] \<and> \<not> n_Fallthrough n) \<and>
     (\<forall>k. n_Kind n \<noteq> KindOther k)"

definition upper_wf :: "upper \<Rightarrow> bool" where
  "upper_wf u \<longleftrightarrow> keys_norm u \<and> (\<forall>p n. fmlookup (nodes u) p = Some n \<longrightarrow> node_ok n) \<and>
     (\<forall>p q. fmlookup (redirects u) p = Some q \<longrightarrow> norm_path q)"

text \<open>
  The ranges of an event's numbers: the file and blob ranges of a write do not overflow and a
  truncation size is a valid \<^verbatim>\<open>int64\<close>. The kernel never sends anything else.
\<close>

definition write_ok :: "write_msg \<Rightarrow> bool" where
  "write_ok w \<longleftrightarrow> 0 \<le> sint (wr_Offset w) \<and> sint (wr_Offset w) + uint (wr_Length w) < 2 ^ 63 \<and>
     uint (wr_BlobOffset w) + uint (wr_Length w) < 2 ^ 64"

fun op_in_range :: "event_op \<Rightarrow> bool" where
  "op_in_range (Write w) = write_ok w"
| "op_in_range (Setattr sa) = (case sa_Size sa of None \<Rightarrow> True | Some s \<Rightarrow> uint s < 2 ^ 63)"
| "op_in_range _ = True"

definition in_range :: "envelope \<Rightarrow> bool" where
  "in_range ev \<longleftrightarrow> (case Op ev of None \<Rightarrow> True | Some op \<Rightarrow> op_in_range op)"

inductive reachable :: "upper \<Rightarrow> bool" where
  start: "reachable New"
| step: "reachable u \<Longrightarrow> in_range ev \<Longrightarrow> Apply u ev = Inr u' \<Longrightarrow> reachable u'"

lemma upper_wfD:
  assumes "upper_wf u"
  shows "keys_norm u" "fmlookup (nodes u) p = Some n \<Longrightarrow> node_ok n"
    "fmlookup (redirects u) p = Some q \<Longrightarrow> norm_path q"
  using assms by (auto simp: upper_wf_def)

lemma upper_wf_New: "upper_wf New"
  by (simp add: upper_wf_def keys_norm_def New_def)

lemma upper_wf_fields [simp]:
  "upper_wf (u\<lparr>lowerID := l\<rparr>) = upper_wf u" "upper_wf (u\<lparr>seqLast := s\<rparr>) = upper_wf u"
  by (simp_all add: upper_wf_def keys_norm_def)

lemma put_node_wf: "upper_wf u \<Longrightarrow> norm_path p \<Longrightarrow> node_ok n \<Longrightarrow> upper_wf (put_node p n u)"
  by (auto simp: upper_wf_def keys_norm_def put_node_def)

lemma drop_override_wf: "upper_wf u \<Longrightarrow> upper_wf (u\<lparr>overrides := fmdrop p (overrides u)\<rparr>)"
  by (auto simp: upper_wf_def keys_norm_def)

lemma remove_entry_wf: "upper_wf u \<Longrightarrow> norm_path p \<Longrightarrow> upper_wf (remove_entry p u)"
  by (auto simp: upper_wf_def keys_norm_def remove_entry_def)

lemma set_override_wf:
  "upper_wf u \<Longrightarrow> norm_path p \<Longrightarrow> upper_wf (u\<lparr>overrides := fmupd p ov (overrides u)\<rparr>)"
  by (auto simp: upper_wf_def keys_norm_def)

section \<open>Nodes\<close>

text \<open>Attribute updates touch nothing the invariant looks at.\<close>

lemma attrs_simps [simp]:
  "n_Kind (set_attrs sa n) = n_Kind n" "n_Size (set_attrs sa n) = n_Size n"
  "n_Extents (set_attrs sa n) = n_Extents n" "n_Fallthrough (set_attrs sa n) = n_Fallthrough n"
  "n_LowerRel (set_attrs sa n) = n_LowerRel n" "n_Target (set_attrs sa n) = n_Target n"
  "n_Kind (absorb_attrs ov n) = n_Kind n" "n_Size (absorb_attrs ov n) = n_Size n"
  "n_Extents (absorb_attrs ov n) = n_Extents n" "n_Fallthrough (absorb_attrs ov n) = n_Fallthrough n"
  "n_LowerRel (absorb_attrs ov n) = n_LowerRel n" "n_Target (absorb_attrs ov n) = n_Target n"
  by (simp_all add: set_attrs_def absorb_attrs_def)

lemma attrs_node_ok [simp]:
  "node_ok (set_attrs sa n) = node_ok n" "node_ok (absorb_attrs ov n) = node_ok n"
  by (simp_all add: node_ok_def sizes_ok_def)

lemma absorbOverride_wf:
  assumes "upper_wf u" and "absorbOverride u p n = (u', n')"
  shows "upper_wf u'" and "node_ok n' = node_ok n" and "nodes u' = nodes u"
    and "n_Extents n' = n_Extents n" and "n_Size n' = n_Size n" and "n_Kind n' = n_Kind n"
    and "n_Fallthrough n' = n_Fallthrough n"
  using assms
  by (auto simp: absorbOverride_def drop_override_wf split: option.splits)

text \<open>The extent of a write, and what it does to the file: the reference semantics of a write.\<close>

definition write_ext :: "write_msg \<Rightarrow> extent" where
  "write_ext w = \<lparr>FileOffset = wr_Offset w, Length = wr_Length w, BlobID = wr_BlobId w,
     BlobOffset = wr_BlobOffset w\<rparr>"

abbreviation wr_stop :: "write_msg \<Rightarrow> int" where
  "wr_stop w \<equiv> sint (wr_Offset w) + uint (wr_Length w)"

definition spec_write :: "write_msg \<Rightarrow> (int \<Rightarrow> (bytes \<times> int) option) \<Rightarrow> int \<Rightarrow> (bytes \<times> int) option" where
  "spec_write w c i =
     (if sint (wr_Offset w) \<le> i \<and> i < wr_stop w
      then Some (wr_BlobId w, uint (wr_BlobOffset w) + (i - sint (wr_Offset w)))
      else if wr_Eof w \<and> wr_stop w \<le> i then None else c i)"

lemma write_ext_ok: "write_ok w \<Longrightarrow> 0 < wr_Length w \<Longrightarrow> ext_ok (write_ext w)"
  by (simp add: write_ok_def ext_ok_def write_ext_def word_less_def)

lemma write_fin: "write_ok w \<Longrightarrow> sint (wr_Offset w + wr_Length w) = wr_stop w"
proof -
  assume "write_ok w"
  then have r: "0 \<le> sint (wr_Offset w)" "wr_stop w < 2 ^ 63" "0 \<le> uint (wr_Length w)"
    using uint_range [of "wr_Length w"] by (simp_all add: write_ok_def)
  then have len: "sint (wr_Length w) = uint (wr_Length w)"
    by (intro sint_eq_uint_small) linarith
  with r show ?thesis by (subst sint_plus) (unfold len, linarith+)
qed

lemma write_node_src:
  assumes "write_ok w" and "exts_wf (n_Extents n)"
  shows "exts_wf (n_Extents (write_size w (write_extents w n)))"
    and "src_at (n_Extents (write_size w (write_extents w n))) i = spec_write w (src_at (n_Extents n)) i"
proof -
  have wf: "exts_wf (n_Extents (write_extents w n))"
    using ext.ins_wf [OF assms(2) write_ext_ok [OF assms(1)]] assms(2)
    by (simp add: write_extents_def write_ext_def)
  have src: "src_at (n_Extents (write_extents w n)) i =
      (if sint (wr_Offset w) \<le> i \<and> i < wr_stop w
       then Some (wr_BlobId w, uint (wr_BlobOffset w) + (i - sint (wr_Offset w)))
       else src_at (n_Extents n) i)" for i
  proof (cases "0 < wr_Length w")
    case True
    then show ?thesis
      using ext.ins_src [OF assms(2) write_ext_ok [OF assms(1)], of i]
      by (simp add: write_extents_def write_ext_def covers_def ext_src_def)
  next
    case False
    then have "uint (wr_Length w) = 0" by (simp add: word_gt_0)
    with False show ?thesis by (auto simp: write_extents_def)
  qed
  show "exts_wf (n_Extents (write_size w (write_extents w n)))"
    using wf by (simp add: write_size_def Let_def ext.clip_wf)
  show "src_at (n_Extents (write_size w (write_extents w n))) i = spec_write w (src_at (n_Extents n)) i"
    using wf by (simp add: write_size_def Let_def ext.clip_src src spec_write_def write_fin [OF assms(1)])
qed

lemma write_node_ok:
  assumes "write_ok w" and "node_ok n" and "n_Kind n = KindFile"
  shows "node_ok (write_size w (write_extents w n))"
proof -
  let ?m = "write_size w (write_extents w n)"
  from assms(2) have wf: "exts_wf (n_Extents n)" and sz: "sizes_ok n" by (simp_all add: node_ok_def)
  note wf' = write_node_src(1) [OF assms(1) wf]
  have keep: "n_Kind ?m = KindFile" "n_Fallthrough ?m = n_Fallthrough n" "n_LowerRel ?m = n_LowerRel n"
    using assms(3) by (simp_all add: write_size_def write_extents_def Let_def)
  have size: "sint (n_Size ?m) =
      (if wr_Eof w then wr_stop w
       else if n_Fallthrough n then sint (n_Size n) else max (sint (n_Size n)) (wr_stop w))"
    using write_fin [OF assms(1)]
    by (auto simp: write_size_def write_extents_def Let_def word_sless_alt max_def)
  have nonneg: "0 \<le> wr_stop w" using assms(1) uint_range [of "wr_Length w"] by (simp add: write_ok_def)
  have "\<forall>e\<in>set (n_Extents ?m). ext_stop e \<le> sint (n_Size ?m)" if "\<not> n_Fallthrough n"
  proof -
    have "\<forall>i\<ge>sint (n_Size n). src_at (n_Extents n) i = None"
      using sz that stops_iff_src [OF wf] by (simp add: sizes_ok_def)
    then have "\<forall>i\<ge>sint (n_Size ?m). src_at (n_Extents ?m) i = None"
      using that by (simp add: write_node_src(2) [OF assms(1) wf] spec_write_def size)
    then show ?thesis using stops_iff_src [OF wf'] by blast
  qed
  with wf' sz nonneg show ?thesis
    by (auto simp: node_ok_def sizes_ok_def keep size)
qed

lemma clip_node_ok:
  assumes "exts_wf (n_Extents n)" and "0 \<le> sint s" and "n_Kind n = KindFile"
    and "if n_Fallthrough n then norm_path (n_LowerRel n) else n_LowerRel n = []"
  shows "node_ok (n\<lparr>n_Size := s, n_Extents := clipExtents (n_Extents n) s\<rparr>)"
  using clipExtents_src [OF assms(1), of s] assms by (auto simp: node_ok_def sizes_ok_def)

section \<open>Events\<close>

lemma write_target_ok:
  assumes "upper_wf u" and "norm_path p" and "write_target u w p = (u', n)"
    and "\<And>m. fmlookup (nodes u) p = Some m \<Longrightarrow> n_Kind m = KindFile"
  shows "upper_wf u'" and "node_ok n" and "n_Kind n = KindFile" and "nodes u' = nodes u"
    and "n_Extents n = (case fmlookup (nodes u) p of None \<Rightarrow> [] | Some m \<Rightarrow> n_Extents m)"
proof -
  have "upper_wf u' \<and> node_ok n \<and> n_Kind n = KindFile \<and> nodes u' = nodes u \<and>
      n_Extents n = (case fmlookup (nodes u) p of None \<Rightarrow> [] | Some m \<Rightarrow> n_Extents m)"
  proof (cases "fmlookup (nodes u) p")
    case (Some m)
    with assms show ?thesis by (auto simp: write_target_def upper_wfD(2))
  next
    case None
    let ?f = "zero_node\<lparr>n_Kind := KindFile, n_Mode := wr_Mode w, n_Size := 0\<rparr>"
    let ?g = "?f\<lparr>n_Size := - 1, n_Fallthrough := True, n_LowerRel := p, n_UID := wr_Uid w,
      n_GID := wr_Gid w\<rparr>"
    show ?thesis
    proof (cases "wr_Fallthrough w")
      case True
      then have "absorbOverride u p ?g = (u', n)"
        using assms(3) None by (simp add: write_target_def Let_def)
      note ab = absorbOverride_wf [OF assms(1) this]
      have "node_ok ?g" using assms(2) by (simp add: node_ok_def sizes_ok_def zero_node_def)
      with ab None show ?thesis by (simp add: zero_node_def)
    next
      case False
      then have "u' = u" "n = ?f" using assms(3) None by (simp_all add: write_target_def Let_def)
      with assms(1) None show ?thesis by (simp add: node_ok_def sizes_ok_def zero_node_def)
    qed
  qed
  then show "upper_wf u'" "node_ok n" "n_Kind n = KindFile" "nodes u' = nodes u"
    "n_Extents n = (case fmlookup (nodes u) p of None \<Rightarrow> [] | Some m \<Rightarrow> n_Extents m)" by auto
qed

lemma apply_write_wf:
  assumes "upper_wf u" and "check_write u w = None" and "write_ok w"
  shows "upper_wf (apply_write w (wr_Path w) u)"
proof -
  obtain u' n where t: "write_target u w (wr_Path w) = (u', n)" by fastforce
  have p: "norm_path (wr_Path w)" and
    k: "\<And>m. fmlookup (nodes u) (wr_Path w) = Some m \<Longrightarrow> n_Kind m = KindFile"
    using assms(2) by (auto simp: check_write_None)
  note ok = write_target_ok [OF assms(1) p t k]
  show ?thesis
    using put_node_wf [OF ok(1) p write_node_ok [OF assms(3) ok(2,3)]] by (simp add: apply_write_def t)
qed

lemma applySetattr_wf:
  assumes "upper_wf u" and "check_setattr u sa = None" and "op_in_range (Setattr sa)"
    and "applySetattr sa u = Inr u'"
  shows "upper_wf u'"
proof -
  let ?p = "sa_Path sa"
  have p: "norm_path ?p" using assms(2) by (simp add: check_setattr_None)
  have nonneg: "0 \<le> sint s" if "sa_Size sa = Some s" for s
    using assms(3) that uint_range [of s] by (simp add: sint_eq_uint_small)
  show ?thesis
  proof (cases "fmlookup (nodes u) ?p")
    case (Some n)
    note n = upper_wfD(2) [OF assms(1) Some]
    show ?thesis
    proof (cases "sa_Size sa")
      case None
      with n assms(4) p Some None show ?thesis
        by (auto simp: applySetattr_def mustNormalize_iff Let_def intro: put_node_wf [OF assms(1)])
    next
      case (Some s)
      have "n_Kind n = KindFile" using assms(2) Some \<open>fmlookup (nodes u) ?p = Some n\<close>
        by (simp add: check_setattr_None)
      then have "node_ok ((set_attrs sa n)\<lparr>n_Size := s, n_Extents := clipExtents (n_Extents n) s\<rparr>)"
        using n nonneg [OF Some] clip_node_ok [of "set_attrs sa n" s]
        by (auto simp: node_ok_def sizes_ok_def)
      with assms(4) p Some \<open>fmlookup (nodes u) ?p = Some n\<close> show ?thesis
        by (auto simp: applySetattr_def mustNormalize_iff Let_def intro: put_node_wf [OF assms(1)])
    qed
  next
    case None
    show ?thesis
    proof (cases "sa_Size sa")
      case None
      with assms(4) p \<open>fmlookup (nodes u) ?p = None\<close> show ?thesis
        by (auto simp: applySetattr_def mustNormalize_iff intro: set_override_wf [OF assms(1)])
    next
      case (Some s)
      let ?n = "zero_node\<lparr>n_Kind := KindFile, n_Mode := 420, n_Size := s, n_Fallthrough := True,
        n_LowerRel := ?p\<rparr>"
      obtain v m where ab: "absorbOverride u ?p ?n = (v, m)" by fastforce
      note abs = absorbOverride_wf [OF assms(1) ab]
      have "node_ok ?n" using nonneg [OF Some] p by (simp add: node_ok_def sizes_ok_def zero_node_def)
      then have "node_ok (set_attrs sa m)" using abs(2) by simp
      with assms(4) p Some ab \<open>fmlookup (nodes u) ?p = None\<close> show ?thesis
        by (auto simp: applySetattr_def mustNormalize_iff Let_def intro: put_node_wf [OF abs(1)])
    qed
  qed
qed

text \<open>
  A rename only moves values between normalized keys. This needs no case distinction on how the two
  paths lie to each other.
\<close>

lemma toPath_norm: "norm_path p \<Longrightarrow> norm_path to \<Longrightarrow> prefixMatch p from = Some rest \<Longrightarrow> norm_path (toPath to rest)"
  using norm_path_no_trailing [of p "from"]
  by (auto simp: prefixMatch_def toPath_def prefix_def norm_path_append_iff split: if_splits)

lemma move_keys_norm:
  "\<forall>p\<in>fmdom' m. norm_path p \<Longrightarrow> norm_path to \<Longrightarrow>
     p \<in> fmdom' (move_keys from to ks m) \<Longrightarrow> norm_path p"
proof (induction ks arbitrary: m)
  case Nil
  then show ?case by simp
next
  case (Cons k ks)
  show ?case
  proof (cases "prefixMatch k from")
    case None
    with Cons show ?thesis by simp
  next
    case (Some rest)
    show ?thesis
    proof (cases "fmlookup m k")
      case None
      with Cons \<open>prefixMatch k from = Some rest\<close> show ?thesis by simp
    next
      case v: (Some v)
      with Cons.prems have "norm_path (toPath to rest)"
        using toPath_norm Some by (metis fmlookup_dom'_iff)
      with Cons.prems have keys: "\<forall>p\<in>fmdom' (fmdrop k (fmupd (toPath to rest) v m)). norm_path p"
        by auto
      show ?thesis
        using Cons.IH [OF keys Cons.prems(2)] Cons.prems(3) Some v by simp
    qed
  qed
qed

lemma move_keys_values:
  "fmlookup (move_keys from to ks m) q = Some v \<Longrightarrow> \<exists>p. fmlookup m p = Some v"
proof (induction ks arbitrary: m)
  case Nil
  then show ?case by auto
next
  case (Cons k ks)
  show ?case
  proof (cases "prefixMatch k from")
    case None
    with Cons show ?thesis by simp
  next
    case (Some rest)
    show ?thesis
    proof (cases "fmlookup m k")
      case None
      with Cons Some show ?thesis by simp
    next
      case v: (Some w)
      with Cons.prems Some have "\<exists>p. fmlookup (fmdrop k (fmupd (toPath to rest) w m)) p = Some v"
        by (intro Cons.IH) simp
      then show ?thesis using v by (auto split: if_splits)
    qed
  qed
qed

lemma delete_keys_values: "fmlookup (delete_keys to ks m) q = Some v \<Longrightarrow> fmlookup m q = Some v"
  by (auto simp: delete_keys_lookup split: if_splits)

lemma move_white_norm:
  "\<forall>p\<in>set ks. norm_path p \<Longrightarrow> \<forall>p\<in>fset W. norm_path p \<Longrightarrow> norm_path to \<Longrightarrow>
     p |\<in>| move_white from to ks W \<Longrightarrow> norm_path p"
proof (induction ks arbitrary: W)
  case Nil
  then show ?case by simp
next
  case (Cons k ks)
  show ?case
  proof (cases "prefixMatch k from")
    case None
    with Cons show ?thesis by simp
  next
    case (Some rest)
    with Cons.prems have "norm_path (toPath to rest)" using toPath_norm [of k to "from" rest] by simp
    with Cons.prems have keys: "\<forall>p\<in>fset (finsert (toPath to rest) (W |-| {|k|})). norm_path p"
      by auto
    show ?thesis
      using Cons.IH [OF _ keys] Cons.IH [of W] Cons.prems Some
      by (cases "rest = []") simp_all
  qed
qed

lemma delete_white_subset: "p |\<in>| delete_white to ks W \<Longrightarrow> p |\<in>| W"
  by (simp add: delete_white_mem)

lemma keys_norm_tables:
  "keys_norm u \<longleftrightarrow> (\<forall>p\<in>fmdom' (nodes u). norm_path p) \<and> (\<forall>p\<in>fset (whiteouts u). norm_path p) \<and>
     (\<forall>p\<in>fmdom' (overrides u). norm_path p) \<and> (\<forall>p\<in>fmdom' (redirects u). norm_path p)"
  by (auto simp: keys_norm_def)

lemma deleteSubtree_wf: "upper_wf u \<Longrightarrow> upper_wf (deleteSubtree to u)"
  by (auto simp: upper_wf_def keys_norm_def fmlookup_dom'_iff split: if_splits)

lemma upper_wf_update:
  assumes "upper_wf u"
  shows "\<forall>p\<in>fmdom' m. norm_path p \<Longrightarrow> \<forall>p n. fmlookup m p = Some n \<longrightarrow> node_ok n \<Longrightarrow>
      upper_wf (u\<lparr>nodes := m\<rparr>)"
    and "\<forall>p\<in>fmdom' r. norm_path p \<Longrightarrow> \<forall>p q. fmlookup r p = Some q \<longrightarrow> norm_path q \<Longrightarrow>
      upper_wf (u\<lparr>redirects := r\<rparr>)"
    and "\<forall>p\<in>fmdom' ov. norm_path p \<Longrightarrow> upper_wf (u\<lparr>overrides := ov\<rparr>)"
    and "\<forall>p\<in>fset W. norm_path p \<Longrightarrow> upper_wf (u\<lparr>whiteouts := W\<rparr>)"
  using assms by (simp_all add: upper_wf_def keys_norm_tables)

lemma move_wf:
  assumes "upper_wf u" and "norm_path to"
  shows "upper_wf (moveNodes from to u)" "upper_wf (moveRedirects from to u)"
    "upper_wf (moveWhiteouts from to u)" "upper_wf (moveOverrides from to u)"
proof -
  have kn: "keys_norm u" using assms(1) by (simp add: upper_wf_def)
  note tables = kn [unfolded keys_norm_tables]
  have n: "\<forall>p n. fmlookup (move_keys from to ks (nodes u)) p = Some n \<longrightarrow> node_ok n" for ks
    using move_keys_values upper_wfD(2) [OF assms(1)] by metis
  have r: "\<forall>p q. fmlookup (move_keys from to ks (redirects u)) p = Some q \<longrightarrow> norm_path q" for ks
    using move_keys_values upper_wfD(3) [OF assms(1)] by metis
  show "upper_wf (moveNodes from to u)"
    unfolding moveNodes_def
    by (rule upper_wf_update(1) [OF assms(1) _ n])
      (intro ballI, erule move_keys_norm [OF tables [THEN conjunct1] assms(2)])
  show "upper_wf (moveRedirects from to u)"
    unfolding moveRedirects_def
    by (rule upper_wf_update(2) [OF assms(1) _ r])
      (intro ballI, erule move_keys_norm [OF _ assms(2), rotated], simp add: tables)
  show "upper_wf (moveOverrides from to u)"
    unfolding moveOverrides_def
    by (rule upper_wf_update(3) [OF assms(1)])
      (intro ballI, erule move_keys_norm [OF _ assms(2), rotated], simp add: tables)
  show "upper_wf (moveWhiteouts from to u)"
    unfolding moveWhiteouts_def
    by (rule upper_wf_update(4) [OF assms(1)])
      (use tables assms(2) move_white_norm [of "sorted_list_of_fset (whiteouts u)" "whiteouts u" to]
        in simp)
qed

lemma rename_paths_wf:
  assumes "upper_wf u" and "norm_path from" and "norm_path to"
  shows "upper_wf (rename_paths from to fl u)"
proof -
  have white: "upper_wf v \<Longrightarrow> upper_wf (v\<lparr>whiteouts := finsert from (whiteouts v)\<rparr>)" for v
    using assms(2) by (auto simp: upper_wf_def keys_norm_def)
  have redir: "upper_wf v \<Longrightarrow> upper_wf (v\<lparr>redirects := fmupd to from (redirects v)\<rparr>)" for v
    using assms(2,3) by (auto simp: upper_wf_def keys_norm_def)
  show ?thesis
    using assms(1,3) unfolding rename_paths_def Let_def moveSubtree_def
    by (auto intro!: white redir move_wf deleteSubtree_wf)
qed

lemma apply_op_wf:
  assumes "upper_wf u" and "checkLocked u ev = None" and "in_range ev"
    and "apply_op (Op ev) u = Inr u'"
  shows "upper_wf u'"
proof -
  obtain op where op: "Op ev = Some op" using checkLocked_paths [OF assms(2)] by blast
  have paths: "\<forall>p\<in>set (op_paths op). norm_path p"
    using checkLocked_paths [OF assms(2)] op by auto
  show ?thesis
  proof (cases op)
    case (Write w)
    then have "check_write u w = None" "write_ok w"
      using assms(2,3) op by (simp_all add: checkLocked_def in_range_def split: if_splits)
    with assms paths op Write show ?thesis
      using apply_write_wf by (auto simp: apply_op_def with_path_def mustNormalize_iff)
  next
    case (Setattr sa)
    then have "check_setattr u sa = None" "op_in_range (Setattr sa)"
      using assms(2,3) op by (simp_all add: checkLocked_def in_range_def split: if_splits)
    with assms op Setattr show ?thesis
      using applySetattr_wf by (auto simp: apply_op_def)
  next
    case (Rename r)
    with assms paths op show ?thesis
      using rename_paths_wf by (auto simp: apply_op_def applyRename_def mustNormalize_iff)
  qed (use assms paths op put_node_wf [OF assms(1)] remove_entry_wf [OF assms(1)] in
      \<open>auto simp: apply_op_def with_path_def mustNormalize_iff node_ok_def sizes_ok_def zero_node_def\<close>)
qed

lemma Apply_Inr:
  assumes "Apply u ev = Inr u'"
  obtains v where "seqLast u < Seq ev" and "Check u ev = None"
    and "apply_op (Op ev) (if LowerId ev \<noteq> [] then u\<lparr>lowerID := LowerId ev\<rparr> else u) = Inr v"
    and "u' = v\<lparr>seqLast := Seq ev\<rparr>"
  using assms by (auto simp: Apply_def Check_def Let_def split: if_splits option.splits sum.splits)

text \<open>The preconditions only look at the tables and the current lower id.\<close>

lemma check_lowerID [simp]:
  "checkFresh (u\<lparr>lowerID := l\<rparr>) = checkFresh u" "check_write (u\<lparr>lowerID := l\<rparr>) = check_write u"
  "check_unlink (u\<lparr>lowerID := l\<rparr>) = check_unlink u" "check_rmdir (u\<lparr>lowerID := l\<rparr>) = check_rmdir u"
  "check_setattr (u\<lparr>lowerID := l\<rparr>) = check_setattr u" "checkRename (u\<lparr>lowerID := l\<rparr>) = checkRename u"
  by (simp_all add: fun_eq_iff checkFresh_def check_write_def check_unlink_def check_rmdir_def
      check_setattr_def checkRename_def subtreePresent_def hasChildren_def split: sum.split option.split)

lemma checkLocked_lowerID:
  "checkLocked u ev = None \<Longrightarrow> LowerId ev \<noteq> [] \<Longrightarrow> checkLocked (u\<lparr>lowerID := LowerId ev\<rparr>) ev = None"
  by (simp add: checkLocked_def split: if_splits option.splits event_op.splits)

lemma Apply_wf:
  assumes "upper_wf u" and "in_range ev" and "Apply u ev = Inr u'"
  shows "upper_wf u'"
  using assms(3)
proof (rule Apply_Inr)
  fix v
  let ?w = "if LowerId ev \<noteq> [] then u\<lparr>lowerID := LowerId ev\<rparr> else u"
  assume "Check u ev = None" and v: "apply_op (Op ev) ?w = Inr v" and u': "u' = v\<lparr>seqLast := Seq ev\<rparr>"
  then have "checkLocked ?w ev = None" using checkLocked_lowerID by (simp add: Check_def)
  moreover have "upper_wf ?w" using assms(1) by simp
  ultimately show "upper_wf u'" using apply_op_wf assms(2) v u' by auto
qed

lemma reachable_wf: "reachable u \<Longrightarrow> upper_wf u"
  by (induction rule: reachable.induct) (auto intro: upper_wf_New Apply_wf)

text \<open>
  C2. The invariant of the overlay: in every state that any sequence of accepted in-range events can
  reach, all paths are normalized, every extent list is sorted, disjoint and free of overflow,
  directories and symlinks have no extents, a plain file's size bounds its extents, and every
  fallthrough file has a valid lower path.
\<close>

theorem reachable_upper_wf:
  assumes "reachable u"
  shows "upper_wf u"
  using assms by (rule reachable_wf)

end
