(* ===== verification/Merged.thy ===== *)
theory Merged
  imports Upper_Inv
begin

text \<open>
  The merged view (\<^verbatim>\<open>internal/fs/merged.go\<close>, \<^verbatim>\<open>internal/fs/lower.go\<close> and the attribute helpers of
  \<^verbatim>\<open>internal/fs/node.go\<close>): what the mount shows at a path, computed from the overlay state and the lower
  tree. The lower tree is the operating system's: the record \<open>lower_os\<close> has one field per system call
  the code makes on it, and every definition takes it as an argument. A failing call returns its
  \<open>errno\<close>.
\<close>

unbundle bit_operations_syntax

section \<open>System calls and attributes\<close>

datatype errno =
    ENOENT | ENOTDIR | EACCES | EIO | EEXIST | ENOTEMPTY | EISDIR | EINVAL | EROFS | EINTR
  | ETIMEDOUT | ENOTSUP | EOther nat

record stat =
  st_Mode :: u32
  st_Uid :: u32
  st_Gid :: u32
  st_Size :: i64
  st_AtimSec :: i64
  st_AtimNsec :: i64
  st_MtimSec :: i64
  st_MtimNsec :: i64

text \<open>
  \<open>os_open\<close> and \<open>os_opendir\<close> are \<^verbatim>\<open>openat\<close> for reading a file and a directory (they report an error or
  none); \<open>os_pread\<close> reads at an offset of the file at a path, \<open>os_readdirnames\<close> lists a directory.
\<close>

record lower_os =
  os_fstatat :: "path \<Rightarrow> errno + stat"
  os_open :: "path \<Rightarrow> errno option"
  os_pread :: "path \<Rightarrow> i64 \<Rightarrow> nat \<Rightarrow> errno + bytes"
  os_opendir :: "path \<Rightarrow> errno option"
  os_readdirnames :: "path \<Rightarrow> errno + string list"
  os_readlinkat :: "path \<Rightarrow> errno + bytes"

definition S_IFMT :: u32 where "S_IFMT = 61440"
definition S_IFDIR :: u32 where "S_IFDIR = 16384"
definition S_IFREG :: u32 where "S_IFREG = 32768"
definition S_IFLNK :: u32 where "S_IFLNK = 40960"

record attr =
  a_Mode :: u32
  a_Size :: u64
  a_Uid :: u32
  a_Gid :: u32
  a_Atime :: u64
  a_Atimensec :: u32
  a_Mtime :: u64
  a_Mtimensec :: u32

definition zero_attr :: attr where
  "zero_attr = \<lparr>a_Mode = 0, a_Size = 0, a_Uid = 0, a_Gid = 0, a_Atime = 0, a_Atimensec = 0,
     a_Mtime = 0, a_Mtimensec = 0\<rparr>"

definition nsecToFuse :: "i64 \<Rightarrow> u64 \<times> u32" where
  "nsecToFuse ns = (if ns <s 0 then (0, 0) else (ns div 1000000000, ucast (ns mod 1000000000)))"

definition upperAttr :: "u32 \<Rightarrow> node \<Rightarrow> u64 \<Rightarrow> attr" where
  "upperAttr typ u sz = zero_attr\<lparr>
     a_Mode := typ OR (n_Mode u AND 4095), a_Size := sz, a_Uid := n_UID u, a_Gid := n_GID u,
     a_Atime := fst (nsecToFuse (n_AtimeNs u)), a_Atimensec := snd (nsecToFuse (n_AtimeNs u)),
     a_Mtime := fst (nsecToFuse (n_MtimeNs u)), a_Mtimensec := snd (nsecToFuse (n_MtimeNs u))\<rparr>"

record lowerAttrs =
  la_mode :: u32
  la_uid :: u32
  la_gid :: u32
  la_size :: u64
  la_atimeNs :: i64
  la_mtimeNs :: i64

definition attrsFromStat :: "stat \<Rightarrow> lowerAttrs" where
  "attrsFromStat st = \<lparr>la_mode = st_Mode st AND 4095, la_uid = st_Uid st, la_gid = st_Gid st,
     la_size = st_Size st, la_atimeNs = st_AtimSec st * 1000000000 + st_AtimNsec st,
     la_mtimeNs = st_MtimSec st * 1000000000 + st_MtimNsec st\<rparr>"

definition applyOverride :: "attr_override option \<Rightarrow> lowerAttrs \<Rightarrow> lowerAttrs" where
  "applyOverride mov a =
     (case mov of
        None \<Rightarrow> a
      | Some ov \<Rightarrow> a\<lparr>
          la_mode := or_else (ov_Mode ov) (la_mode a),
          la_uid := or_else (ov_UID ov) (la_uid a),
          la_gid := or_else (ov_GID ov) (la_gid a),
          la_size := or_else (ov_Size ov) (la_size a),
          la_atimeNs := or_else (ov_AtimeNs ov) (la_atimeNs a),
          la_mtimeNs := or_else (ov_MtimeNs ov) (la_mtimeNs a)\<rparr>)"

definition statAttr :: "u32 \<Rightarrow> stat \<Rightarrow> attr_override option \<Rightarrow> attr" where
  "statAttr typ st ov =
     (let la = applyOverride ov (attrsFromStat st);
          a = zero_attr\<lparr>a_Mode := typ OR la_mode la, a_Uid := la_uid la, a_Gid := la_gid la\<rparr>;
          b = (if typ \<noteq> S_IFDIR
               then a\<lparr>a_Size := la_size la, a_Atime := fst (nsecToFuse (la_atimeNs la)),
                      a_Atimensec := snd (nsecToFuse (la_atimeNs la))\<rparr>
               else a)
      in b\<lparr>a_Mtime := fst (nsecToFuse (la_mtimeNs la)), a_Mtimensec := snd (nsecToFuse (la_mtimeNs la))\<rparr>)"

section \<open>The lower tree\<close>

definition join :: "path \<Rightarrow> string \<Rightarrow> path" where
  "join parent name = (if parent = [] then name else parent @ ''/'' @ name)"

definition isAbsent :: "errno \<Rightarrow> bool" where
  "isAbsent err \<longleftrightarrow> err = ENOENT \<or> err = ENOTDIR"

definition lowerPath :: "upper \<Rightarrow> path \<Rightarrow> path" where
  "lowerPath u rel =
     (if rel = [] then ''.''
      else case LowerPath u rel of (lp, ok) \<Rightarrow> if ok then lp else rel)"

definition statLower :: "lower_os \<Rightarrow> upper \<Rightarrow> path \<Rightarrow> errno + stat" where
  "statLower os u rel = os_fstatat os (lowerPath u rel)"

definition lowerSize :: "lower_os \<Rightarrow> upper \<Rightarrow> path \<Rightarrow> errno + i64" where
  "lowerSize os u rel =
     (case statLower os u rel of
        Inl err \<Rightarrow> if isAbsent err then Inr 0 else Inl err
      | Inr st \<Rightarrow> Inr (st_Size st))"

definition listLower :: "lower_os \<Rightarrow> upper \<Rightarrow> path \<Rightarrow> errno + string list" where
  "listLower os u rel =
     (let at = lowerPath u rel
      in case os_opendir os at of
           Some err \<Rightarrow> Inl err
         | None \<Rightarrow>
             (case os_readdirnames os at of
                Inl err \<Rightarrow> Inl err
              | Inr names \<Rightarrow> Inr (filter (\<lambda>name. name \<noteq> ''.'' \<and> name \<noteq> ''..'') names)))"

text \<open>\<open>buf\<close> is the buffer before the read; a short read leaves its tail as it was.\<close>

definition readLowerInto :: "lower_os \<Rightarrow> upper \<Rightarrow> path \<Rightarrow> i64 \<Rightarrow> bytes \<Rightarrow> errno + bytes" where
  "readLowerInto os u rel off buf =
     (case os_open os (lowerPath u rel) of
        Some err \<Rightarrow> if isAbsent err then Inr buf else Inl err
      | None \<Rightarrow>
          (case os_pread os (lowerPath u rel) off (length buf) of
             Inl err \<Rightarrow> Inl err
           | Inr got \<Rightarrow> Inr (got @ drop (length got) buf)))"

definition extentEnd :: "node \<Rightarrow> i64" where
  "extentEnd u = extents_end (n_Extents u) 0"

definition fallthroughSrc :: "path \<Rightarrow> node option \<Rightarrow> path" where
  "fallthroughSrc rel mu =
     (case mu of
        None \<Rightarrow> rel
      | Some u \<Rightarrow> if n_Fallthrough u \<and> n_LowerRel u \<noteq> [] then n_LowerRel u else rel)"

definition sizeOfNode :: "lower_os \<Rightarrow> upper \<Rightarrow> path \<Rightarrow> node option \<Rightarrow> errno + i64" where
  "sizeOfNode os up rel mu =
     (case mu of
        None \<Rightarrow> Inr 0
      | Some u \<Rightarrow>
          if n_Kind u \<noteq> KindFile then Inr 0
          else if 0 \<le>s n_Size u then Inr (n_Size u)
          else
            let fin = extentEnd u
            in if n_Fallthrough u
               then (case lowerSize os up (fallthroughSrc rel mu) of
                       Inl err \<Rightarrow> Inl err
                     | Inr ls \<Rightarrow> Inr (if fin <s ls then ls else fin))
               else Inr fin)"

definition sizeOf :: "lower_os \<Rightarrow> upper \<Rightarrow> path \<Rightarrow> errno + i64" where
  "sizeOf os up rel = (case Lookup up rel of None \<Rightarrow> Inr 0 | Some u \<Rightarrow> sizeOfNode os up rel (Some u))"

section \<open>Resolution\<close>

record entry =
  e_rel :: path
  e_kind :: u32 \<comment> \<open>0 means absent\<close>
  e_upper :: "node option"
  e_lower :: "stat option"
  e_attr :: attr
  e_size :: i64

definition absent_entry :: "path \<Rightarrow> entry" where
  "absent_entry rel = \<lparr>e_rel = rel, e_kind = 0, e_upper = None, e_lower = None, e_attr = zero_attr,
     e_size = 0\<rparr>"

definition present :: "entry \<Rightarrow> bool" where
  "present e \<longleftrightarrow> e_kind e \<noteq> 0"

definition isDir :: "entry \<Rightarrow> bool" where
  "isDir e \<longleftrightarrow> e_kind e = S_IFDIR"

text \<open>The two halves of \<open>resolve\<close> after the lower entry has been inspected.\<close>

definition resolve_upper :: "lower_os \<Rightarrow> upper \<Rightarrow> path \<Rightarrow> node \<Rightarrow> stat option \<Rightarrow> errno + entry" where
  "resolve_upper os up rel u low =
     (let e = (absent_entry rel)\<lparr>e_lower := low, e_upper := Some u\<rparr>
      in case n_Kind u of
           KindDir \<Rightarrow> Inr (e\<lparr>e_kind := S_IFDIR, e_attr := upperAttr S_IFDIR u 0\<rparr>)
         | KindFile \<Rightarrow>
             (case sizeOfNode os up rel (Some u) of
                Inl err \<Rightarrow> Inl err
              | Inr sz \<Rightarrow> Inr (e\<lparr>e_kind := S_IFREG, e_size := sz, e_attr := upperAttr S_IFREG u sz\<rparr>))
         | KindSymlink \<Rightarrow>
             Inr (e\<lparr>e_kind := S_IFLNK, e_attr := upperAttr S_IFLNK u (word_of_nat (length (n_Target u)))\<rparr>)
         | KindOther _ \<Rightarrow> Inl ENOTSUP)"

definition resolve_lower :: "upper \<Rightarrow> path \<Rightarrow> stat \<Rightarrow> errno + entry" where
  "resolve_lower up rel st =
     (let e = (absent_entry rel)\<lparr>e_lower := Some st\<rparr>;
          fmt = st_Mode st AND S_IFMT
      in if fmt = S_IFDIR \<or> fmt = S_IFREG \<or> fmt = S_IFLNK
         then let a = statAttr fmt st (Override up rel)
              in Inr (e\<lparr>e_kind := fmt, e_attr := a, e_size := (if fmt = S_IFREG then a_Size a else 0)\<rparr>)
         else Inl ENOTSUP)"

definition resolve :: "lower_os \<Rightarrow> upper \<Rightarrow> path \<Rightarrow> errno + entry" where
  "resolve os up rel =
     (let mu = Lookup up rel
      in if mu = None \<and> Hidden up rel then Inr (absent_entry rel)
         else case (case statLower os up rel of
                      Inr st \<Rightarrow> Inr (Some st)
                    | Inl err \<Rightarrow> if isAbsent err then Inr None else Inl err) of
                Inl err \<Rightarrow> Inl err
              | Inr low \<Rightarrow>
                  (case mu of
                     Some u \<Rightarrow> resolve_upper os up rel u low
                   | None \<Rightarrow>
                       (case low of
                          None \<Rightarrow> Inr (absent_entry rel)
                        | Some st \<Rightarrow> resolve_lower up rel st)))"

definition existsInMerged :: "lower_os \<Rightarrow> upper \<Rightarrow> path \<Rightarrow> errno + bool" where
  "existsInMerged os up rel = (case resolve os up rel of Inl err \<Rightarrow> Inl err | Inr e \<Rightarrow> Inr (present e))"

definition effectiveSize :: "lower_os \<Rightarrow> upper \<Rightarrow> path \<Rightarrow> errno + i64" where
  "effectiveSize os up rel = (case resolve os up rel of Inl err \<Rightarrow> Inl err | Inr e \<Rightarrow> Inr (e_size e))"

section \<open>Listings\<close>

record dir_entry =
  d_Name :: string
  d_Mode :: u32

definition kind_mode :: "kind \<Rightarrow> u32" where
  "kind_mode k = (case k of KindDir \<Rightarrow> S_IFDIR | KindSymlink \<Rightarrow> S_IFLNK | _ \<Rightarrow> S_IFREG)"

text \<open>The loop over redirected names: \<open>seen\<close> grows as names are emitted.\<close>

fun add_redirected :: "string fset \<Rightarrow> (string \<Rightarrow> bool) \<Rightarrow> string list \<Rightarrow> string list" where
  "add_redirected seen skip [] = []"
| "add_redirected seen skip (name # names) =
     (if name |\<in>| seen \<or> skip name then add_redirected seen skip names
      else name # add_redirected (finsert name seen) skip names)"

definition merge_names ::
    "string list \<Rightarrow> string list \<Rightarrow> (string, node) fmap \<Rightarrow> string fset \<Rightarrow> dir_entry list" where
  "merge_names names redirected upperNodes white =
     (let skip = (\<lambda>name. name |\<in>| white \<or> fmlookup upperNodes name \<noteq> None);
          lows = filter (\<lambda>name. \<not> skip name) names;
          reds = add_redirected (fset_of_list lows) skip redirected;
          seen = fset_of_list (lows @ reds);
          ups = filter (\<lambda>name. name |\<notin>| seen) (keys_of upperNodes)
      in map (\<lambda>name. \<lparr>d_Name = name, d_Mode = 0\<rparr>) (lows @ reds) @
         map (\<lambda>name. \<lparr>d_Name = name, d_Mode = kind_mode (n_Kind (the (fmlookup upperNodes name)))\<rparr>) ups)"

definition mergedEntries :: "lower_os \<Rightarrow> upper \<Rightarrow> path \<Rightarrow> errno + dir_entry list" where
  "mergedEntries os up rel =
     (case (if Hidden up rel then Inr []
            else case listLower os up rel of
                   Inr names \<Rightarrow> Inr names
                 | Inl err \<Rightarrow> if isAbsent err then Inr [] else Inl err) of
        Inl err \<Rightarrow> Inl err
      | Inr names \<Rightarrow>
          (case Children up rel of
             (upperNodes, white) \<Rightarrow> Inr (merge_names names (Redirected up rel) upperNodes white)))"

definition mergedEmpty :: "lower_os \<Rightarrow> upper \<Rightarrow> path \<Rightarrow> errno + bool" where
  "mergedEmpty os up rel =
     (case Children up rel of
        (upperNodes, white) \<Rightarrow>
          if keys_of upperNodes \<noteq> [] then Inr False
          else if list_ex (\<lambda>name. name |\<notin>| white) (Redirected up rel) then Inr False
          else if Hidden up rel then Inr True
          else case listLower os up rel of
                 Inl err \<Rightarrow> if isAbsent err then Inr True else Inl err
               | Inr names \<Rightarrow> Inr (list_all (\<lambda>name. name |\<in>| white) names))"

end
