(* ===== verification/Upper_Props.thy ===== *)
theory Upper_Props
  imports Upper_Inv
begin

text \<open>
  The theorems on the overlay as a whole: \<open>Check\<close> decides \<open>Apply\<close>, what each kind of event does to the
  state and what it leaves alone, replay, and the meaning of the queries.
\<close>

section \<open>Sample events for the concrete instances\<close>

definition sample_event :: "u64 \<Rightarrow> event_op \<Rightarrow> envelope" where
  "sample_event s op = \<lparr>Seq = s, UnixMicros = 0, SessionId = ''s1'', LowerId = ''low'', Op = Some op\<rparr>"

definition sample_create :: envelope where
  "sample_create = sample_event 1 (Create \<lparr>cr_Path = ''d/a'', cr_Mode = 420, cr_Uid = 7, cr_Gid = 8\<rparr>)"

definition sample_write_msg :: write_msg where
  "sample_write_msg = \<lparr>wr_Path = ''d/a'', wr_Offset = 2, wr_Length = 3, wr_BlobId = ''b1'',
     wr_BlobOffset = 0, wr_Eof = True, wr_Mode = 0, wr_Fallthrough = False, wr_Uid = 0, wr_Gid = 0\<rparr>"

definition sample_write :: envelope where
  "sample_write = sample_event 2 (Write sample_write_msg)"

definition sample_rename_msg :: rename_msg where
  "sample_rename_msg = \<lparr>rn_From = ''d'', rn_To = ''e'', rn_FromLower = False\<rparr>"

definition sample_rename :: envelope where
  "sample_rename = sample_event 3 (Rename sample_rename_msg)"

definition sample_state :: upper where
  "sample_state = projr (Replay [sample_create, sample_write])"

lemmas sample_defs = sample_event_def sample_create_def sample_write_msg_def sample_write_def
  sample_rename_msg_def sample_rename_def

lemma sample_reachable_1: "reachable (projr (Apply New sample_create))"
proof (rule reachable.step [OF reachable.start])
  show "in_range sample_create" by (simp add: in_range_def sample_defs)
  show "Apply New sample_create = Inr (projr (Apply New sample_create))" by code_simp
qed

lemma sample_reachable: "reachable sample_state"
proof (rule reachable.step [OF sample_reachable_1])
  show "in_range sample_write" by (simp add: in_range_def sample_defs write_ok_def)
  show "Apply (projr (Apply New sample_create)) sample_write = Inr sample_state"
    by code_simp
qed

theorem reachable_upper_wf_witness: "upper_wf sample_state"
  using reachable_upper_wf [OF sample_reachable] .

lemma sample_wf: "upper_wf sample_state"
  using sample_reachable by (rule reachable_wf)

section \<open>Check decides Apply\<close>

text \<open>
  C29. \<open>Check\<close> predicts \<open>Apply\<close> exactly, for every event and every state: an event with a stale
  sequence number is refused, any other event is refused with precisely the error \<open>Check\<close> reports,
  and when \<open>Check\<close> reports none \<open>Apply\<close> succeeds and records the event's sequence number. The panic for
  an unchecked path is never reached, and a failing \<open>Apply\<close> returns no new state at all.
\<close>

theorem Apply_decided_by_Check:
  "(Seq ev \<le> seqLast u \<and> Apply u ev = Inl (ErrSeqOutOfOrder (Seq ev) (seqLast u))) \<or>
   (seqLast u < Seq ev \<and>
     ((\<exists>err. Check u ev = Some err \<and> err \<noteq> PanicUnchecked \<and> Apply u ev = Inl err) \<or>
      (Check u ev = None \<and> (\<exists>u'. Apply u ev = Inr u' \<and> seqLast u' = Seq ev))))"
proof (cases "Seq ev \<le> seqLast u")
  case True
  then show ?thesis by (simp add: Apply_outcome)
next
  case False
  show ?thesis
  proof (cases "Check u ev")
    case None
    with False show ?thesis by (simp add: Apply_outcome)
  next
    case (Some err)
    then have "err \<noteq> PanicUnchecked"
      by (auto simp: Check_def checkLocked_def checkFresh_def check_write_def check_unlink_def
          check_rmdir_def check_setattr_def checkRename_def NormalizePath_def
          split: if_splits option.splits event_op.splits sum.splits)
    with Some False show ?thesis by (simp add: Apply_outcome)
  qed
qed

section \<open>Writes and truncations\<close>

definition old_src :: "upper \<Rightarrow> path \<Rightarrow> int \<Rightarrow> (bytes \<times> int) option" where
  "old_src u p = (case fmlookup (nodes u) p of None \<Rightarrow> (\<lambda>_. None) | Some n \<Rightarrow> src_at (n_Extents n))"

lemma Apply_write_step:
  assumes "Op ev = Some (Write w)" and "Apply u ev = Inr u'"
  defines "v \<equiv> if LowerId ev \<noteq> [] then u\<lparr>lowerID := LowerId ev\<rparr> else u"
  shows "check_write u w = None" and "u' = (apply_write w (wr_Path w) v)\<lparr>seqLast := Seq ev\<rparr>"
proof -
  from assms(2) obtain x where "Check u ev = None" "apply_op (Op ev) v = Inr x" "u' = x\<lparr>seqLast := Seq ev\<rparr>"
    unfolding v_def by (rule Apply_Inr)
  moreover from this(1) show "check_write u w = None"
    using assms(1) by (simp add: Check_def checkLocked_def split: if_splits)
  ultimately show "u' = (apply_write w (wr_Path w) v)\<lparr>seqLast := Seq ev\<rparr>"
    using assms(1) by (simp add: apply_op_def with_path_def mustNormalize_iff check_write_None)
qed

text \<open>
  A write event refines the abstract write. After an accepted in-range write the file's node
  exists, is a regular file, and reads exactly what the reference write \<open>spec_write\<close> says: the new
  bytes in the written range, nothing past the end when the write reaches the end of the file, and
  what was there everywhere else. The node of every other path is untouched.
\<close>

theorem Apply_write_refines:
  assumes "upper_wf u" and "Op ev = Some (Write w)" and "write_ok w" and "Apply u ev = Inr u'"
  shows "\<exists>n. fmlookup (nodes u') (wr_Path w) = Some n \<and> n_Kind n = KindFile \<and>
    src_at (n_Extents n) = spec_write w (old_src u (wr_Path w)) \<and>
    (wr_Eof w \<longrightarrow> sint (n_Size n) = wr_stop w) \<and>
    (\<forall>q. q \<noteq> wr_Path w \<longrightarrow> fmlookup (nodes u') q = fmlookup (nodes u) q)"
proof -
  let ?v = "if LowerId ev \<noteq> [] then u\<lparr>lowerID := LowerId ev\<rparr> else u"
  note st = Apply_write_step [OF assms(2,4)]
  obtain x n where t: "write_target ?v w (wr_Path w) = (x, n)" by fastforce
  have wf: "upper_wf ?v" and p: "norm_path (wr_Path w)" and
    k: "\<And>m. fmlookup (nodes ?v) (wr_Path w) = Some m \<Longrightarrow> n_Kind m = KindFile"
    using assms(1) st(1) by (auto simp: check_write_None split: if_splits)
  note ok = write_target_ok [OF wf p t k]
  let ?n = "write_size w (write_extents w n)"
  have old: "src_at (n_Extents n) = old_src u (wr_Path w)"
    using ok(5) by (auto simp: old_src_def fun_eq_iff src_at_def split: option.splits)
  have "exts_wf (n_Extents n)" using ok(2) by (simp add: node_ok_def)
  then have src: "src_at (n_Extents ?n) = spec_write w (old_src u (wr_Path w))"
    using write_node_src(2) [OF assms(3)] unfolding old [symmetric] by blast
  have size: "wr_Eof w \<longrightarrow> sint (n_Size ?n) = wr_stop w" and kind: "n_Kind ?n = KindFile"
    using write_fin [OF assms(3)] ok(3) by (simp_all add: write_size_def write_extents_def Let_def)
  have nodes: "nodes u' = fmupd (wr_Path w) ?n (nodes u)"
    using st(2) t ok(4) by (simp add: apply_write_def put_node_def)
  show ?thesis using src size kind by (simp add: nodes)
qed

theorem Apply_write_refines_witness:
  "\<exists>n. fmlookup (nodes (projr (Apply (projr (Apply New sample_create)) sample_write))) ''d/a'' = Some n \<and>
     src_at (n_Extents n) 3 = Some (''b1'', 1) \<and> src_at (n_Extents n) 5 = None"
proof -
  have wf: "upper_wf (projr (Apply New sample_create))"
    using sample_reachable_1 by (rule reachable_wf)
  have op: "Op sample_write = Some (Write sample_write_msg)" by (simp add: sample_write_def sample_event_def)
  have ok: "write_ok sample_write_msg" by (simp add: write_ok_def sample_defs)
  have ap: "Apply (projr (Apply New sample_create)) sample_write =
      Inr (projr (Apply (projr (Apply New sample_create)) sample_write))" by code_simp
  have p: "wr_Path sample_write_msg = ''d/a''" by (simp add: sample_defs)
  show ?thesis
    using Apply_write_refines [OF wf op ok ap] unfolding p
    by (auto simp: spec_write_def old_src_def sample_defs)
qed

text \<open>
  A truncation of an overlay file (a \<open>Setattr\<close> with a size) sets the size and forgets exactly the
  bytes at or past it: every position below keeps reading what it read, and kind, lower source and
  fallthrough flag are kept. Overrides, whiteouts and redirects do not change.
\<close>

theorem Apply_truncate_overlay:
  assumes "upper_wf u" and "Op ev = Some (Setattr sa)" and "sa_Size sa = Some s"
    and "fmlookup (nodes u) (sa_Path sa) = Some n" and "Apply u ev = Inr u'"
  shows "\<exists>m. fmlookup (nodes u') (sa_Path sa) = Some m \<and> n_Size m = s \<and>
    n_Kind m = n_Kind n \<and> n_Fallthrough m = n_Fallthrough n \<and> n_LowerRel m = n_LowerRel n \<and>
    (\<forall>i. src_at (n_Extents m) i = (if i < sint s then src_at (n_Extents n) i else None)) \<and>
    overrides u' = overrides u \<and> whiteouts u' = whiteouts u \<and> redirects u' = redirects u"
  using assms(5)
proof (rule Apply_Inr)
  fix v
  let ?v = "if LowerId ev \<noteq> [] then u\<lparr>lowerID := LowerId ev\<rparr> else u"
  assume c: "Check u ev = None" and v: "apply_op (Op ev) ?v = Inr v" and u': "u' = v\<lparr>seqLast := Seq ev\<rparr>"
  from c have p: "norm_path (sa_Path sa)"
    using assms(2) by (simp add: Check_def checkLocked_def check_setattr_None split: if_splits)
  have wf: "exts_wf (n_Extents n)" using upper_wfD(2) [OF assms(1,4)] by (simp add: node_ok_def)
  have look: "fmlookup (nodes ?v) (sa_Path sa) = Some n" using assms(4) by simp
  have "v = put_node (sa_Path sa)
      ((set_attrs sa n)\<lparr>n_Size := s, n_Extents := clipExtents (n_Extents n) s\<rparr>) ?v"
    using v p look assms(2,3) by (simp add: apply_op_def applySetattr_def mustNormalize_iff Let_def)
  with u' show ?thesis by (simp add: put_node_def ext.clip_src [OF wf])
qed

theorem Apply_truncate_overlay_witness:
  "\<exists>m. fmlookup (nodes (projr (Apply sample_state (sample_event 3 (Setattr
      \<lparr>sa_Path = ''d/a'', sa_Mode = None, sa_Uid = None, sa_Gid = None, sa_AtimeNs = None,
       sa_MtimeNs = None, sa_Size = Some 3\<rparr>))))) ''d/a'' = Some m \<and> n_Size m = 3 \<and>
     src_at (n_Extents m) 4 = None"
proof -
  let ?sa = "\<lparr>sa_Path = ''d/a'', sa_Mode = None, sa_Uid = None, sa_Gid = None, sa_AtimeNs = None,
    sa_MtimeNs = None, sa_Size = Some 3\<rparr>"
  let ?ev = "sample_event 3 (Setattr ?sa)"
  have op: "Op ?ev = Some (Setattr ?sa)" by (simp add: sample_event_def)
  obtain n where n: "fmlookup (nodes sample_state) (sa_Path ?sa) = Some n"
  proof -
    have "fmlookup (nodes sample_state) (sa_Path ?sa) \<noteq> None" by code_simp
    then show ?thesis using that by blast
  qed
  have ap: "Apply sample_state ?ev = Inr (projr (Apply sample_state ?ev))" by code_simp
  have "sa_Size ?sa = Some 3" by simp
  from Apply_truncate_overlay [OF sample_wf op this n ap] show ?thesis by auto
qed

section \<open>Frame\<close>




definition same_at :: "path \<Rightarrow> upper \<Rightarrow> upper \<Rightarrow> bool" where
  "same_at q u v \<longleftrightarrow> fmlookup (nodes u) q = fmlookup (nodes v) q \<and>
     fmlookup (overrides u) q = fmlookup (overrides v) q \<and>
     fmlookup (redirects u) q = fmlookup (redirects v) q \<and>
     (q |\<in>| whiteouts u \<longleftrightarrow> q |\<in>| whiteouts v)"


lemma same_at_simps [simp]:
  "same_at q (u\<lparr>lowerID := l\<rparr>) v = same_at q u v" "same_at q (u\<lparr>seqLast := n\<rparr>) v = same_at q u v"
  "same_at q u u"
  by (simp_all add: same_at_def)









section \<open>Rename\<close>

lemma Apply_rename_step:
  assumes "Op ev = Some (Rename r)" and "Apply u ev = Inr u'"
  shows "norm_path (rn_From r)" and "norm_path (rn_To r)"
    and "u' = (rename_paths (rn_From r) (rn_To r) (rn_FromLower r)
      (if LowerId ev \<noteq> [] then u\<lparr>lowerID := LowerId ev\<rparr> else u))\<lparr>seqLast := Seq ev\<rparr>"
proof -
  from assms(2) obtain x where "Check u ev = None" and
    x: "apply_op (Op ev) (if LowerId ev \<noteq> [] then u\<lparr>lowerID := LowerId ev\<rparr> else u) = Inr x"
      "u' = x\<lparr>seqLast := Seq ev\<rparr>"
    by (rule Apply_Inr)
  then show n: "norm_path (rn_From r)" "norm_path (rn_To r)"
    using assms(1) by (auto simp: Check_def checkLocked_def checkRename_None split: if_splits)
  show "u' = (rename_paths (rn_From r) (rn_To r) (rn_FromLower r)
      (if LowerId ev \<noteq> [] then u\<lparr>lowerID := LowerId ev\<rparr> else u))\<lparr>seqLast := Seq ev\<rparr>"
    using x n assms(1) by (simp add: apply_op_def applyRename_def mustNormalize_iff)
qed

lemma keys_norm_lowerID [simp]: "keys_norm (u\<lparr>lowerID := l\<rparr>) = keys_norm u"
  by (simp add: keys_norm_def)

lemma subtreePresent_lowerID [simp]: "subtreePresent (u\<lparr>lowerID := l\<rparr>) d = subtreePresent u d"
  by (simp add: subtreePresent_def)

text \<open>
  C27. A rename is exactly the reference move \<open>renamed\<close>, on each of the four tables. For unrelated
  paths \<open>from\<close> and \<open>to\<close>: what was at or below \<open>to\<close> is gone, what was at or below \<open>from\<close> is found at the
  corresponding path below \<open>to\<close>, everything else stays. Whiteouts move only when strictly below \<open>from\<close>,
  \<open>from\<close> itself is hidden when it has a lower entry, and a redirect to the lower \<open>from\<close> is recorded
  exactly when the overlay held nothing at or below \<open>from\<close>.
\<close>

theorem Apply_rename_moves:
  assumes "upper_wf u" and "Op ev = Some (Rename r)" and "Apply u ev = Inr u'"
    and "from = rn_From r" and "to = rn_To r" and "apart from to"
  shows "fmlookup (nodes u') q = renamed from to (fmlookup (nodes u)) q \<and>
    fmlookup (overrides u') q = renamed from to (fmlookup (overrides u)) q \<and>
    fmlookup (redirects u') q =
      (if \<not> subtreePresent u from \<and> q = to then Some from
       else renamed from to (fmlookup (redirects u)) q) \<and>
    (q |\<in>| whiteouts u' \<longleftrightarrow>
      (if under to q then q \<noteq> to \<and> swap to from q |\<in>| whiteouts u
       else if under from q then q = from \<and> (rn_FromLower r \<or> q |\<in>| whiteouts u)
       else q |\<in>| whiteouts u))"
proof -
  let ?v = "if LowerId ev \<noteq> [] then u\<lparr>lowerID := LowerId ev\<rparr> else u"
  note st = Apply_rename_step [OF assms(2,3), folded assms(4,5)]
  have kn: "keys_norm ?v" using assms(1) by (simp add: upper_wf_def)
  note moved = rename_paths_nodes [OF assms(6) kn] rename_paths_whiteouts [OF assms(6) kn st(1)]
  have same: "nodes ?v = nodes u" "overrides ?v = overrides u" "redirects ?v = redirects u"
    "whiteouts ?v = whiteouts u" "subtreePresent ?v from = subtreePresent u from"
    by simp_all
  show ?thesis unfolding st(3) using moved unfolding same by simp
qed

theorem Apply_rename_moves_witness:
  "fmlookup (nodes (projr (Apply sample_state sample_rename))) ''e/a'' =
     fmlookup (nodes sample_state) ''d/a'' \<and>
   fmlookup (nodes (projr (Apply sample_state sample_rename))) ''d/a'' = None"
proof -
  have ap: "Apply sample_state sample_rename = Inr (projr (Apply sample_state sample_rename))"
    by code_simp
  have op: "Op sample_rename = Some (Rename sample_rename_msg)"
    by (simp add: sample_rename_def sample_event_def)
  have paths: "''d'' = rn_From sample_rename_msg" "''e'' = rn_To sample_rename_msg" "apart ''d'' ''e''"
    by (simp_all add: sample_rename_msg_def apart_def under_def isDescendant_def)
  note moved = Apply_rename_moves [OF sample_wf op ap paths]
  show ?thesis
    using moved [of "''e/a''"] moved [of "''d/a''"]
    by (simp add: renamed_def swap_def under_def isDescendant_def)
qed

lemma renamed_renamed:
  assumes "apart from to" and "\<And>q. under to q \<Longrightarrow> m q = None"
  shows "renamed to from (renamed from to m) q = m q"
proof -
  have "under from q \<Longrightarrow> \<not> under to q" using apart_disjoint [OF assms(1)] by blast
  then show ?thesis using assms(2) by (auto simp: renamed_def)
qed

text \<open>
  Renaming a tree away and back is the identity on overlay nodes and overrides, when the
  destination was free: no node, extent or attribute is lost or duplicated by the moves.
\<close>

theorem rename_there_and_back:
  assumes "upper_wf u" and "norm_path from" and "norm_path to" and "apart from to"
    and "\<And>q. under to q \<Longrightarrow> fmlookup (nodes u) q = None \<and> fmlookup (overrides u) q = None"
  shows "nodes (rename_paths to from fl2 (rename_paths from to fl1 u)) = nodes u \<and>
    overrides (rename_paths to from fl2 (rename_paths from to fl1 u)) = overrides u"
proof -
  have bk: "apart to from" using assms(4) by (auto simp: apart_def)
  have kn: "keys_norm u" "keys_norm (rename_paths from to fl1 u)"
    using assms(1) rename_paths_wf [OF assms(1-3)] by (simp_all add: upper_wf_def)
  have eq: "fmlookup (nodes (rename_paths from to fl1 u)) = renamed from to (fmlookup (nodes u))"
    "fmlookup (overrides (rename_paths from to fl1 u)) = renamed from to (fmlookup (overrides u))"
    using rename_paths_nodes(1,2) [OF assms(4) kn(1)] by blast+
  show ?thesis
    by (intro conjI fmap_ext)
      (simp_all add: rename_paths_nodes(1,2) [OF bk kn(2)] eq renamed_renamed [OF assms(4)] assms(5))
qed

theorem rename_there_and_back_witness:
  "nodes (rename_paths ''e'' ''d'' False (rename_paths ''d'' ''e'' False sample_state)) = nodes sample_state"
proof -
  have "keys_of (nodes sample_state) = [''d/a'']" "keys_of (overrides sample_state) = []"
    by code_simp+
  then have keys: "fmdom' (nodes sample_state) = {''d/a''}" "fmdom' (overrides sample_state) = {}"
    by (metis set_keys_of list.set)+
  have "fmlookup (nodes sample_state) q = None \<and> fmlookup (overrides sample_state) q = None"
    if "under ''e'' q" for q
  proof -
    have "q \<noteq> ''d/a''" using that by (auto simp: under_def isDescendant_def prefix_def)
    with keys show ?thesis by (metis fmdom'_notD singletonD empty_iff)
  qed
  moreover have "norm_path ''d''" "norm_path ''e''" "apart ''d'' ''e''"
    by (simp_all add: norm_path_def valid_utf8.simps(2) apart_def under_def isDescendant_def)
  ultimately show ?thesis
    using rename_there_and_back [OF sample_wf, of "''d''" "''e''" False False] by blast
qed

section \<open>Replay\<close>

lemma replay_from_append:
  "replay_from u (xs @ ys) = (case replay_from u xs of Inl err \<Rightarrow> Inl err | Inr v \<Rightarrow> replay_from v ys)"
  by (induction xs arbitrary: u) (auto split: sum.splits)

lemma Apply_seq: "Apply u ev = Inr u' \<Longrightarrow> seqLast u < Seq ev \<and> seqLast u' = Seq ev"
  by (erule Apply_Inr) simp

lemma replay_from_seq:
  "replay_from u evs = Inr v \<Longrightarrow>
     sorted_wrt (<) (seqLast u # map Seq evs) \<and> seqLast v = last (seqLast u # map Seq evs)"
proof (induction evs arbitrary: u)
  case Nil
  then show ?case by simp
next
  case (Cons ev evs)
  then obtain u' where u': "Apply u ev = Inr u'" "replay_from u' evs = Inr v"
    by (auto split: sum.splits)
  with Cons.IH [OF u'(2)] Apply_seq [OF u'(1)] show ?case
    by (auto dest: order.strict_trans)
qed

lemma apply_op_lowerID:
  "apply_op op u = Inr v \<Longrightarrow> lowerID v = lowerID u"
  by (auto simp: apply_op_def with_path_def applyRename_def applySetattr_def rename_paths_def
      put_node_def apply_write_def write_target_def absorbOverride_def remove_entry_def Let_def
      moveSubtree_def moveNodes_def moveRedirects_def moveWhiteouts_def moveOverrides_def
      split: option.splits event_op.splits sum.splits prod.splits if_splits)

lemma Apply_lowerID:
  assumes "Apply u ev = Inr u'"
  shows "LowerId ev = [] \<and> lowerID u' = lowerID u \<or>
    LowerId ev \<noteq> [] \<and> lowerID u' = LowerId ev \<and> (lowerID u = [] \<or> lowerID u = LowerId ev)"
  using assms
proof (rule Apply_Inr)
  fix v
  assume "Check u ev = None"
    "apply_op (Op ev) (if LowerId ev \<noteq> [] then u\<lparr>lowerID := LowerId ev\<rparr> else u) = Inr v"
    "u' = v\<lparr>seqLast := Seq ev\<rparr>"
  then show ?thesis using apply_op_lowerID
    by (fastforce simp: Check_def checkLocked_def split: if_splits)
qed

lemma replay_from_lowerID:
  "replay_from u evs = Inr v \<Longrightarrow>
     (lowerID u \<noteq> [] \<longrightarrow> lowerID v = lowerID u) \<and>
     (\<forall>ev\<in>set evs. LowerId ev = [] \<or> LowerId ev = lowerID v)"
proof (induction evs arbitrary: u)
  case Nil
  then show ?case by simp
next
  case (Cons ev evs)
  then obtain u' where u': "Apply u ev = Inr u'" "replay_from u' evs = Inr v"
    by (auto split: sum.splits)
  from Apply_lowerID [OF u'(1)] Cons.IH [OF u'(2)] show ?case by auto
qed

text \<open>
  C28. A log that replays is one ordered history over one lower tree: sequence numbers are positive and
  strictly increase along it, the resulting state remembers the last one, and all events that name a
  lower tree name the same one, the state's.
\<close>

theorem Replay_one_history:
  assumes "Replay evs = Inr u"
  shows "sorted_wrt (<) (0 # map Seq evs) \<and> seqLast u = last (0 # map Seq evs) \<and>
    (\<forall>ev\<in>set evs. LowerId ev = [] \<or> LowerId ev = lowerID u)"
  using replay_from_seq [of New evs u] replay_from_lowerID [of New evs u] assms
  by (simp add: Replay_def New_def)

theorem Replay_one_history_witness:
  "seqLast (projr (Replay [sample_create, sample_write])) = 2 \<and>
   lowerID (projr (Replay [sample_create, sample_write])) = ''low''"
proof -
  have "Replay [sample_create, sample_write] = Inr (projr (Replay [sample_create, sample_write]))"
    by code_simp
  from Replay_one_history [OF this] show ?thesis by (simp add: sample_defs)
qed

section \<open>Queries\<close>

lemma isDescendant_parent:
  assumes "0 \<le> last_index_slash p"
  shows "isDescendant p d \<longleftrightarrow>
    d = take (nat (last_index_slash p)) p \<or> isDescendant (take (nat (last_index_slash p)) p) d"
  using parent_split [OF assms, of d] by (simp add: isDescendant_iff)

definition deepest :: "(path, path) fmap \<Rightarrow> path \<Rightarrow> path \<Rightarrow> bool" where
  "deepest reds p d \<longleftrightarrow> fmlookup reds d \<noteq> None \<and> under d p \<and>
     (\<forall>e. under e p \<and> fmlookup reds e \<noteq> None \<longrightarrow> under e d)"

lemma lower_path_walk_spec:
  assumes "under rest rel"
  shows "(\<exists>d src. fmlookup reds d = Some src \<and> isDescendant rest d \<and>
       (\<forall>e. isDescendant rest e \<and> fmlookup reds e \<noteq> None \<longrightarrow> under e d) \<and>
       lower_path_walk reds rel rest = (swap d src rel, True)) \<or>
    ((\<forall>e. isDescendant rest e \<longrightarrow> fmlookup reds e = None) \<and>
       lower_path_walk reds rel rest = (rel, False))"
  using assms
proof (induction reds rel rest rule: lower_path_walk.induct)
  case (1 reds rel rest)
  show ?case
  proof (cases "last_index_slash rest < 0")
    case True
    then have "lower_path_walk reds rel rest = (rel, False)" by (subst lower_path_walk.simps) simp
    with True show ?thesis by (simp add: isDescendant_iff no_parent)
  next
    case False
    then have pos: "0 \<le> last_index_slash rest" by simp
    let ?q = "take (nat (last_index_slash rest)) rest"
    have q: "isDescendant rest ?q" using isDescendant_parent [OF pos] by blast
    have "under ?q rel" using q "1.prems" under_trans by (auto simp: under_def)
    moreover have "length ?q = nat (last_index_slash rest)"
      using last_index_slash_range [of rest] pos by auto
    ultimately have sw: "src @ drop (nat (last_index_slash rest)) rel = swap ?q src rel" for src
      by (simp add: swap_def)
    show ?thesis
    proof (cases "fmlookup reds ?q")
      case (Some src)
      have "lower_path_walk reds rel rest = (swap ?q src rel, True)"
        using False Some sw by (subst lower_path_walk.simps) simp
      moreover have "under e ?q" if "isDescendant rest e" for e
        using that isDescendant_parent [OF pos] by (auto simp: under_def)
      ultimately show ?thesis using Some q by blast
    next
      case None
      have "lower_path_walk reds rel rest = lower_path_walk reds rel ?q"
        using False None by (subst lower_path_walk.simps) simp
      moreover have key: "isDescendant rest e \<longleftrightarrow> isDescendant ?q e" if "fmlookup reds e \<noteq> None" for e
        using that None isDescendant_parent [OF pos] by auto
      moreover have "(\<exists>d src. fmlookup reds d = Some src \<and> isDescendant rest d \<and>
           (\<forall>e. isDescendant rest e \<and> fmlookup reds e \<noteq> None \<longrightarrow> under e d) \<and>
           lower_path_walk reds rel ?q = (swap d src rel, True)) \<or>
        ((\<forall>e. isDescendant rest e \<longrightarrow> fmlookup reds e = None) \<and>
           lower_path_walk reds rel ?q = (rel, False))"
        using "1.IH" [OF refl False None \<open>under ?q rel\<close>] key
        by (metis option.distinct(1))
      ultimately show ?thesis by simp
    qed
  qed
qed

lemma LowerPath_spec:
  "(\<exists>d src. deepest (redirects u) p d \<and> fmlookup (redirects u) d = Some src \<and>
      LowerPath u p = (swap d src p, True)) \<or>
   ((\<forall>d. under d p \<longrightarrow> fmlookup (redirects u) d = None) \<and> LowerPath u p = (p, False))"
proof (cases "fmlookup (redirects u) p")
  case (Some src)
  then have "deepest (redirects u) p p" by (auto simp: deepest_def)
  with Some show ?thesis by (auto simp: LowerPath_def swap_def)
next
  case None
  then have eq: "LowerPath u p = lower_path_walk (redirects u) p p" by (simp add: LowerPath_def)
  have up: "under e p \<longleftrightarrow> e = p \<or> isDescendant p e" for e by (auto simp: under_def)
  consider (some) d src where "fmlookup (redirects u) d = Some src" "isDescendant p d"
      "\<forall>e. isDescendant p e \<and> fmlookup (redirects u) e \<noteq> None \<longrightarrow> under e d"
      "LowerPath u p = (swap d src p, True)"
    | (none) "\<forall>e. isDescendant p e \<longrightarrow> fmlookup (redirects u) e = None" "LowerPath u p = (p, False)"
    using lower_path_walk_spec [of p p "redirects u", folded eq] by (metis under_refl)
  then show ?thesis
  proof cases
    case some
    then have "deepest (redirects u) p d" using None unfolding deepest_def up by auto
    with some show ?thesis by blast
  next
    case none
    with None show ?thesis unfolding up by auto
  qed
qed

end
