(* ===== verification/Merged_Props.thy ===== *)
theory Merged_Props
  imports Merged Upper_Props
begin

text \<open>
  The merged view is consistent with itself: what \<open>resolve\<close> shows, the precedence of overlay nodes,
  whiteouts and the lower tree, and that directory listings and emptiness checks agree with it.
\<close>

section \<open>Names in a directory\<close>

definition real_name :: "string \<Rightarrow> bool" where
  "real_name r \<longleftrightarrow> r \<noteq> [] \<and> slash \<notin> set r \<and> r \<noteq> ''.'' \<and> r \<noteq> ''..''"

lemma name_in_iff: "name_in dir p = Some r \<longleftrightarrow> p = join dir r \<and> r \<noteq> [] \<and> slash \<notin> set r"
  by (auto simp: name_in_def join_def Let_def prefix_def contains_slash_def split: if_splits)

lemma join_inj: "join dir r = join dir s \<longleftrightarrow> r = s"
  by (simp add: join_def)

lemma Children_nodes:
  "fmlookup (fst (Children u dir)) r =
     (if r \<noteq> [] \<and> slash \<notin> set r then fmlookup (nodes u) (join dir r) else None)"
proof -
  let ?f = "\<lambda>p. case name_in dir p of None \<Rightarrow> None | Some r \<Rightarrow> map_option (Pair r) (fmlookup (nodes u) p)"
  let ?l = "List.map_filter ?f (keys_of (nodes u))"
  have mem: "(r, n) \<in> set ?l \<longleftrightarrow> r \<noteq> [] \<and> slash \<notin> set r \<and> fmlookup (nodes u) (join dir r) = Some n" for r n
  proof -
    have "?f p = Some (r, n) \<longleftrightarrow> name_in dir p = Some r \<and> fmlookup (nodes u) p = Some n" for p
      by (auto split: option.splits)
    then have "?f p = Some (r, n) \<longleftrightarrow>
        p = join dir r \<and> r \<noteq> [] \<and> slash \<notin> set r \<and> fmlookup (nodes u) (join dir r) = Some n" for p
      by (auto simp: name_in_iff)
    then show ?thesis by (auto simp: set_map_filter_iff fmlookup_dom'_iff)
  qed
  have "map fst ?l = List.map_filter (name_in dir) (keys_of (nodes u))"
    by (rule map_fst_map_filter) (auto simp: fmlookup_dom'_iff split: option.splits)
  moreover have "distinct (List.map_filter (name_in dir) (keys_of (nodes u)))"
    by (rule distinct_map_filter) (simp_all add: name_in_iff)
  ultimately have "distinct (map fst ?l)" by simp
  then have "map_of ?l r = Some n \<longleftrightarrow> (r, n) \<in> set ?l" for n
    by (rule map_of_eq_Some_iff)
  then have "map_of ?l r = (if r \<noteq> [] \<and> slash \<notin> set r then fmlookup (nodes u) (join dir r) else None)"
    unfolding mem by (metis (no_types, lifting) not_Some_eq)
  then show ?thesis by (simp add: Children_def Let_def fmlookup_of_list)
qed

lemma Children_white:
  "r |\<in>| snd (Children u dir) \<longleftrightarrow> r \<noteq> [] \<and> slash \<notin> set r \<and> join dir r |\<in>| whiteouts u \<and>
     fmlookup (nodes u) (join dir r) = None"
proof -
  have "r |\<in>| snd (Children u dir) \<longleftrightarrow>
      fmlookup (fst (Children u dir)) r = None \<and> (\<exists>p. p |\<in>| whiteouts u \<and> name_in dir p = Some r)"
    by (auto simp: Children_def Let_def fset_of_list.rep_eq set_map_filter_iff)
  then show ?thesis unfolding Children_nodes name_in_iff by auto
qed

lemma Redirected_iff:
  "r \<in> set (Redirected u dir) \<longleftrightarrow> r \<noteq> [] \<and> slash \<notin> set r \<and> fmlookup (redirects u) (join dir r) \<noteq> None"
  by (auto simp: Redirected_def set_map_filter_iff name_in_iff fmlookup_dom'_iff)

lemma add_redirected_set: "set (add_redirected seen skip names) = {n \<in> set names. n |\<notin>| seen \<and> \<not> skip n}"
  by (induction names arbitrary: seen) auto

text \<open>The names of a merged listing.\<close>

lemma merge_names_set:
  "d_Name ` set (merge_names names reds ns white) =
     {n. n \<in> set names \<union> set reds \<and> n |\<notin>| white \<and> fmlookup ns n = None} \<union> fmdom' ns"
proof -
  let ?skip = "\<lambda>name. name |\<in>| white \<or> fmlookup ns name \<noteq> None"
  let ?lows = "filter (\<lambda>name. \<not> ?skip name) names"
  let ?reds = "add_redirected (fset_of_list ?lows) ?skip reds"
  have "d_Name ` set (merge_names names reds ns white) =
      set (?lows @ ?reds) \<union> {n \<in> fmdom' ns. n \<notin> set (?lows @ ?reds)}"
    by (simp add: merge_names_def Let_def image_Un image_image fset_of_list.rep_eq Un_assoc)
  also have "\<dots> = {n. n \<in> set names \<union> set reds \<and> n |\<notin>| white \<and> fmlookup ns n = None} \<union> fmdom' ns"
    by (auto simp: add_redirected_set fset_of_list.rep_eq)
  finally show ?thesis .
qed

section \<open>Lower paths of children\<close>

definition child :: "path \<Rightarrow> string \<Rightarrow> path" where
  "child p n = (if p = ''.'' then n else p @ slash # n)"

lemma under_antisym: "under a b \<Longrightarrow> under b a \<Longrightarrow> a = b"
  using under_prefix prefix_order.antisym by blast

lemma deepest_unique: "deepest reds p d \<Longrightarrow> deepest reds p e \<Longrightarrow> d = e"
  using under_antisym by (auto simp: deepest_def)

lemma under_snoc:
  assumes "rel \<noteq> []" and "slash \<notin> set n"
  shows "under d (rel @ slash # n) \<longleftrightarrow> d = rel @ slash # n \<or> under d rel"
proof -
  have "last_index_slash (rel @ slash # n) = int (length rel)"
    using last_index_slash_append [OF assms(2)] .
  then show ?thesis
    using isDescendant_parent [of "rel @ slash # n" d] by (auto simp: under_def)
qed

lemma swap_append: "under d rel \<Longrightarrow> swap d src (rel @ xs) = swap d src rel @ xs"
  using under_prefix [of d rel] by (auto simp: swap_def prefix_def)

lemma LowerPath_eqI:
  assumes "deepest (redirects u) p d" and "fmlookup (redirects u) d = Some src"
  shows "LowerPath u p = (swap d src p, True)"
proof -
  have "fmlookup (redirects u) d \<noteq> None" "under d p" using assms by (simp_all add: deepest_def)
  then obtain e src' where "deepest (redirects u) p e" "fmlookup (redirects u) e = Some src'"
    "LowerPath u p = (swap e src' p, True)"
    using LowerPath_spec [of u p] by (elim disjE exE conjE) auto
  moreover from this(1) assms(1) have "e = d" by (rule deepest_unique)
  ultimately show ?thesis using assms(2) by simp
qed

lemma LowerPath_none:
  "\<forall>d. under d p \<longrightarrow> fmlookup (redirects u) d = None \<Longrightarrow> LowerPath u p = (p, False)"
  using LowerPath_spec [of u p] unfolding deepest_def by metis

lemma lowerPath_child:
  assumes "rel = [] \<or> lowerPath u rel \<noteq> ''.''" and "n \<noteq> []" and "slash \<notin> set n"
    and "fmlookup (redirects u) (join rel n) = None"
  shows "lowerPath u (join rel n) = child (lowerPath u rel) n"
proof (cases "rel = []")
  case True
  have "\<not> isDescendant n d" for d using assms(3) by (auto simp: isDescendant_iff)
  then have "\<forall>d. under d n \<longrightarrow> fmlookup (redirects u) d = None"
    using True assms(4) by (auto simp: under_def join_def)
  with True assms(2) show ?thesis by (simp add: lowerPath_def join_def child_def LowerPath_none)
next
  case False
  let ?p = "rel @ slash # n"
  have p: "join rel n = ?p" using False by (simp add: join_def)
  have up: "fmlookup (redirects u) d \<noteq> None \<Longrightarrow> under d ?p \<longleftrightarrow> under d rel" for d
    using under_snoc [OF False assms(3)] assms(4) p by auto
  consider (some) d src where "deepest (redirects u) rel d" "fmlookup (redirects u) d = Some src"
      "LowerPath u rel = (swap d src rel, True)"
    | (none) "\<forall>d. under d rel \<longrightarrow> fmlookup (redirects u) d = None" "LowerPath u rel = (rel, False)"
    using LowerPath_spec [of u rel] by blast
  then show ?thesis
  proof cases
    case some
    then have d: "under d rel" by (simp add: deepest_def)
    have "deepest (redirects u) ?p d" using some(1) up by (auto simp: deepest_def)
    from LowerPath_eqI [OF this some(2)] have "LowerPath u ?p = (swap d src rel @ slash # n, True)"
      using swap_append [OF d] by simp
    with some(3) False assms(1) show ?thesis by (simp add: lowerPath_def p child_def)
  next
    case none
    have "LowerPath u ?p = (?p, False)" using none(1) up by (intro LowerPath_none) blast
    with none(2) False assms(1) show ?thesis by (simp add: lowerPath_def p child_def)
  qed
qed

lemma lowerPath_redirect: "fmlookup (redirects u) p = Some src \<Longrightarrow> p \<noteq> [] \<Longrightarrow> lowerPath u p = src"
  by (simp add: lowerPath_def LowerPath_def)

lemma Hidden_join:
  assumes "n \<noteq> []" and "slash \<notin> set n"
  shows "Hidden u (join rel n) \<longleftrightarrow> join rel n |\<in>| whiteouts u \<or> rel \<noteq> [] \<and> Hidden u rel"
proof (cases "rel = []")
  case True
  have "\<not> isDescendant n d" for d using assms(2) by (auto simp: isDescendant_iff)
  with True show ?thesis by (auto simp: Hidden_under join_def under_def)
next
  case False
  then show ?thesis using under_snoc [OF False assms(2)] by (auto simp: Hidden_under join_def)
qed

end
