(* ===== verification/Lower_Tree.thy ===== *)
theory Lower_Tree
  imports Merged_Props
begin

text \<open>
  The contract of the lower tree and what the merged view guarantees on top of it. \<open>lower_tree\<close> states
  what a quiescent directory tree provides: a listing names exactly the children that \<^verbatim>\<open>fstatat\<close> does not
  report as absent. Inside it, directory listings and lookups of the merged view are shown to agree.
  \<open>tree_os\<close> is a directory tree in memory that satisfies the contract.
\<close>

definition stat_absent :: "lower_os \<Rightarrow> path \<Rightarrow> bool" where
  "stat_absent os p \<longleftrightarrow> (case os_fstatat os p of Inl err \<Rightarrow> isAbsent err | Inr _ \<Rightarrow> False)"

text \<open>The merged view does not report \<open>p\<close> as absent.\<close>

definition shown :: "lower_os \<Rightarrow> upper \<Rightarrow> path \<Rightarrow> bool" where
  "shown os u p \<longleftrightarrow> (case resolve os u p of Inl _ \<Rightarrow> True | Inr e \<Rightarrow> present e)"

lemma S_IF_nonzero: "S_IFDIR \<noteq> 0" "S_IFREG \<noteq> 0" "S_IFLNK \<noteq> 0"
  by (simp_all add: S_IFDIR_def S_IFREG_def S_IFLNK_def)

lemma shown_iff:
  "shown os u p \<longleftrightarrow> fmlookup (nodes u) p \<noteq> None \<or> \<not> Hidden u p \<and> \<not> stat_absent os (lowerPath u p)"
proof (cases "fmlookup (nodes u) p")
  case (Some n)
  then show ?thesis
    by (cases "n_Kind n")
      (auto simp: shown_def resolve_def Lookup_def resolve_upper_def present_def Let_def S_IF_nonzero
        split: sum.splits)
next
  case None
  then show ?thesis
    by (auto simp: shown_def resolve_def Lookup_def resolve_lower_def present_def Let_def S_IF_nonzero
        absent_entry_def statLower_def stat_absent_def split: sum.splits)
qed

section \<open>The contract\<close>

locale lower_tree =
  fixes os :: lower_os
  assumes listing: "os_opendir os p = None \<Longrightarrow> os_readdirnames os p = Inr names \<Longrightarrow> real_name n \<Longrightarrow>
      n \<in> set names \<longleftrightarrow> \<not> stat_absent os (child p n)"
    and no_dir: "os_opendir os p = Some err \<Longrightarrow> isAbsent err \<Longrightarrow> real_name n \<Longrightarrow>
      stat_absent os (child p n)"
    and readable: "os_opendir os p = None \<Longrightarrow> os_readdirnames os p = Inl err \<Longrightarrow> \<not> isAbsent err"
begin

lemma listLower_names:
  assumes "listLower os u rel = Inr names" and "real_name n"
  shows "n \<in> set names \<longleftrightarrow> \<not> stat_absent os (child (lowerPath u rel) n)"
  using assms listing [of "lowerPath u rel"]
  by (auto simp: listLower_def Let_def real_name_def split: option.splits sum.splits)

lemma listLower_absent:
  assumes "listLower os u rel = Inl err" and "isAbsent err" and "real_name n"
  shows "stat_absent os (child (lowerPath u rel) n)"
  using assms no_dir [of "lowerPath u rel"] readable [of "lowerPath u rel"]
  by (auto simp: listLower_def Let_def split: option.splits sum.splits)

text \<open>The lower names a listing starts from.\<close>

lemma lower_names:
  assumes "real_name n"
    and "(if Hidden u rel then Inr [] else case listLower os u rel of
          Inr names \<Rightarrow> Inr names | Inl err \<Rightarrow> if isAbsent err then Inr [] else Inl err) = Inr names"
  shows "n \<in> set names \<longleftrightarrow> \<not> Hidden u rel \<and> \<not> stat_absent os (child (lowerPath u rel) n)"
  using assms listLower_names [of u rel _ n] listLower_absent [of u rel _ n]
  by (auto split: if_splits sum.splits)

lemma entries_shown:
  assumes "mergedEntries os u rel = Inr es" and "real_name n"
    and "rel = [] \<or> lowerPath u rel \<noteq> ''.''"
    and "Hidden u rel \<Longrightarrow> Redirected u rel = []" and "[] |\<notin>| whiteouts u"
    and "\<And>src. fmlookup (redirects u) (join rel n) = Some src \<Longrightarrow> \<not> stat_absent os src"
  shows "n \<in> d_Name ` set es \<longleftrightarrow> shown os u (join rel n)"
proof -
  have n: "n \<noteq> []" "slash \<notin> set n" using assms(2) by (auto simp: real_name_def)
  obtain names where names:
    "(if Hidden u rel then Inr [] else case listLower os u rel of
        Inr names \<Rightarrow> Inr names | Inl err \<Rightarrow> if isAbsent err then Inr [] else Inl err) = Inr names"
    and es: "es = merge_names names (Redirected u rel) (fst (Children u rel)) (snd (Children u rel))"
    using assms(1) unfolding mergedEntries_def by (auto split: sum.splits prod.splits)
  have listed: "n \<in> d_Name ` set es \<longleftrightarrow>
      fmlookup (nodes u) (join rel n) \<noteq> None \<or>
      (n \<in> set names \<or> fmlookup (redirects u) (join rel n) \<noteq> None) \<and>
        join rel n |\<notin>| whiteouts u \<and> fmlookup (nodes u) (join rel n) = None"
    unfolding es merge_names_set using n
    by (auto simp: Children_nodes Children_white Redirected_iff fmlookup_dom'_iff)
  show ?thesis
  proof (cases "fmlookup (redirects u) (join rel n)")
    case None
    then have "lowerPath u (join rel n) = child (lowerPath u rel) n"
      using lowerPath_child assms(3) n by blast
    then show ?thesis
      unfolding listed shown_iff lower_names [OF assms(2) names] Hidden_join [OF n]
      using None assms(5) by (auto simp: Hidden_under under_def isDescendant_def)
  next
    case (Some src)
    then have "lowerPath u (join rel n) = src" "n \<in> set (Redirected u rel)"
      using n by (auto simp: join_def Redirected_iff intro: lowerPath_redirect)
    then show ?thesis
      unfolding listed shown_iff Hidden_join [OF n] using Some assms(4,6) by auto
  qed
qed

end

section \<open>A directory tree in memory\<close>

datatype ltree = LFile stat bytes | LDir stat "(string \<times> ltree) list" | LLink stat bytes

fun ltree_stat :: "ltree \<Rightarrow> stat" where
  "ltree_stat (LFile st _) = st"
| "ltree_stat (LDir st _) = st"
| "ltree_stat (LLink st _) = st"

fun ltree_walk :: "ltree \<Rightarrow> string list \<Rightarrow> errno + ltree" where
  "ltree_walk t [] = Inr t"
| "ltree_walk (LDir st cs) (c # path) =
     (case map_of cs c of None \<Rightarrow> Inl ENOENT | Some t \<Rightarrow> ltree_walk t path)"
| "ltree_walk (LFile st b) (c # path) = Inl ENOTDIR"
| "ltree_walk (LLink st b) (c # path) = Inl ENOTDIR"

definition ltree_at :: "ltree \<Rightarrow> path \<Rightarrow> errno + ltree" where
  "ltree_at t p = (if p = ''.'' then Inr t else ltree_walk t (split_slash p))"

definition tree_os :: "ltree \<Rightarrow> lower_os" where
  "tree_os t = \<lparr>
     os_fstatat = (\<lambda>p. case ltree_at t p of Inl err \<Rightarrow> Inl err | Inr x \<Rightarrow> Inr (ltree_stat x)),
     os_open = (\<lambda>p. case ltree_at t p of Inl err \<Rightarrow> Some err | Inr x \<Rightarrow> None),
     os_pread = (\<lambda>p off n. case ltree_at t p of
        Inr (LFile st b) \<Rightarrow> Inr (take n (drop (unat off) b)) | _ \<Rightarrow> Inl EISDIR),
     os_opendir = (\<lambda>p. case ltree_at t p of
        Inr (LDir st cs) \<Rightarrow> None | Inr _ \<Rightarrow> Some ENOTDIR | Inl err \<Rightarrow> Some err),
     os_readdirnames = (\<lambda>p. case ltree_at t p of
        Inr (LDir st cs) \<Rightarrow> Inr (map fst cs) | _ \<Rightarrow> Inl EIO),
     os_readlinkat = (\<lambda>p. case ltree_at t p of Inr (LLink st b) \<Rightarrow> Inr b | _ \<Rightarrow> Inl EINVAL)\<rparr>"

lemma ltree_walk_snoc:
  "ltree_walk t (path @ [c]) =
     (case ltree_walk t path of Inl err \<Rightarrow> Inl err | Inr x \<Rightarrow> ltree_walk x [c])"
  by (induction t path rule: ltree_walk.induct) (auto split: option.splits)

lemma ltree_walk_absent: "ltree_walk t path = Inl err \<Longrightarrow> isAbsent err"
  by (induction t path rule: ltree_walk.induct) (auto simp: isAbsent_def split: option.splits)

lemma ltree_at_child:
  assumes "n \<noteq> ''.''" and "slash \<notin> set n"
  shows "ltree_at t (child p n) =
    (case ltree_at t p of Inl err \<Rightarrow> Inl err | Inr x \<Rightarrow> ltree_walk x [n])"
proof -
  have "p @ slash # n \<noteq> ''.''" by (cases p) auto
  then show ?thesis
    using assms by (simp add: ltree_at_def child_def split_slash_plain split_slash_append ltree_walk_snoc)
qed

interpretation tr: lower_tree "tree_os t" for t
proof
  fix p names n
  assume o: "os_opendir (tree_os t) p = None" and r: "os_readdirnames (tree_os t) p = Inr names"
    and n: "real_name n"
  then obtain st cs where d: "ltree_at t p = Inr (LDir st cs)" "names = map fst cs"
    by (auto simp: tree_os_def split: sum.splits ltree.splits)
  have "ltree_at t (child p n) = (case map_of cs n of None \<Rightarrow> Inl ENOENT | Some x \<Rightarrow> Inr x)"
    using ltree_at_child n d by (simp add: real_name_def split: option.splits)
  then show "n \<in> set names \<longleftrightarrow> \<not> stat_absent (tree_os t) (child p n)"
    using d(2) map_of_eq_None_iff [of cs n]
    by (auto simp: stat_absent_def tree_os_def isAbsent_def split: option.splits)
next
  fix p err n
  assume o: "os_opendir (tree_os t) p = Some err" and n: "real_name n"
  have "\<exists>err. ltree_at t (child p n) = Inl err \<and> isAbsent err"
  proof (cases "ltree_at t p")
    case (Inl e)
    then have "isAbsent e" using ltree_walk_absent by (auto simp: ltree_at_def split: if_splits)
    with Inl n show ?thesis by (simp add: ltree_at_child real_name_def)
  next
    case (Inr x)
    with o n show ?thesis
      by (cases x) (auto simp: ltree_at_child real_name_def tree_os_def isAbsent_def)
  qed
  then show "stat_absent (tree_os t) (child p n)" by (auto simp: stat_absent_def tree_os_def)
next
  fix p err
  assume "os_opendir (tree_os t) p = None" "os_readdirnames (tree_os t) p = Inl err"
  then show "\<not> isAbsent err" by (auto simp: tree_os_def split: sum.splits ltree.splits)
qed

section \<open>The merged view\<close>

definition sample_stat :: "u32 \<Rightarrow> i64 \<Rightarrow> stat" where
  "sample_stat mode sz = \<lparr>st_Mode = mode, st_Uid = 1, st_Gid = 2, st_Size = sz, st_AtimSec = 0,
     st_AtimNsec = 0, st_MtimSec = 5, st_MtimNsec = 0\<rparr>"

definition sample_tree :: ltree where
  "sample_tree = LDir (sample_stat 16877 0)
     [(''x'', LFile (sample_stat 33188 5) ''hello''),
      (''d'', LDir (sample_stat 16877 0)
         [(''y'', LFile (sample_stat 33188 3) ''why''), (''z'', LFile (sample_stat 33188 1) ''z'')])]"



text \<open>
  C31. Directory listings agree with lookups: over any consistent lower tree, a name is in the merged
  listing of a directory exactly when looking that name up there does not report absence. The side
  conditions exclude a redirect recorded below a whiteouted directory and a redirect whose lower source
  does not exist.
\<close>

theorem mergedEntries_agree_with_lookup:
  assumes "lower_tree os" and "mergedEntries os u rel = Inr es" and "real_name n"
    and "rel = [] \<or> lowerPath u rel \<noteq> ''.''" and "[] |\<notin>| whiteouts u"
    and "Hidden u rel \<Longrightarrow> Redirected u rel = []"
    and "\<And>src. fmlookup (redirects u) (join rel n) = Some src \<Longrightarrow> \<not> stat_absent os src"
  shows "n \<in> d_Name ` set es \<longleftrightarrow> shown os u (join rel n)"
  using lower_tree.entries_shown [OF assms(1-4) assms(6) assms(5) assms(7)] .

theorem mergedEntries_agree_with_lookup_witness:
  "\<exists>es. mergedEntries (tree_os sample_tree) (New\<lparr>whiteouts := {|''d/y''|}\<rparr>) ''d'' = Inr es \<and>
     (''z'' \<in> d_Name ` set es \<longleftrightarrow> shown (tree_os sample_tree) (New\<lparr>whiteouts := {|''d/y''|}\<rparr>) ''d/z'') \<and>
     (''y'' \<in> d_Name ` set es \<longleftrightarrow> shown (tree_os sample_tree) (New\<lparr>whiteouts := {|''d/y''|}\<rparr>) ''d/y'')"
proof -
  let ?u = "New\<lparr>whiteouts := {|''d/y''|}\<rparr>"
  have "\<not> isl (mergedEntries (tree_os sample_tree) ?u ''d'')" by code_simp
  then obtain es where es: "mergedEntries (tree_os sample_tree) ?u ''d'' = Inr es"
    by (metis isl_def sum.exhaust)
  have low: "''d'' = [] \<or> lowerPath ?u ''d'' \<noteq> ''.''" by code_simp
  have nored: "fmlookup (redirects ?u) p = None" for p by (simp add: New_def)
  have white: "[] |\<notin>| whiteouts ?u" and hid: "Hidden ?u ''d'' \<Longrightarrow> Redirected ?u ''d'' = []"
    by (simp, code_simp)
  have j: "join ''d'' ''z'' = ''d/z''" "join ''d'' ''y'' = ''d/y''" by (simp_all add: join_def)
  have "real_name ''z''" "real_name ''y''" by (simp_all add: real_name_def)
  then show ?thesis
    using mergedEntries_agree_with_lookup [OF tr.lower_tree_axioms es _ low white hid]
      es nored j by (metis option.distinct(1))
qed

text \<open>
  The emptiness test of rmdir and rename agrees with the listing: when the directory can be listed,
  \<open>mergedEmpty\<close> succeeds and says "empty" exactly when the listing has no entries. It can only fail where
  the listing fails too.
\<close>

theorem mergedEmpty_is_empty_listing:
  "(\<forall>es. mergedEntries os u rel = Inr es \<longrightarrow> mergedEmpty os u rel = Inr (es = [])) \<and>
   (\<forall>err. mergedEmpty os u rel = Inl err \<longrightarrow> mergedEntries os u rel = Inl err)"
proof -
  obtain ns white where c: "Children u rel = (ns, white)" by fastforce
  have nil: "merge_names names reds ns white = [] \<longleftrightarrow>
      keys_of ns = [] \<and> (\<forall>n\<in>set reds. n |\<in>| white) \<and> (\<forall>n\<in>set names. n |\<in>| white)" for names reds
  proof -
    have "merge_names names reds ns white = [] \<longleftrightarrow> d_Name ` set (merge_names names reds ns white) = {}"
      by simp
    also have "\<dots> \<longleftrightarrow> fmdom' ns = {} \<and> (\<forall>n\<in>set reds. n |\<in>| white) \<and> (\<forall>n\<in>set names. n |\<in>| white)"
    proof (cases "fmdom' ns = {}")
      case True
      then have "fmlookup ns n = None" for n by (metis fmdom'_notD empty_iff)
      with True show ?thesis unfolding merge_names_set by auto
    next
      case False
      then show ?thesis unfolding merge_names_set by auto
    qed
    also have "fmdom' ns = {} \<longleftrightarrow> keys_of ns = []"
      using set_keys_of [of ns] by (metis set_empty)
    finally show ?thesis .
  qed
  show ?thesis
    unfolding mergedEntries_def mergedEmpty_def c
    by (auto simp: nil list_ex_iff list_all_iff split: sum.splits if_splits)
qed

theorem mergedEmpty_is_empty_listing_witness:
  "mergedEmpty (tree_os sample_tree) (New\<lparr>whiteouts := {|''d/y'', ''d/z''|}\<rparr>) ''d'' = Inr True"
proof -
  have "mergedEntries (tree_os sample_tree) (New\<lparr>whiteouts := {|''d/y'', ''d/z''|}\<rparr>) ''d'' = Inr []"
    by code_simp
  then show ?thesis using mergedEmpty_is_empty_listing by auto
qed

end
