(* ===== verification/Errno.thy ===== *)
theory Errno
  imports Merged
begin

text \<open>
  Go errors and the errno reported to the kernel (\<^verbatim>\<open>internal/fs/errno.go\<close>). A Go error is the list of
  causes \<^verbatim>\<open>errors.Is\<close> and \<^verbatim>\<open>errors.As\<close> visit, outermost first, with its message: wrapping keeps the causes
  and \<^verbatim>\<open>errors.Is(err, target)\<close> is membership. Errno 0 (success) is \<open>None\<close>.
\<close>

datatype cause =
    CErrno errno
  | CLeaseLost \<comment> \<open>\<^verbatim>\<open>session.ErrLeaseLost\<close>\<close>
  | CLogDiverged \<comment> \<open>\<^verbatim>\<open>session.ErrLogDiverged\<close>\<close>
  | CUpper upper_error
  | CNotExist \<comment> \<open>\<^verbatim>\<open>os.ErrNotExist\<close>\<close>
  | CCanceled
  | CDeadline
  | CInvalidBlobID
  | CLocked \<comment> \<open>\<^verbatim>\<open>registry.ErrLocked\<close>\<close>
  | CPlain string

record go_error =
  ge_causes :: "cause list"
  ge_msg :: string

definition plain_error :: "string \<Rightarrow> go_error" where
  "plain_error s = \<lparr>ge_causes = [CPlain s], ge_msg = s\<rparr>"

text \<open>\<^verbatim>\<open>fmt.Errorf("prefix: %w", err)\<close>\<close>

definition wrap_error :: "string \<Rightarrow> go_error \<Rightarrow> go_error" where
  "wrap_error prf err = \<lparr>ge_causes = ge_causes err, ge_msg = prf @ '': '' @ ge_msg err\<rparr>"

fun errno_text :: "errno \<Rightarrow> string" where
  "errno_text EIO = ''input/output error''"
| "errno_text ENOENT = ''no such file or directory''"
| "errno_text ENOTDIR = ''not a directory''"
| "errno_text EACCES = ''permission denied''"
| "errno_text EEXIST = ''file exists''"
| "errno_text ENOTEMPTY = ''directory not empty''"
| "errno_text EISDIR = ''is a directory''"
| "errno_text EINVAL = ''invalid argument''"
| "errno_text EROFS = ''read-only file system''"
| "errno_text EINTR = ''interrupted system call''"
| "errno_text ETIMEDOUT = ''connection timed out''"
| "errno_text ENOTSUP = ''operation not supported''"
| "errno_text (EOther _) = ''errno''"

definition errno_error :: "errno \<Rightarrow> go_error" where
  "errno_error e = \<lparr>ge_causes = [CErrno e], ge_msg = errno_text e\<rparr>"

text \<open>The upper's errors carry their sentinel, except the ones made by a bare \<^verbatim>\<open>fmt.Errorf\<close>.\<close>

definition upper_go_error :: "upper_error \<Rightarrow> go_error" where
  "upper_go_error e = \<lparr>ge_causes = [CUpper e], ge_msg = ''upper''\<rparr>"

fun first_errno :: "cause list \<Rightarrow> errno option" where
  "first_errno [] = None"
| "first_errno (CErrno e # cs) = Some e"
| "first_errno (_ # cs) = first_errno cs"

fun is_ErrExists :: "cause \<Rightarrow> bool" where
  "is_ErrExists (CUpper (ErrExists _)) = True" | "is_ErrExists _ = False"
fun is_ErrNotEmpty :: "cause \<Rightarrow> bool" where
  "is_ErrNotEmpty (CUpper (ErrNotEmpty _)) = True" | "is_ErrNotEmpty _ = False"
fun is_ErrIsDir :: "cause \<Rightarrow> bool" where
  "is_ErrIsDir (CUpper (ErrIsDir _)) = True" | "is_ErrIsDir _ = False"
fun is_ErrNotDir :: "cause \<Rightarrow> bool" where
  "is_ErrNotDir (CUpper (ErrNotDir _)) = True" | "is_ErrNotDir _ = False"
fun is_ErrInvalid :: "cause \<Rightarrow> bool" where
  "is_ErrInvalid (CUpper (ErrNotFile _)) = True"
| "is_ErrInvalid (CUpper (ErrInvalidPath _)) = True"
| "is_ErrInvalid _ = False"
fun is_ErrNoEntry :: "cause \<Rightarrow> bool" where
  "is_ErrNoEntry (CUpper (ErrNoEntry _)) = True" | "is_ErrNoEntry CNotExist = True" | "is_ErrNoEntry _ = False"

definition mapErrno :: "go_error option \<Rightarrow> errno option" where
  "mapErrno merr =
     (case merr of
        None \<Rightarrow> None
      | Some err \<Rightarrow>
          let cs = ge_causes err
          in case first_errno cs of
               Some e \<Rightarrow> Some e
             | None \<Rightarrow> Some
                 (if CLeaseLost \<in> set cs \<or> CLogDiverged \<in> set cs then EROFS
                  else if list_ex is_ErrExists cs then EEXIST
                  else if list_ex is_ErrNotEmpty cs then ENOTEMPTY
                  else if list_ex is_ErrIsDir cs then EISDIR
                  else if list_ex is_ErrNotDir cs then ENOTDIR
                  else if list_ex is_ErrInvalid cs then EINVAL
                  else if list_ex is_ErrNoEntry cs then ENOENT
                  else if CCanceled \<in> set cs then EINTR
                  else if CDeadline \<in> set cs then ETIMEDOUT
                  else EIO))"

definition errnoOf :: "go_error \<Rightarrow> errno" where
  "errnoOf err =
     (let mapped = the (mapErrno (Some err))
      in if mapped = EIO \<and> sublist ''no such file'' (ge_msg err) then ENOENT else mapped)"

definition commitErrno :: "go_error option \<Rightarrow> errno option" where
  "commitErrno merr = (case merr of None \<Rightarrow> None | Some err \<Rightarrow> mapErrno (Some err))"

lemma mapErrno_Some: "\<exists>e. mapErrno (Some err) = Some e"
  by (simp add: mapErrno_def Let_def split: option.splits)

lemma errnoOf_errno [simp]: "errnoOf (errno_error e) = e"
proof -
  have "\<not> sublist ''no such file'' ''input/output error''" by code_simp
  then show ?thesis by (cases e) (simp_all add: errnoOf_def mapErrno_def errno_error_def)
qed

end
