(* ===== verification/Config_Ids.thy ===== *)
theory Config_Ids
  imports Errno
begin

text \<open>
  Identifier checks (\<^verbatim>\<open>internal/config/ids.go\<close>). Session, lower and blob ids are pasted into object keys
  and local paths; the checks are what keeps them inside their place.
\<close>

definition maxIDLen :: nat where
  "maxIDLen = 128"

definition id_char :: "char \<Rightarrow> bool" where
  "id_char c \<longleftrightarrow> byte_in c 97 122 \<or> byte_in c 65 90 \<or> byte_in c 48 57 \<or>
     c = CHR ''-'' \<or> c = CHR ''_'' \<or> c = CHR ''.''"

fun first_bad_char :: "string \<Rightarrow> char option" where
  "first_bad_char [] = None"
| "first_bad_char (c # cs) = (if id_char c then first_bad_char cs else Some c)"

definition ValidateID :: "string \<Rightarrow> string \<Rightarrow> go_error option" where
  "ValidateID kind i =
     (if i = [] then Some (plain_error (''config: '' @ kind @ '' is empty''))
      else if maxIDLen < length i then Some (plain_error (''config: '' @ kind @ '' is longer than 128 bytes''))
      else if i = ''.'' \<or> i = ''..'' then Some (plain_error (''config: '' @ kind @ '' is a path traversal''))
      else case first_bad_char i of
             Some c \<Rightarrow> Some (plain_error (''config: '' @ kind @ '' contains an illegal character''))
           | None \<Rightarrow> None)"

definition hex_char :: "char \<Rightarrow> bool" where
  "hex_char c \<longleftrightarrow> byte_in c 48 57 \<or> byte_in c 97 102"

definition invalid_blob_id :: "string \<Rightarrow> go_error" where
  "invalid_blob_id m = \<lparr>ge_causes = [CInvalidBlobID], ge_msg = m\<rparr>"

definition ValidateBlobID :: "string \<Rightarrow> go_error option" where
  "ValidateBlobID blobID =
     (if length blobID \<noteq> 64 then Some (invalid_blob_id ''config: invalid blob id: want 64 hex chars'')
      else if list_all hex_char blobID then None
      else Some (invalid_blob_id ''config: invalid blob id: not lowercase hex''))"

lemma first_bad_char_None: "first_bad_char s = None \<longleftrightarrow> (\<forall>c\<in>set s. id_char c)"
  by (induction s) auto

definition valid_id :: "string \<Rightarrow> bool" where
  "valid_id i \<longleftrightarrow> i \<noteq> [] \<and> length i \<le> maxIDLen \<and> i \<noteq> ''.'' \<and> i \<noteq> ''..'' \<and> (\<forall>c\<in>set i. id_char c)"

lemma ValidateID_None: "ValidateID kind i = None \<longleftrightarrow> valid_id i"
  by (auto simp: ValidateID_def valid_id_def first_bad_char_None [symmetric] split: option.splits)

lemma ValidateBlobID_None:
  "ValidateBlobID b = None \<longleftrightarrow> length b = 64 \<and> (\<forall>c\<in>set b. hex_char c)"
  by (auto simp: ValidateBlobID_def list_all_iff)

lemma id_char_slash: "\<not> id_char slash"
  by (simp add: id_char_def byte_in_def)

lemma hex_char_id: "hex_char c \<Longrightarrow> id_char c"
  by (auto simp: hex_char_def id_char_def byte_in_def)

lemma id_char_ascii: "id_char c \<Longrightarrow> byte_of c < 128"
  by (auto simp: id_char_def byte_in_def)

lemma valid_id_no_slash: "valid_id i \<Longrightarrow> slash \<notin> set i"
  using id_char_slash by (auto simp: valid_id_def)

text \<open>
  C40. A checked id is one harmless path component: it has between 1 and 128 printable ASCII characters
  without any separator, is neither the current nor the parent directory, and is accepted as a path of
  its own by the overlay's path rules. A checked blob id satisfies the same rules.
\<close>

theorem validated_id_is_one_component:
  assumes "ValidateID kind i = None \<or> ValidateBlobID i = None"
  shows "split_slash i = [i] \<and> norm_path i \<and> 0 < length i \<and> length i \<le> 128 \<and>
    (\<forall>c\<in>set i. 33 \<le> byte_of c \<and> byte_of c \<le> 126)"
proof -
  have id: "valid_id i"
    using assms hex_char_id
    by (auto simp: ValidateID_None ValidateBlobID_None valid_id_def maxIDLen_def)
  then have one: "split_slash i = [i]" using valid_id_no_slash split_slash_plain by blast
  have "valid_utf8 i" using id id_char_ascii by (intro valid_utf8_ascii) (auto simp: valid_id_def)
  with id one have "norm_path i" by (simp add: norm_path_def valid_id_def)
  moreover have "\<forall>c\<in>set i. 33 \<le> byte_of c \<and> byte_of c \<le> 126"
    using id by (auto simp: valid_id_def id_char_def byte_in_def)
  ultimately show ?thesis using id one by (simp add: valid_id_def maxIDLen_def)
qed

theorem validated_id_is_one_component_witness:
  "norm_path ''a-1_b.c'' \<and> split_slash ''a-1_b.c'' = [''a-1_b.c'']"
proof -
  have "ValidateID ''session id'' ''a-1_b.c'' = None" by code_simp
  then show ?thesis using validated_id_is_one_component by blast
qed

end
