(* ===== verification/Json.thy ===== *)
theory Json
  imports Kf_Prelude
begin

text \<open>
  JSON values as Go's \<^verbatim>\<open>encoding/json\<close> produces and reads them. A value is the tree; the text between
  \<^verbatim>\<open>Marshal\<close> and \<^verbatim>\<open>Unmarshal\<close> is not modelled. \<open>JBytes\<close> is a \<^verbatim>\<open>[]byte\<close> field (base64 text in the file) and a
  \<^verbatim>\<open>time.Time\<close> is its instant as a number. \<open>json_string\<close> is the one lossy step of the encoder: a string that
  is not valid UTF-8 has its bad bytes replaced.

  Decoding follows \<^verbatim>\<open>json.Unmarshal\<close> into a zero struct: an absent or null field keeps the zero value, a
  repeated field is decoded last-wins, unknown fields are ignored, a value of the wrong type or a number
  out of range is an error (\<open>None\<close>).
\<close>

datatype json =
    JNull
  | JBool bool
  | JNum int
  | JStr string
  | JBytes bytes
  | JArr "json list"
  | JObj "(string \<times> json) list"

text \<open>
  The replacement character U+FFFD for every byte that starts no well-formed sequence. A prefix of
  length \<open>k\<close> that is valid UTF-8 and not longer than one encoded character is copied.
\<close>

definition replacement_char :: string where
  "replacement_char = [CHR 0xEF, CHR 0xBF, CHR 0xBD]"

fun utf8_fix :: "nat \<Rightarrow> string \<Rightarrow> string" where
  "utf8_fix _ [] = []"
| "utf8_fix 0 (c # cs) = c # cs"
| "utf8_fix (Suc n) (c # cs) =
     (if valid_utf8 (take 1 (c # cs)) then take 1 (c # cs) @ utf8_fix n (drop 1 (c # cs))
      else if valid_utf8 (take 2 (c # cs)) then take 2 (c # cs) @ utf8_fix n (drop 2 (c # cs))
      else if valid_utf8 (take 3 (c # cs)) then take 3 (c # cs) @ utf8_fix n (drop 3 (c # cs))
      else if valid_utf8 (take 4 (c # cs)) then take 4 (c # cs) @ utf8_fix n (drop 4 (c # cs))
      else replacement_char @ utf8_fix n cs)"

definition json_string :: "string \<Rightarrow> json" where
  "json_string s = JStr (if valid_utf8 s then s else utf8_fix (length s) s)"

lemma json_string_valid [simp]: "valid_utf8 s \<Longrightarrow> json_string s = JStr s"
  by (simp add: json_string_def)

section \<open>Objects\<close>

definition jfield :: "string \<Rightarrow> json \<Rightarrow> json" where
  "jfield k j = (case j of JObj fs \<Rightarrow> (case map_of (rev fs) k of None \<Rightarrow> JNull | Some v \<Rightarrow> v) | _ \<Rightarrow> JNull)"

definition is_obj :: "json \<Rightarrow> bool" where
  "is_obj j \<longleftrightarrow> (case j of JObj _ \<Rightarrow> True | JNull \<Rightarrow> True | _ \<Rightarrow> False)"

text \<open>\<^verbatim>\<open>omitempty\<close>: the field is written only when \<open>keep\<close> holds.\<close>

definition omit_unless :: "bool \<Rightarrow> string \<Rightarrow> json \<Rightarrow> (string \<times> json) list" where
  "omit_unless keep k v = (if keep then [(k, v)] else [])"

section \<open>Decoding the basic types\<close>

definition dec_num :: "int \<Rightarrow> int \<Rightarrow> json \<Rightarrow> int option" where
  "dec_num lo hi j =
     (case j of JNull \<Rightarrow> Some 0 | JNum n \<Rightarrow> if lo \<le> n \<and> n \<le> hi then Some n else None | _ \<Rightarrow> None)"

definition dec_u32 :: "json \<Rightarrow> u32 option" where
  "dec_u32 j = map_option word_of_int (dec_num 0 (2 ^ 32 - 1) j)"

definition dec_u64 :: "json \<Rightarrow> u64 option" where
  "dec_u64 j = map_option word_of_int (dec_num 0 (2 ^ 64 - 1) j)"

definition dec_i64 :: "json \<Rightarrow> i64 option" where
  "dec_i64 j = map_option word_of_int (dec_num (- (2 ^ 63)) (2 ^ 63 - 1) j)"

definition dec_bool :: "json \<Rightarrow> bool option" where
  "dec_bool j = (case j of JNull \<Rightarrow> Some False | JBool b \<Rightarrow> Some b | _ \<Rightarrow> None)"

definition dec_str :: "json \<Rightarrow> string option" where
  "dec_str j = (case j of JNull \<Rightarrow> Some [] | JStr s \<Rightarrow> Some s | _ \<Rightarrow> None)"

definition dec_bytes :: "json \<Rightarrow> bytes option" where
  "dec_bytes j = (case j of JNull \<Rightarrow> Some [] | JBytes b \<Rightarrow> Some b | _ \<Rightarrow> None)"

text \<open>A pointer field: null or absent is \<^verbatim>\<open>nil\<close>.\<close>

definition dec_ptr :: "(json \<Rightarrow> 'a option) \<Rightarrow> json \<Rightarrow> 'a option option" where
  "dec_ptr f j = (if j = JNull then Some None else map_option Some (f j))"

fun dec_all :: "(json \<Rightarrow> 'a option) \<Rightarrow> json list \<Rightarrow> 'a list option" where
  "dec_all f [] = Some []"
| "dec_all f (j # js) =
     (case f j of None \<Rightarrow> None | Some x \<Rightarrow> map_option (\<lambda>xs. x # xs) (dec_all f js))"

definition dec_list :: "(json \<Rightarrow> 'a option) \<Rightarrow> json \<Rightarrow> 'a list option" where
  "dec_list f j = (case j of JNull \<Rightarrow> Some [] | JArr js \<Rightarrow> dec_all f js | _ \<Rightarrow> None)"

section \<open>Encoding and decoding are inverse\<close>

definition enc_u :: "'a::len word \<Rightarrow> json" where "enc_u w = JNum (uint w)"
definition enc_i :: "i64 \<Rightarrow> json" where "enc_i w = JNum (sint w)"

lemma dec_enc_u [simp]: "dec_u32 (enc_u w) = Some w" "dec_u64 (enc_u v) = Some v"
  using uint_lt2p [of w] uint_lt2p [of v]
  by (simp_all add: dec_u32_def dec_u64_def enc_u_def dec_num_def)

lemma dec_enc_i [simp]: "dec_i64 (enc_i w) = Some w"
  using sint_range [of w] by (simp add: dec_i64_def enc_i_def dec_num_def)

lemma dec_enc_simple [simp]:
  "dec_bool (JBool t) = Some t" "dec_str (JStr s) = Some s" "dec_bytes (JBytes b) = Some b"
  by (simp_all add: dec_bool_def dec_str_def dec_bytes_def)

lemma dec_null [simp]:
  "dec_u32 JNull = Some 0" "dec_u64 JNull = Some 0" "dec_i64 JNull = Some 0"
  "dec_bool JNull = Some False" "dec_str JNull = Some []" "dec_bytes JNull = Some []"
  "dec_list f JNull = Some []" "dec_ptr f JNull = Some None"
  by (simp_all add: dec_u32_def dec_u64_def dec_i64_def dec_num_def dec_bool_def dec_str_def
      dec_bytes_def dec_list_def dec_ptr_def)

lemma dec_all_map:
  "(\<And>x. x \<in> set xs \<Longrightarrow> f (g x) = Some x) \<Longrightarrow> dec_all f (map g xs) = Some xs"
  by (induction xs) auto

lemma dec_list_map [simp]:
  "(\<And>x. x \<in> set xs \<Longrightarrow> f (g x) = Some x) \<Longrightarrow> dec_list f (JArr (map g xs)) = Some xs"
  by (simp add: dec_list_def dec_all_map)

lemma enc_not_null [simp]: "enc_u w \<noteq> JNull" "enc_i i \<noteq> JNull"
  by (simp_all add: enc_u_def enc_i_def)

lemma jfield_simps [simp]:
  "jfield k (JObj []) = JNull"
  "jfield k (JObj (fs @ [(k', v)])) = (if k' = k then v else jfield k (JObj fs))"
  by (simp_all add: jfield_def)

end
