(* ===== verification/Object_Store.thy ===== *)
theory Object_Store
  imports Config_Ids Json
begin

text \<open>
  Object storage: the S3 calls the program makes (a record of operations over a store state of any type),
  \<^verbatim>\<open>internal/s3util/s3util.go\<close> on top of them, the contract \<open>kv_store\<close> the registry and the blob store rely
  on, and \<^verbatim>\<open>internal/s3fake/s3fake.go\<close>, the repository's in-memory S3, which satisfies it.

  An object is raw bytes or a JSON document. A listing is the sequence of pages the SDK's paginator
  would return.
\<close>

section \<open>The S3 client\<close>

datatype body = Raw bytes | Doc json

text \<open>What \<open>IsNotFound\<close> looks at: the typed errors, the API error code and the HTTP status.\<close>

record s3_error =
  x_NoSuchKey :: bool
  x_NotFound :: bool
  x_Code :: "string option"
  x_Status :: "nat option"
  x_err :: go_error

record 's object_store =
  st_Put :: "'s \<Rightarrow> string \<Rightarrow> body \<Rightarrow> go_error option \<times> 's"
  st_Get :: "'s \<Rightarrow> string \<Rightarrow> (s3_error + (go_error + body)) \<times> 's" \<comment> \<open>request error, or the body read\<close>
  st_Delete :: "'s \<Rightarrow> string \<Rightarrow> s3_error option \<times> 's"
  st_List :: "'s \<Rightarrow> string \<Rightarrow> (go_error + string list) list"
  st_Ctx :: "'s \<Rightarrow> go_error option" \<comment> \<open>the request context's error, once it is cancelled\<close>

definition IsNotFound :: "s3_error \<Rightarrow> bool" where
  "IsNotFound e =
     (if x_NoSuchKey e then True
      else if x_NotFound e then True
      else case x_Code e of
        Some code \<Rightarrow>
          if code = ''NoSuchKey'' \<or> code = ''NotFound'' \<or> code = ''404'' then True
          else if code = ''NoSuchBucket'' then False
          else x_Status e = Some 404
      | None \<Rightarrow> x_Status e = Some 404)"

definition untyped_s3_error :: "go_error \<Rightarrow> s3_error" where
  "untyped_s3_error e = \<lparr>x_NoSuchKey = False, x_NotFound = False, x_Code = None, x_Status = None, x_err = e\<rparr>"

lemma not_found_untyped [simp]: "\<not> IsNotFound (untyped_s3_error e)"
  by (simp add: IsNotFound_def untyped_s3_error_def)

definition PutBytes :: "'s object_store \<Rightarrow> 's \<Rightarrow> string \<Rightarrow> body \<Rightarrow> go_error option \<times> 's" where
  "PutBytes st s key data = st_Put st s key data"

definition s3_maxAttempts :: nat where
  "s3_maxAttempts = 5"

text \<open>The wait before a further attempt ends with the context's error or with the timer.\<close>

definition sleepBackoff :: "'s object_store \<Rightarrow> 's \<Rightarrow> go_error option" where
  "sleepBackoff st s = st_Ctx st s"

text \<open>The download loop with \<open>n\<close> attempts left.\<close>

fun get_loop :: "'s object_store \<Rightarrow> string \<Rightarrow> nat \<Rightarrow> go_error \<Rightarrow> 's \<Rightarrow> (s3_error + body) \<times> 's" where
  "get_loop st key 0 lastErr s = (Inl (untyped_s3_error (wrap_error ''s3util: read body'' lastErr)), s)"
| "get_loop st key (Suc n) lastErr s =
     (case (if Suc n < s3_maxAttempts then sleepBackoff st s else None) of
        Some err \<Rightarrow> (Inl (untyped_s3_error err), s)
      | None \<Rightarrow>
          (case st_Get st s key of
             (Inl err, s') \<Rightarrow> (Inl err, s')
           | (Inr (Inr data), s') \<Rightarrow> (Inr data, s')
           | (Inr (Inl err), s') \<Rightarrow>
               if st_Ctx st s' \<noteq> None then (Inl (untyped_s3_error err), s')
               else get_loop st key n err s'))"

definition GetBytes :: "'s object_store \<Rightarrow> 's \<Rightarrow> string \<Rightarrow> (s3_error + body) \<times> 's" where
  "GetBytes st s key = get_loop st key s3_maxAttempts (plain_error []) s"

definition Delete :: "'s object_store \<Rightarrow> 's \<Rightarrow> string \<Rightarrow> go_error option \<times> 's" where
  "Delete st s key =
     (case st_Delete st s key of
        (Some err, s') \<Rightarrow> (if \<not> IsNotFound err then Some (x_err err) else None, s')
      | (None, s') \<Rightarrow> (None, s'))"

section \<open>The contract\<close>

locale kv_store =
  fixes st :: "'s object_store" and content :: "'s \<Rightarrow> string \<Rightarrow> body option" and healthy :: "'s \<Rightarrow> bool"
  assumes put_ok: "healthy s \<Longrightarrow> st_Put st s k v = (None, s') \<Longrightarrow>
      healthy s' \<and> content s' = (content s)(k \<mapsto> v)"
    and put_failed: "healthy s \<Longrightarrow> st_Put st s k v = (Some err, s') \<Longrightarrow>
      healthy s' \<and> (content s' = content s \<or> content s' = (content s)(k \<mapsto> v))"
    and get_any: "healthy s \<Longrightarrow> st_Get st s k = (reply, s') \<Longrightarrow> healthy s' \<and> content s' = content s"
    and get_body: "healthy s \<Longrightarrow> st_Get st s k = (Inr x, s') \<Longrightarrow>
      content s k \<noteq> None \<and> (\<forall>b. x = Inr b \<longrightarrow> content s k = Some b)"
    and get_absent: "healthy s \<Longrightarrow> st_Get st s k = (Inl xerr, s') \<Longrightarrow> IsNotFound xerr \<Longrightarrow> content s k = None"
    and delete_ok: "healthy s \<Longrightarrow> st_Delete st s k = (dres, s') \<Longrightarrow> dres = None \<or> IsNotFound (the dres) \<Longrightarrow>
      healthy s' \<and> content s' = (content s)(k := None)"
    and list_keys: "healthy s \<Longrightarrow> map Inr pages = st_List st s pre \<Longrightarrow>
      set (concat pages) = {k. content s k \<noteq> None \<and> prefix pre k}"
begin

lemma GetBytes_Inr:
  assumes "healthy s" and "GetBytes st s k = (Inr b, s')"
  shows "content s k = Some b" and "healthy s'" and "content s' = content s"
proof -
  have "get_loop st k n e s = (Inr b, s') \<Longrightarrow> healthy s \<Longrightarrow>
      content s k = Some b \<and> healthy s' \<and> content s' = content s" for n e s
  proof (induction n arbitrary: e s)
    case (Suc n)
    obtain r s1 where g: "st_Get st s k = (r, s1)" by fastforce
    have s1: "healthy s1" "content s1 = content s" using get_any [OF Suc.prems(2) g] by auto
    show ?case
    proof (cases r)
      case (Inr x)
      then show ?thesis
      proof (cases x)
        case (Inl e2)
        then show ?thesis using Suc.IH [of e2 s1] Suc.prems g s1 Inr
          by (auto split: option.splits if_splits)
      next
        case (Inr y)
        then show ?thesis
          using Suc.prems g s1 \<open>r = Inr x\<close> get_body [OF Suc.prems(2), of k x s1]
          by (auto split: option.splits if_splits)
      qed
    qed (use Suc.prems g in \<open>simp split: option.splits if_splits\<close>)
  qed simp
  then show "content s k = Some b" "healthy s'" "content s' = content s"
    using assms unfolding GetBytes_def by blast+
qed

lemma GetBytes_Inl:
  assumes "healthy s" and "GetBytes st s k = (Inl err, s')"
  shows "healthy s'" and "content s' = content s" and "IsNotFound err \<Longrightarrow> content s k = None"
proof -
  have "get_loop st k n e s = (Inl err, s') \<Longrightarrow> healthy s \<Longrightarrow>
      healthy s' \<and> content s' = content s \<and> (IsNotFound err \<longrightarrow> content s k = None)" for n e s
  proof (induction n arbitrary: e s)
    case 0
    then show ?case by auto
  next
    case (Suc n)
    obtain r s1 where g: "st_Get st s k = (r, s1)" by fastforce
    have s1: "healthy s1" "content s1 = content s" using get_any [OF Suc.prems(2) g] by auto
    show ?case
    proof (cases r)
      case (Inl x)
      then show ?thesis
        using Suc g s1 get_absent [OF Suc.prems(2), of k x s1]
        by (auto split: option.splits if_splits)
    next
      case (Inr x)
      then show ?thesis
      proof (cases x)
        case (Inl e2)
        then show ?thesis using Suc.IH [of e2 s1] Suc.prems g s1 Inr
          by (auto split: option.splits if_splits)
      qed (use Suc.prems g Inr in \<open>auto split: option.splits if_splits\<close>)
    qed
  qed
  then show "healthy s'" "content s' = content s" "IsNotFound err \<Longrightarrow> content s k = None"
    using assms unfolding GetBytes_def by blast+
qed

end

section \<open>The in-memory S3\<close>

record s3fake =
  fk_objects :: "(string, body) fmap"
  fk_failPut :: bool
  fk_corrupt :: "(string, body) fmap"
  fk_truncateGets :: nat

definition fake_put :: "s3fake \<Rightarrow> string \<Rightarrow> body \<Rightarrow> go_error option \<times> s3fake" where
  "fake_put s key data =
     (if fk_failPut s then (Some (plain_error ''InternalError''), s)
      else (None, s\<lparr>fk_objects := fmupd key data (fk_objects s)\<rparr>))"

definition fake_no_such_key :: s3_error where
  "fake_no_such_key = \<lparr>x_NoSuchKey = True, x_NotFound = False, x_Code = Some ''NoSuchKey'',
     x_Status = Some 404, x_err = plain_error ''NoSuchKey''\<rparr>"

definition fake_get :: "s3fake \<Rightarrow> string \<Rightarrow> (s3_error + (go_error + body)) \<times> s3fake" where
  "fake_get s key =
     (let data = (case fmlookup (fk_corrupt s) key of
                    Some bad \<Rightarrow> Some bad
                  | None \<Rightarrow> fmlookup (fk_objects s) key);
          truncate = 0 < fk_truncateGets s;
          s' = (if truncate then s\<lparr>fk_truncateGets := fk_truncateGets s - 1\<rparr> else s)
      in case data of
           None \<Rightarrow> (Inl fake_no_such_key, s')
         | Some d \<Rightarrow>
             if truncate then (Inr (Inl (plain_error ''unexpected EOF'')), s')
             else (Inr (Inr d), s'))"

definition fake_delete :: "s3fake \<Rightarrow> string \<Rightarrow> s3_error option \<times> s3fake" where
  "fake_delete s key = (None, s\<lparr>fk_objects := fmdrop key (fk_objects s)\<rparr>)"

definition fake_list :: "s3fake \<Rightarrow> string \<Rightarrow> (go_error + string list) list" where
  "fake_list s pre = [Inr (filter (\<lambda>k. HasPrefix k pre) (keys_of (fk_objects s)))]"

definition fake_store :: "s3fake object_store" where
  "fake_store = \<lparr>st_Put = fake_put, st_Get = fake_get, st_Delete = fake_delete, st_List = fake_list, st_Ctx = (\<lambda>_. None)\<rparr>"

interpretation fk: kv_store fake_store "\<lambda>s. fmlookup (fk_objects s)" "\<lambda>s. fk_corrupt s = fmempty"
proof
  fix s k v s'
  assume "fk_corrupt s = fmempty" "st_Put fake_store s k v = (None, s')"
  then show "fk_corrupt s' = fmempty \<and> fmlookup (fk_objects s') = (fmlookup (fk_objects s))(k \<mapsto> v)"
    by (auto simp: fake_store_def fake_put_def split: if_splits)
next
  fix s k v err s'
  assume "fk_corrupt s = fmempty" "st_Put fake_store s k v = (Some err, s')"
  then show "fk_corrupt s' = fmempty \<and>
      (fmlookup (fk_objects s') = fmlookup (fk_objects s) \<or>
       fmlookup (fk_objects s') = (fmlookup (fk_objects s))(k \<mapsto> v))"
    by (auto simp: fake_store_def fake_put_def split: if_splits)
next
  fix s k r s'
  assume "fk_corrupt s = fmempty" "st_Get fake_store s k = (r, s')"
  then show "fk_corrupt s' = fmempty \<and> fmlookup (fk_objects s') = fmlookup (fk_objects s)"
    by (auto simp: fake_store_def fake_get_def Let_def split: if_splits option.splits)
next
  fix s k r s'
  assume "fk_corrupt s = fmempty" "st_Get fake_store s k = (Inr r, s')"
  then show "fmlookup (fk_objects s) k \<noteq> None \<and> (\<forall>b. r = Inr b \<longrightarrow> fmlookup (fk_objects s) k = Some b)"
    by (auto simp: fake_store_def fake_get_def Let_def split: if_splits option.splits)
next
  fix s k err s'
  assume "fk_corrupt s = fmempty" "st_Get fake_store s k = (Inl err, s')"
  then show "fmlookup (fk_objects s) k = None"
    by (auto simp: fake_store_def fake_get_def Let_def split: if_splits option.splits)
next
  fix s k r s'
  assume "fk_corrupt s = fmempty" "st_Delete fake_store s k = (r, s')"
  then show "fk_corrupt s' = fmempty \<and> fmlookup (fk_objects s') = (fmlookup (fk_objects s))(k := None)"
    by (auto simp: fake_store_def fake_delete_def fun_eq_iff)
next
  fix s pages pre
  assume "fk_corrupt s = fmempty" "map Inr pages = st_List fake_store s pre"
  then show "set (concat pages) = {k. fmlookup (fk_objects s) k \<noteq> None \<and> prefix pre k}"
    by (auto simp: fake_store_def fake_list_def map_eq_Cons_conv fmlookup_dom'_iff)
qed

end
