(* ===== verification/Session.thy ===== *)
theory Session
  imports Errno
begin

text \<open>
  The commit pipeline of a session (\<^verbatim>\<open>internal/session/session.go\<close>). The change log and the blob store are
  the Go interfaces \<^verbatim>\<open>EventLog\<close> and \<^verbatim>\<open>BlobPutter\<close>: records of operations over a state of any type, which
  the operations pass on. Whatever decides the outcome of a call (network, broker) is part of that state.

  \<open>commitLocked\<close> runs under the session's mutex, so it is one atomic step; the fencing flags it tests are
  set by other goroutines between steps.
\<close>

section \<open>Interfaces and state\<close>

record 'l event_log =
  el_Append :: "'l \<Rightarrow> envelope \<Rightarrow> (go_error + i64) \<times> 'l"
  el_ReadSessionTo :: "'l \<Rightarrow> string \<Rightarrow> i64 \<Rightarrow> i64 \<Rightarrow> go_error + (envelope list \<times> i64)"

record 'b blob_putter =
  bp_Put :: "'b \<Rightarrow> bytes \<Rightarrow> (go_error + string) \<times> 'b"

record session_meta =
  sm_ID :: string
  sm_LowerID :: string
  sm_Lineage :: "lineage option"
  sm_CreatedAt :: int

record session =
  Meta :: session_meta
  s_upper :: upper
  s_seq :: u64
  lastOffset :: i64
  s_lowerID :: string
  leaseLost :: bool
  diverged :: bool
  savedOffset :: i64
  ckptInFlight :: bool

definition checkpointEveryEvents :: u64 where
  "checkpointEveryEvents = 100"

section \<open>Commit\<close>

definition err_lease_lost :: go_error where
  "err_lease_lost = \<lparr>ge_causes = [CLeaseLost], ge_msg = ''session: lease lost''\<rparr>"

definition err_log_diverged :: go_error where
  "err_log_diverged = \<lparr>ge_causes = [CLogDiverged], ge_msg = ''session: log diverged''\<rparr>"

text \<open>\<^verbatim>\<open>fmt.Errorf("%w: %w", ErrLogDiverged, err)\<close>\<close>

definition diverged_by :: "go_error \<Rightarrow> go_error" where
  "diverged_by err = \<lparr>ge_causes = CLogDiverged # ge_causes err,
     ge_msg = ''session: log diverged: '' @ ge_msg err\<rparr>"

definition refuseIfFenced :: "session \<Rightarrow> go_error option" where
  "refuseIfFenced s =
     (if leaseLost s then Some err_lease_lost
      else if diverged s then Some err_log_diverged
      else None)"

definition norm_error :: "string \<Rightarrow> go_error option" where
  "norm_error p = (case NormalizePath p of Inl e \<Rightarrow> Some (upper_go_error e) | Inr _ \<Rightarrow> None)"

fun norm_errors :: "string list \<Rightarrow> go_error option" where
  "norm_errors [] = None"
| "norm_errors (p # ps) = (case norm_error p of Some e \<Rightarrow> Some e | None \<Rightarrow> norm_errors ps)"

definition validateEventPaths :: "envelope \<Rightarrow> go_error option" where
  "validateEventPaths ev =
     (case Op ev of
        None \<Rightarrow> Some (plain_error ''unknown op'')
      | Some op \<Rightarrow> norm_errors (op_paths op))"

definition commitLocked ::
    "'l event_log \<Rightarrow> envelope \<Rightarrow> session \<Rightarrow> 'l \<Rightarrow> (go_error + bool) \<times> session \<times> 'l" where
  "commitLocked elog ev s l =
     (case refuseIfFenced s of
        Some err \<Rightarrow> (Inl err, s, l)
      | None \<Rightarrow>
          (case Check (s_upper s) ev of
             Some e \<Rightarrow> (Inl (wrap_error ''session: invalid event'' (upper_go_error e)), s, l)
           | None \<Rightarrow>
               let s1 = s\<lparr>s_seq := s_seq s + 1\<rparr>;
                   ev1 = ev\<lparr>Seq := s_seq s1\<rparr>
               in case el_Append elog l ev1 of
                    (Inl err, l') \<Rightarrow>
                      (Inl (diverged_by err), s1\<lparr>diverged := True, lastOffset := - 1\<rparr>, l')
                  | (Inr off, l') \<Rightarrow>
                      let s2 = s1\<lparr>lastOffset := off\<rparr>
                      in (case Apply (s_upper s2) ev1 of
                            Inl e \<Rightarrow> (Inl (wrap_error ''session: apply after commit'' (upper_go_error e)), s2, l')
                          | Inr u \<Rightarrow>
                              (Inr (s_seq s2 mod checkpointEveryEvents = 0), s2\<lparr>s_upper := u\<rparr>, l'))))"

text \<open>
  \<open>commit\<close> returns the error, whether it started an asynchronous checkpoint, and the new state. The
  compare-and-swap of \<^verbatim>\<open>ckptInFlight\<close> starts at most one.
\<close>

definition commit ::
    "'l event_log \<Rightarrow> envelope \<Rightarrow> session \<Rightarrow> 'l \<Rightarrow> go_error option \<times> bool \<times> session \<times> 'l" where
  "commit elog ev s l =
     (case refuseIfFenced s of
        Some err \<Rightarrow> (Some err, False, s, l)
      | None \<Rightarrow>
          (case validateEventPaths ev of
             Some err \<Rightarrow> (Some (wrap_error ''session: invalid event'' err), False, s, l)
           | None \<Rightarrow>
               (case commitLocked elog ev s l of
                  (Inl err, s', l') \<Rightarrow> (Some err, False, s', l')
                | (Inr need, s', l') \<Rightarrow>
                    if need \<and> \<not> ckptInFlight s' then (None, True, s'\<lparr>ckptInFlight := True\<rparr>, l')
                    else (None, False, s', l'))))"

definition commitOp ::
    "'l event_log \<Rightarrow> i64 \<Rightarrow> event_op \<Rightarrow> session \<Rightarrow> 'l \<Rightarrow> go_error option \<times> bool \<times> session \<times> 'l" where
  "commitOp elog now op s l = commit elog (NewEnvelope now (sm_ID (Meta s)) (s_lowerID s) op) s l"

definition preflightWrite :: "session \<Rightarrow> path \<Rightarrow> go_error option" where
  "preflightWrite s p =
     (case refuseIfFenced s of
        Some err \<Rightarrow> Some err
      | None \<Rightarrow>
          (case norm_error p of
             Some e \<Rightarrow> Some (wrap_error ''session: invalid event'' e)
           | None \<Rightarrow> None))"

definition CommitCreate where
  "CommitCreate elog now p mode uid gid =
     commitOp elog now (Create \<lparr>cr_Path = p, cr_Mode = mode, cr_Uid = uid, cr_Gid = gid\<rparr>)"

definition CommitUnlink where
  "CommitUnlink elog now p = commitOp elog now (Unlink p)"

definition CommitMkdir where
  "CommitMkdir elog now p mode uid gid =
     commitOp elog now (Mkdir \<lparr>mk_Path = p, mk_Mode = mode, mk_Uid = uid, mk_Gid = gid\<rparr>)"

definition CommitRmdir where
  "CommitRmdir elog now p = commitOp elog now (Rmdir p)"

definition CommitSymlink where
  "CommitSymlink elog now p target uid gid =
     commitOp elog now (Symlink \<lparr>sy_Path = p, sy_Target = target, sy_Uid = uid, sy_Gid = gid\<rparr>)"

definition CommitSetattr where
  "CommitSetattr elog now sa = commitOp elog now (Setattr sa)"

definition CommitRename where
  "CommitRename elog now from to fromLower =
     commitOp elog now (Rename \<lparr>rn_From = from, rn_To = to, rn_FromLower = fromLower\<rparr>)"

text \<open>A write uploads its bytes first; the blob store's state is threaded beside the log's.\<close>

definition CommitSparseWrite ::
    "'l event_log \<Rightarrow> 'b blob_putter \<Rightarrow> i64 \<Rightarrow> path \<Rightarrow> i64 \<Rightarrow> bytes \<Rightarrow> bool \<Rightarrow> u32 \<Rightarrow> u32 \<Rightarrow> u32 \<Rightarrow> bool \<Rightarrow>
     session \<Rightarrow> 'l \<Rightarrow> 'b \<Rightarrow> go_error option \<times> bool \<times> session \<times> 'l \<times> 'b" where
  "CommitSparseWrite elog blobs now p off data eof mode uid gid sparse s l b =
     (case preflightWrite s p of
        Some err \<Rightarrow> (Some err, False, s, l, b)
      | None \<Rightarrow>
          (case bp_Put blobs b data of
             (Inl err, b') \<Rightarrow> (Some (wrap_error ''session: blob put'' err), False, s, l, b')
           | (Inr blobID, b') \<Rightarrow>
               (case commitOp elog now (Write \<lparr>wr_Path = p, wr_Offset = off,
                        wr_Length = word_of_nat (length data), wr_BlobId = blobID, wr_BlobOffset = 0,
                        wr_Eof = eof, wr_Mode = mode, wr_Fallthrough = sparse, wr_Uid = uid,
                        wr_Gid = gid\<rparr>) s l of
                  (err, ck, s', l') \<Rightarrow> (err, ck, s', l', b'))))"

definition CommitWrite ::
    "'l event_log \<Rightarrow> 'b blob_putter \<Rightarrow> i64 \<Rightarrow> path \<Rightarrow> i64 \<Rightarrow> bytes \<Rightarrow> bool \<Rightarrow> u32 \<Rightarrow>
     session \<Rightarrow> 'l \<Rightarrow> 'b \<Rightarrow> go_error option \<times> bool \<times> session \<times> 'l \<times> 'b" where
  "CommitWrite elog blobs now p off data eof mode s l b =
     (case preflightWrite s p of
        Some err \<Rightarrow> (Some err, False, s, l, b)
      | None \<Rightarrow>
          (case bp_Put blobs b data of
             (Inl err, b') \<Rightarrow> (Some (wrap_error ''session: blob put'' err), False, s, l, b')
           | (Inr blobID, b') \<Rightarrow>
               (case commitOp elog now (Write \<lparr>wr_Path = p, wr_Offset = off,
                        wr_Length = word_of_nat (length data), wr_BlobId = blobID, wr_BlobOffset = 0,
                        wr_Eof = eof, wr_Mode = mode, wr_Fallthrough = False, wr_Uid = 0,
                        wr_Gid = 0\<rparr>) s l of
                  (err, ck, s', l') \<Rightarrow> (err, ck, s', l', b'))))"

definition MarkLeaseLost :: "session \<Rightarrow> session" where
  "MarkLeaseLost s = s\<lparr>leaseLost := True\<rparr>"

end
