(* ===== verification/Registry.thy ===== *)
theory Registry
  imports Object_Store Session
begin

text \<open>
  The session registry (\<^verbatim>\<open>internal/registry\<close>): session metadata, writer leases, the index of sessions per
  lower tree, state images and branch provenance, each under its own keys of the object store. The
  bucket is the store itself; \<open>now\<close> is the value of \<^verbatim>\<open>time.Now()\<close> in nanoseconds.
\<close>

record 's registry =
  rg_prefix :: string
  rg_client :: "'s object_store"

record lease =
  l_Token :: string
  l_Host :: string
  l_AcquiredAt :: int
  l_TTL :: i64 \<comment> \<open>seconds\<close>

definition LeaseTTL :: i64 where
  "LeaseTTL = 45"

definition second :: i64 where
  "second = 1000000000"

section \<open>Keys\<close>

text \<open>\<^verbatim>\<open>fmt\<close>'s decimal digits, zero-padded to \<open>w\<close> places, and the verb \<^verbatim>\<open>%019d\<close>.\<close>

definition digit_char :: "nat \<Rightarrow> char" where
  "digit_char d = char_of (48 + d)"

fun padded :: "nat \<Rightarrow> nat \<Rightarrow> string" where
  "padded 0 n = []"
| "padded (Suc w) n = padded w (n div 10) @ [digit_char (n mod 10)]"

definition fmt_019d :: "i64 \<Rightarrow> string" where
  "fmt_019d off =
     (let n = nat \<bar>sint off\<bar>
      in if sint off < 0 then CHR ''-'' # padded (if n < 10 ^ 18 then 18 else 19) n else padded 19 n)"

definition sessionKey :: "'s registry \<Rightarrow> string \<Rightarrow> string" where
  "sessionKey r i = rg_prefix r @ ''meta/sessions/'' @ i @ ''.json''"

definition leaseKey :: "'s registry \<Rightarrow> string \<Rightarrow> string" where
  "leaseKey r i = rg_prefix r @ ''meta/sessions/'' @ i @ ''.lock''"

definition legacyLowerKey :: "'s registry \<Rightarrow> string \<Rightarrow> string" where
  "legacyLowerKey r lid = rg_prefix r @ ''meta/lowers/'' @ lid @ ''.json''"

definition lowerSessionsPrefix :: "'s registry \<Rightarrow> string \<Rightarrow> string" where
  "lowerSessionsPrefix r lid = rg_prefix r @ ''meta/lowers/'' @ lid @ ''/sessions/''"

definition lowerSessionKey :: "'s registry \<Rightarrow> string \<Rightarrow> string \<Rightarrow> string" where
  "lowerSessionKey r lid sessionID = lowerSessionsPrefix r lid @ sessionID @ ''.json''"

definition imagePrefix :: "'s registry \<Rightarrow> string \<Rightarrow> string" where
  "imagePrefix r sessionID = rg_prefix r @ ''state/sessions/'' @ sessionID @ ''/image-''"

definition imageKey :: "'s registry \<Rightarrow> string \<Rightarrow> i64 \<Rightarrow> string" where
  "imageKey r sessionID coversOffset =
     rg_prefix r @ ''state/sessions/'' @ sessionID @ ''/image-'' @ fmt_019d coversOffset @ ''.json''"

definition branchKey :: "'s registry \<Rightarrow> string \<Rightarrow> string \<Rightarrow> string" where
  "branchKey r parentID childID = rg_prefix r @ ''meta/branches/'' @ parentID @ ''/'' @ childID @ ''.json''"

section \<open>Objects\<close>

definition putJSON :: "'s registry \<Rightarrow> 's \<Rightarrow> string \<Rightarrow> json \<Rightarrow> go_error option \<times> 's" where
  "putJSON r s key v = PutBytes (rg_client r) s key (Doc v)"

definition putBytes :: "'s registry \<Rightarrow> 's \<Rightarrow> string \<Rightarrow> body \<Rightarrow> go_error option \<times> 's" where
  "putBytes r s key data = PutBytes (rg_client r) s key data"

definition getBytes :: "'s registry \<Rightarrow> 's \<Rightarrow> string \<Rightarrow> (go_error + body option) \<times> 's" where
  "getBytes r s key =
     (case GetBytes (rg_client r) s key of
        (Inl err, s') \<Rightarrow>
          (if IsNotFound err then Inr None else Inl (wrap_error (''registry: get '' @ key) (x_err err)), s')
      | (Inr data, s') \<Rightarrow> (Inr (Some data), s'))"

definition decode_error :: go_error where
  "decode_error = plain_error ''json: cannot unmarshal''"

text \<open>\<open>dec\<close> is the decoder for the type of the destination; a raw object is not a JSON document.\<close>

definition getJSON ::
    "'s registry \<Rightarrow> (json \<Rightarrow> 'a option) \<Rightarrow> 's \<Rightarrow> string \<Rightarrow> (go_error + 'a option) \<times> 's" where
  "getJSON r dec s key =
     (case getBytes r s key of
        (Inl err, s') \<Rightarrow> (Inl err, s')
      | (Inr None, s') \<Rightarrow> (Inr None, s')
      | (Inr (Some (Raw _)), s') \<Rightarrow> (Inl decode_error, s')
      | (Inr (Some (Doc j)), s') \<Rightarrow>
          (case dec j of None \<Rightarrow> Inl decode_error | Some v \<Rightarrow> Inr (Some v), s'))"

section \<open>JSON of the registry's types\<close>

definition zero_time :: int where
  "zero_time = - 62135596800 * 10 ^ 9"

definition dec_time :: "json \<Rightarrow> int option" where
  "dec_time j = (case j of JNull \<Rightarrow> Some zero_time | JNum n \<Rightarrow> Some n | _ \<Rightarrow> None)"

definition enc_lineage :: "lineage \<Rightarrow> json" where
  "enc_lineage l = JObj
     (omit_unless (ParentSessionId l \<noteq> []) ''parent_session_id'' (json_string (ParentSessionId l)) @
      omit_unless (ParentOffset l \<noteq> 0) ''parent_offset'' (enc_i (ParentOffset l)))"

definition dec_lineage :: "json \<Rightarrow> lineage option" where
  "dec_lineage j =
     (if \<not> is_obj j then None else
      case (dec_str (jfield ''parent_session_id'' j), dec_i64 (jfield ''parent_offset'' j)) of
        (Some p, Some off) \<Rightarrow> Some \<lparr>ParentSessionId = p, ParentOffset = off\<rparr>
      | _ \<Rightarrow> None)"

definition enc_session :: "session_meta \<Rightarrow> json" where
  "enc_session m = JObj
     ([(''id'', json_string (sm_ID m)), (''lower_id'', json_string (sm_LowerID m))] @
      (case sm_Lineage m of None \<Rightarrow> [] | Some l \<Rightarrow> [(''lineage'', enc_lineage l)]) @
      [(''created_at'', JNum (sm_CreatedAt m))])"

definition dec_session :: "json \<Rightarrow> session_meta option" where
  "dec_session j =
     (if \<not> is_obj j then None else
      case (dec_str (jfield ''id'' j), dec_str (jfield ''lower_id'' j),
            dec_ptr dec_lineage (jfield ''lineage'' j), dec_time (jfield ''created_at'' j)) of
        (Some i, Some lo, Some li, Some t) \<Rightarrow>
          Some \<lparr>sm_ID = i, sm_LowerID = lo, sm_Lineage = li, sm_CreatedAt = t\<rparr>
      | _ \<Rightarrow> None)"

definition enc_lease :: "lease \<Rightarrow> json" where
  "enc_lease l = JObj [(''token'', json_string (l_Token l)), (''host'', json_string (l_Host l)),
     (''acquired_at'', JNum (l_AcquiredAt l)), (''ttl'', enc_i (l_TTL l))]"

definition dec_lease :: "json \<Rightarrow> lease option" where
  "dec_lease j =
     (if \<not> is_obj j then None else
      case (dec_str (jfield ''token'' j), dec_str (jfield ''host'' j),
            dec_time (jfield ''acquired_at'' j), dec_i64 (jfield ''ttl'' j)) of
        (Some t, Some h, Some a, Some d) \<Rightarrow> Some \<lparr>l_Token = t, l_Host = h, l_AcquiredAt = a, l_TTL = d\<rparr>
      | _ \<Rightarrow> None)"

section \<open>Session metadata\<close>

definition validateSessionIDs :: "session_meta \<Rightarrow> go_error option" where
  "validateSessionIDs m =
     (case ValidateID ''session id'' (sm_ID m) of
        Some err \<Rightarrow> Some err
      | None \<Rightarrow> ValidateID ''lower id'' (sm_LowerID m))"

definition RegCreate :: "'s registry \<Rightarrow> session_meta \<Rightarrow> 's \<Rightarrow> go_error option \<times> 's" where
  "RegCreate r m s =
     (case validateSessionIDs m of
        Some err \<Rightarrow> (Some err, s)
      | None \<Rightarrow>
          (case putJSON r s (sessionKey r (sm_ID m)) (enc_session m) of
             (Some err, s') \<Rightarrow> (Some (wrap_error (''registry: put '' @ sessionKey r (sm_ID m)) err), s')
           | (None, s') \<Rightarrow> (None, s')))"

definition Load :: "'s registry \<Rightarrow> string \<Rightarrow> 's \<Rightarrow> (go_error + session_meta) \<times> 's" where
  "Load r i s =
     (case ValidateID ''session id'' i of
        Some err \<Rightarrow> (Inl err, s)
      | None \<Rightarrow>
          (case getJSON r dec_session s (sessionKey r i) of
             (Inl err, s') \<Rightarrow> (Inl err, s')
           | (Inr None, s') \<Rightarrow> (Inl (plain_error (''registry: get '' @ sessionKey r i @ '': no such session'')), s')
           | (Inr (Some m), s') \<Rightarrow>
               if sm_ID m \<noteq> i then (Inl (plain_error ''registry: id mismatch''), s') else (Inr m, s')))"

definition PutSession :: "'s registry \<Rightarrow> session_meta \<Rightarrow> 's \<Rightarrow> go_error option \<times> 's" where
  "PutSession r m s =
     (case validateSessionIDs m of
        Some err \<Rightarrow> (Some err, s)
      | None \<Rightarrow> putJSON r s (sessionKey r (sm_ID m)) (enc_session m))"

section \<open>Leases\<close>

definition expired :: "int \<Rightarrow> lease \<Rightarrow> bool" where
  "expired now l \<longleftrightarrow> l_AcquiredAt l + sint (l_TTL l * second) < now"

definition loadLease :: "'s registry \<Rightarrow> string \<Rightarrow> 's \<Rightarrow> (go_error + lease option) \<times> 's" where
  "loadLease r i s = getJSON r dec_lease s (leaseKey r i)"

definition putLease :: "'s registry \<Rightarrow> int \<Rightarrow> string \<Rightarrow> string \<Rightarrow> string \<Rightarrow> 's \<Rightarrow> go_error option \<times> 's" where
  "putLease r now i token host s =
     (case putJSON r s (leaseKey r i)
             (enc_lease \<lparr>l_Token = token, l_Host = host, l_AcquiredAt = now, l_TTL = LeaseTTL\<rparr>) of
        (Some err, s') \<Rightarrow> (Some (wrap_error (''registry: put lease '' @ i) err), s')
      | (None, s') \<Rightarrow> (None, s'))"

definition locked_error :: "string \<Rightarrow> go_error" where
  "locked_error m = \<lparr>ge_causes = [CLocked], ge_msg = ''registry: session locked: '' @ m\<rparr>"

text \<open>\<open>now\<close> is read once for the expiry test and once, not earlier, for the new lease.\<close>

definition ClaimLease ::
    "'s registry \<Rightarrow> int \<Rightarrow> int \<Rightarrow> string \<Rightarrow> string \<Rightarrow> string \<Rightarrow> 's \<Rightarrow> go_error option \<times> 's" where
  "ClaimLease r now now' i token host s =
     (case ValidateID ''session id'' i of
        Some err \<Rightarrow> (Some err, s)
      | None \<Rightarrow>
          (case loadLease r i s of
             (Inl err, s') \<Rightarrow> (Some err, s')
           | (Inr cur, s') \<Rightarrow>
               (case cur of
                  Some l \<Rightarrow>
                    if \<not> expired now l \<and> l_Token l \<noteq> token
                    then (Some (locked_error (''held by '' @ l_Host l)), s')
                    else putLease r now' i token host s'
                | None \<Rightarrow> putLease r now' i token host s')))"

definition RenewLease ::
    "'s registry \<Rightarrow> int \<Rightarrow> int \<Rightarrow> string \<Rightarrow> string \<Rightarrow> string \<Rightarrow> 's \<Rightarrow> go_error option \<times> 's" where
  "RenewLease r now now' i token host s =
     (case ValidateID ''session id'' i of
        Some err \<Rightarrow> (Some err, s)
      | None \<Rightarrow>
          (case loadLease r i s of
             (Inl err, s') \<Rightarrow> (Some err, s')
           | (Inr cur, s') \<Rightarrow>
               (case cur of
                  Some l \<Rightarrow>
                    if \<not> expired now l \<and> l_Token l \<noteq> token
                    then (Some (locked_error (''lost to '' @ l_Host l)), s')
                    else putLease r now' i token host s'
                | None \<Rightarrow> putLease r now' i token host s')))"

definition ReleaseLease :: "'s registry \<Rightarrow> string \<Rightarrow> string \<Rightarrow> 's \<Rightarrow> go_error option \<times> 's" where
  "ReleaseLease r i token s =
     (case ValidateID ''session id'' i of
        Some err \<Rightarrow> (Some err, s)
      | None \<Rightarrow>
          (case loadLease r i s of
             (Inl err, s') \<Rightarrow> (Some err, s')
           | (Inr cur, s') \<Rightarrow>
               if (case cur of Some l \<Rightarrow> l_Token l \<noteq> token | None \<Rightarrow> False) then (None, s')
               else (case Delete (rg_client r) s' (leaseKey r i) of
                       (Some err, s'') \<Rightarrow> (Some (wrap_error (''registry: release lease '' @ i) err), s'')
                     | (None, s'') \<Rightarrow> (None, s''))))"

section \<open>Sessions of a lower tree\<close>

text \<open>\<^verbatim>\<open>path.Base\<close>: the last element, trailing slashes removed.\<close>

definition path_Base :: "string \<Rightarrow> string" where
  "path_Base p =
     (if p = [] then ''.''
      else let q = rev (dropWhile (\<lambda>c. c = slash) (rev p));
               b = drop (nat (last_index_slash q + 1)) q
           in if b = [] then ''/'' else b)"

definition cut_suffix :: "string \<Rightarrow> string \<Rightarrow> string option" where
  "cut_suffix s x = (if suffix x s then Some (take (length s - length x) s) else None)"

definition marker_id :: "string \<Rightarrow> string option" where
  "marker_id key =
     (case cut_suffix (path_Base key) ''.json'' of
        None \<Rightarrow> None
      | Some i \<Rightarrow> if i = [] then None else Some i)"

text \<open>The pages of a listing up to the first error.\<close>

fun all_pages :: "(go_error + string list) list \<Rightarrow> go_error + string list" where
  "all_pages [] = Inr []"
| "all_pages (Inl err # ps) = Inl err"
| "all_pages (Inr ks # ps) = (case all_pages ps of Inl err \<Rightarrow> Inl err | Inr xs \<Rightarrow> Inr (ks @ xs))"

definition ListByLower :: "'s registry \<Rightarrow> string \<Rightarrow> 's \<Rightarrow> (go_error + string list) \<times> 's" where
  "ListByLower r lid s =
     (case ValidateID ''lower id'' lid of
        Some err \<Rightarrow> (Inl err, s)
      | None \<Rightarrow>
          (case all_pages (st_List (rg_client r) s (lowerSessionsPrefix r lid)) of
             Inl err \<Rightarrow> (Inl (wrap_error (''registry: list lower '' @ lid @ '' sessions'') err), s)
           | Inr ks \<Rightarrow>
               (case getJSON r (dec_list dec_str) s (legacyLowerKey r lid) of
                  (Inl err, s') \<Rightarrow> (Inl err, s')
                | (Inr legacy, s') \<Rightarrow>
                    (Inr (sort (remdups (List.map_filter marker_id ks @ (case legacy of None \<Rightarrow> [] | Some l \<Rightarrow> l)))),
                     s'))))"

definition AppendLowerSession :: "'s registry \<Rightarrow> int \<Rightarrow> string \<Rightarrow> string \<Rightarrow> 's \<Rightarrow> go_error option \<times> 's" where
  "AppendLowerSession r now lid sessionID s =
     (case ValidateID ''lower id'' lid of
        Some err \<Rightarrow> (Some err, s)
      | None \<Rightarrow>
          (case ValidateID ''session id'' sessionID of
             Some err \<Rightarrow> (Some err, s)
           | None \<Rightarrow>
               (case putJSON r s (lowerSessionKey r lid sessionID)
                       (JObj [(''session_id'', json_string sessionID), (''created_at'', JNum now)]) of
                  (Some err, s') \<Rightarrow> (Some (wrap_error (''registry: put lower '' @ lid) err), s')
                | (None, s') \<Rightarrow> (None, s'))))"

section \<open>State images and branches\<close>

text \<open>\<^verbatim>\<open>strconv.ParseInt(s, 10, 64)\<close>: an optional sign and at least one digit, within the range of \<^verbatim>\<open>int64\<close>.\<close>

definition digit_val :: "char \<Rightarrow> nat option" where
  "digit_val c = (if byte_in c 48 57 then Some (byte_of c - 48) else None)"

fun digits_val :: "string \<Rightarrow> nat \<Rightarrow> nat option" where
  "digits_val [] n = Some n"
| "digits_val (c # cs) n =
     (case digit_val c of None \<Rightarrow> None | Some d \<Rightarrow> digits_val cs (10 * n + d))"

definition ParseInt :: "string \<Rightarrow> i64 option" where
  "ParseInt s =
     (let neg = (s \<noteq> [] \<and> hd s = CHR ''-'');
          ds = (if s \<noteq> [] \<and> (hd s = CHR ''-'' \<or> hd s = CHR ''+'') then tl s else s)
      in if ds = [] then None
         else case digits_val ds 0 of
           None \<Rightarrow> None
         | Some n \<Rightarrow>
             let v = (if neg then - int n else int n)
             in if - (2 ^ 63) \<le> v \<and> v < 2 ^ 63 then Some (word_of_int v) else None)"

definition trim_prefix :: "string \<Rightarrow> string \<Rightarrow> string" where
  "trim_prefix s p = (if prefix p s then drop (length p) s else s)"

definition trim_suffix :: "string \<Rightarrow> string \<Rightarrow> string" where
  "trim_suffix s x = (if suffix x s then take (length s - length x) s else s)"

definition image_offset :: "string \<Rightarrow> i64 option" where
  "image_offset key = ParseInt (trim_suffix (trim_prefix (path_Base key) ''image-'') ''.json'')"

definition SaveStateImage :: "'s registry \<Rightarrow> string \<Rightarrow> i64 \<Rightarrow> body \<Rightarrow> 's \<Rightarrow> go_error option \<times> 's" where
  "SaveStateImage r sessionID coversOffset data s =
     (case ValidateID ''session id'' sessionID of
        Some err \<Rightarrow> (Some err, s)
      | None \<Rightarrow>
          (case putBytes r s (imageKey r sessionID coversOffset) data of
             (Some err, s') \<Rightarrow>
               (Some (wrap_error (''registry: save state image '' @ imageKey r sessionID coversOffset) err), s')
           | (None, s') \<Rightarrow> (None, s')))"

text \<open>The scan over the listed keys: the best key so far and its offset (\<open>[]\<close> and -1 at the start).\<close>

fun best_image :: "i64 \<Rightarrow> string list \<Rightarrow> string \<times> i64 \<Rightarrow> string \<times> i64" where
  "best_image maxOffset [] best = best"
| "best_image maxOffset (key # ks) best =
     best_image maxOffset ks
       (case image_offset key of
          None \<Rightarrow> best
        | Some off \<Rightarrow>
            if 0 \<le>s maxOffset \<and> maxOffset <s off then best
            else if snd best <s off then (key, off) else best)"

definition LatestStateImage ::
    "'s registry \<Rightarrow> string \<Rightarrow> i64 \<Rightarrow> 's \<Rightarrow> (go_error + (i64 \<times> body option)) \<times> 's" where
  "LatestStateImage r sessionID maxOffset s =
     (case ValidateID ''session id'' sessionID of
        Some err \<Rightarrow> (Inl err, s)
      | None \<Rightarrow>
          (case (case st_List (rg_client r) s (imagePrefix r sessionID) of [] \<Rightarrow> Inr [] | pg # _ \<Rightarrow> pg) of
             Inl err \<Rightarrow> (Inl (wrap_error ''registry: list state images'' err), s)
           | Inr ks \<Rightarrow>
               (let (bestKey, bestOffset) = best_image maxOffset ks ([], - 1)
                in if bestKey = [] then (Inr (- 1, None), s)
                   else case getBytes r s bestKey of
                     (Inl err, s') \<Rightarrow> (Inl err, s')
                   | (Inr None, s') \<Rightarrow> (Inr (- 1, None), s')
                   | (Inr (Some data), s') \<Rightarrow> (Inr (bestOffset, Some data), s'))))"

definition SaveBranch :: "'s registry \<Rightarrow> int \<Rightarrow> string \<Rightarrow> string \<Rightarrow> i64 \<Rightarrow> 's \<Rightarrow> go_error option \<times> 's" where
  "SaveBranch r now parentID childID offset s =
     (case ValidateID ''parent session id'' parentID of
        Some err \<Rightarrow> (Some err, s)
      | None \<Rightarrow>
          (case ValidateID ''child session id'' childID of
             Some err \<Rightarrow> (Some err, s)
           | None \<Rightarrow>
               (case putJSON r s (branchKey r parentID childID)
                       (JObj [(''parent_id'', json_string parentID), (''child_id'', json_string childID),
                              (''offset'', enc_i offset), (''created_at'', JNum now)]) of
                  (Some err, s') \<Rightarrow>
                    (Some (wrap_error (''registry: save branch '' @ branchKey r parentID childID) err), s')
                | (None, s') \<Rightarrow> (None, s'))))"

end
