(* ===== verification/Registry_Props.thy ===== *)
theory Registry_Props
  imports Registry
begin

text \<open>
  What the registry promises, for every object store that satisfies \<open>kv_store\<close>: metadata round trips,
  leases exclude other writers until they expire, the newest usable state image is found, and the key
  spaces never collide.
\<close>

section \<open>Offsets in keys\<close>

lemma digit_val_digit_char: "d < 10 \<Longrightarrow> digit_val (digit_char d) = Some d"
  by (simp add: digit_val_def digit_char_def byte_in_def of_char_of)

lemma digits_val_append:
  "digits_val (a @ b) n = (case digits_val a n of None \<Rightarrow> None | Some m \<Rightarrow> digits_val b m)"
  by (induction a arbitrary: n) (auto split: option.splits)

lemma digits_val_padded:
  "n < 10 ^ w \<Longrightarrow> digits_val (padded w n) m = Some (m * 10 ^ w + n)"
proof (induction w arbitrary: n)
  case 0
  then show ?case by simp
next
  case (Suc w)
  have "n div 10 < 10 ^ w" using Suc.prems by (simp add: less_mult_imp_div_less mult.commute)
  then show ?case using Suc.IH by (simp add: digits_val_append digit_val_digit_char algebra_simps)
qed

lemma length_padded [simp]: "length (padded w n) = w"
  by (induction w arbitrary: n) auto

lemma padded_digits: "c \<in> set (padded w n) \<Longrightarrow> 48 \<le> byte_of c \<and> byte_of c \<le> 57"
proof (induction w arbitrary: n)
  case (Suc w)
  have "byte_of (digit_char (n mod 10)) = 48 + n mod 10"
    by (simp add: digit_char_def of_char_of)
  then show ?case using Suc by auto
qed simp

lemma ParseInt_padded:
  assumes "0 \<le>s off"
  shows "ParseInt (fmt_019d off) = Some off"
proof -
  let ?n = "nat (sint off)"
  have off: "0 \<le> sint off" "sint off < 2 ^ 63" using assms sint_range [of off] by (auto simp: word_sle_eq)
  then have f: "fmt_019d off = padded 19 ?n" by (simp add: fmt_019d_def Let_def)
  have "?n < 10 ^ 19" using off by (simp add: nat_less_iff)
  then have v: "digits_val (padded 19 ?n) 0 = Some ?n" using digits_val_padded [of ?n 19 0] by simp
  have ne: "padded 19 ?n \<noteq> []" by (metis length_padded list.size(3) zero_neq_numeral)
  then have "48 \<le> byte_of (hd (padded 19 ?n))" using padded_digits [of "hd (padded 19 ?n)" 19 ?n] hd_in_set by blast
  then have "hd (padded 19 ?n) \<noteq> CHR ''-''" "hd (padded 19 ?n) \<noteq> CHR ''+''" by auto
  then show ?thesis using f v ne off by (simp add: ParseInt_def Let_def)
qed

lemma path_Base_join:
  assumes "slash \<notin> set b" and "b \<noteq> []"
  shows "path_Base (a @ slash # b) = b"
proof -
  obtain c r where r: "rev b = c # r" using assms(2) by (cases "rev b") auto
  then have "c \<noteq> slash" using assms(1) by (metis list.set_intros(1) set_rev)
  with r have "dropWhile (\<lambda>c. c = slash) (rev (a @ slash # b)) = rev (a @ slash # b)" by simp
  then show ?thesis using assms last_index_slash_append [of b a] by (simp add: path_Base_def Let_def nat_add_distrib)
qed

lemma trim_suffix_append [simp]: "trim_suffix (a @ x) x = a"
  by (simp add: trim_suffix_def suffix_def)

lemma trim_prefix_append [simp]: "trim_prefix (p @ a) p = a"
  by (simp add: trim_prefix_def)

lemma image_offset_imageKey:
  assumes "0 \<le>s off"
  shows "image_offset (imageKey r sid off) = Some off"
proof -
  let ?b = "''image-'' @ fmt_019d off @ ''.json''"
  have "slash \<notin> set (fmt_019d off)"
    using assms padded_digits [of slash 19] by (auto simp: fmt_019d_def Let_def word_sle_eq)
  then have "path_Base ((rg_prefix r @ ''state/sessions/'' @ sid) @ slash # ?b) = ?b"
    by (intro path_Base_join) auto
  then have base: "path_Base (imageKey r sid off) = ?b" by (simp add: imageKey_def)
  have "image_offset (imageKey r sid off) = ParseInt (fmt_019d off)"
    unfolding image_offset_def base trim_prefix_append trim_suffix_append ..
  then show ?thesis using ParseInt_padded [OF assms] by simp
qed

lemma imageKey_inj:
  assumes "imageKey r a x = imageKey r b y" and "valid_id a" and "valid_id b" and "0 \<le>s x" and "0 \<le>s y"
  shows "a = b \<and> x = y"
proof -
  have "x = y" using image_offset_imageKey [OF assms(4), of r a] image_offset_imageKey [OF assms(5), of r b] assms(1)
    by simp
  then show ?thesis using assms(1) by (simp add: imageKey_def)
qed

section \<open>The scan for the newest image\<close>

definition eligible :: "i64 \<Rightarrow> string \<Rightarrow> i64 \<Rightarrow> bool" where
  "eligible maxOffset key off \<longleftrightarrow>
     image_offset key = Some off \<and> 0 \<le>s off \<and> (maxOffset <s 0 \<or> off \<le>s maxOffset)"

lemma best_image_spec:
  assumes "best_image m ks (k0, o0) = (k, off)" and "- 1 \<le>s o0"
  shows "o0 \<le>s off \<and> ((k, off) = (k0, o0) \<or> k \<in> set ks \<and> eligible m k off) \<and>
    (\<forall>k'\<in>set ks. \<forall>x. eligible m k' x \<longrightarrow> x \<le>s off)"
  using assms
proof (induction ks arbitrary: k0 o0)
  case Nil
  then show ?case by (simp add: word_sle_eq)
next
  case (Cons a ks)
  define nxt where "nxt = (case image_offset a of None \<Rightarrow> (k0, o0)
    | Some x \<Rightarrow> if 0 \<le>s m \<and> m <s x then (k0, o0) else if o0 <s x then (a, x) else (k0, o0))"
  obtain k1 o1 where n: "nxt = (k1, o1)" by fastforce
  have "best_image m (a # ks) (k0, o0) = best_image m ks (k1, o1)"
    by (simp only: best_image.simps snd_conv nxt_def [symmetric] n)
  then have b: "best_image m ks (k1, o1) = (k, off)" using Cons.prems(1) by simp
  have step: "o0 \<le>s o1" "(k1, o1) = (k0, o0) \<or> k1 = a \<and> eligible m a o1"
      "\<forall>x. eligible m a x \<longrightarrow> x \<le>s o1"
    using n Cons.prems(2)
    by (auto simp: nxt_def eligible_def word_sle_eq word_sless_alt split: option.splits if_splits)
  then have "- 1 \<le>s o1" using Cons.prems(2) by (simp add: word_sle_eq)
  from Cons.IH [OF b this] step show ?case by (auto simp: word_sle_eq)
qed

section \<open>JSON of the registry's types\<close>

definition lineage_text :: "lineage option \<Rightarrow> bool" where
  "lineage_text li \<longleftrightarrow> (case li of None \<Rightarrow> True | Some l \<Rightarrow> valid_utf8 (ParentSessionId l))"

lemma valid_id_utf8: "valid_id i \<Longrightarrow> valid_utf8 i"
  using id_char_ascii by (intro valid_utf8_ascii) (auto simp: valid_id_def)

lemma dec_enc_lineage: "valid_utf8 (ParentSessionId l) \<Longrightarrow> dec_lineage (enc_lineage l) = Some l"
  by (simp add: dec_lineage_def enc_lineage_def omit_unless_def is_obj_def jfield_def)

lemma enc_lineage_not_null [simp]: "enc_lineage l \<noteq> JNull"
  by (simp add: enc_lineage_def)

lemma dec_enc_session:
  assumes "valid_id (sm_ID m)" and "valid_id (sm_LowerID m)" and "lineage_text (sm_Lineage m)"
  shows "dec_session (enc_session m) = Some m"
  using assms valid_id_utf8
  by (cases "sm_Lineage m")
    (simp_all add: dec_session_def enc_session_def is_obj_def jfield_def dec_time_def dec_ptr_def
      lineage_text_def dec_enc_lineage)


section \<open>The registry over a store that keeps its contract\<close>

context kv_store
begin

lemma putJSON_put:
  assumes "rg_client r = st" and "healthy s" and "putJSON r s k v = (e, s')"
  shows "healthy s'" and "e = None \<Longrightarrow> content s' = (content s)(k \<mapsto> Doc v)"
    and "content s' = content s \<or> content s' = (content s)(k \<mapsto> Doc v)"
proof -
  have p: "st_Put st s k (Doc v) = (e, s')" using assms(1,3) by (simp add: putJSON_def PutBytes_def)
  show "healthy s'" using put_ok [OF assms(2)] put_failed [OF assms(2)] p by (cases e) blast+
  show "e = None \<Longrightarrow> content s' = (content s)(k \<mapsto> Doc v)" using put_ok [OF assms(2)] p by blast
  show "content s' = content s \<or> content s' = (content s)(k \<mapsto> Doc v)"
    using put_ok [OF assms(2)] put_failed [OF assms(2)] p by (cases e) blast+
qed

lemma getBytes_get:
  assumes "rg_client r = st" and "healthy s" and "getBytes r s k = (res, s')"
  shows "healthy s'" and "content s' = content s" and "res = Inr b \<Longrightarrow> content s k = b"
proof -
  obtain g s1 where g: "GetBytes st s k = (g, s1)" by fastforce
  have "healthy s' \<and> content s' = content s \<and> (\<forall>b. res = Inr b \<longrightarrow> content s k = b)"
  proof (cases g)
    case (Inl err)
    then show ?thesis using GetBytes_Inl [OF assms(2)] g assms(1,3)
      by (auto simp: getBytes_def split: if_splits)
  next
    case (Inr b)
    then show ?thesis using GetBytes_Inr [OF assms(2)] g assms(1,3) by (auto simp: getBytes_def)
  qed
  then show "healthy s'" "content s' = content s" "res = Inr b \<Longrightarrow> content s k = b" by blast+
qed

lemma getJSON_get:
  assumes "rg_client r = st" and "healthy s" and "getJSON r dec s k = (res, s')"
  shows "healthy s'" and "content s' = content s"
    and "res = Inr (Some v) \<Longrightarrow> \<exists>j. content s k = Some (Doc j) \<and> dec j = Some v"
    and "res = Inr None \<Longrightarrow> content s k = None"
proof -
  obtain g s1 where g: "getBytes r s k = (g, s1)" by fastforce
  have s1: "healthy s1" "content s1 = content s" "\<And>b. g = Inr b \<Longrightarrow> content s k = b"
    using getBytes_get [OF assms(1,2) g] by blast+
  have "s' = s1 \<and> (\<forall>v. res = Inr (Some v) \<longrightarrow> (\<exists>j. content s k = Some (Doc j) \<and> dec j = Some v)) \<and>
      (res = Inr None \<longrightarrow> content s k = None)"
    using assms(3) g s1(3) unfolding getJSON_def
    by (auto split: sum.splits option.splits body.splits)
  with s1 show "healthy s'" "content s' = content s"
    "res = Inr (Some v) \<Longrightarrow> \<exists>j. content s k = Some (Doc j) \<and> dec j = Some v"
    "res = Inr None \<Longrightarrow> content s k = None" by auto
qed

lemma putLease_put:
  assumes "rg_client r = st" and "healthy s" and "putLease r now i token host s = (e, s')"
  shows "healthy s'" and "e = None \<Longrightarrow> content s' = (content s)(leaseKey r i \<mapsto>
    Doc (enc_lease \<lparr>l_Token = token, l_Host = host, l_AcquiredAt = now, l_TTL = LeaseTTL\<rparr>))"
proof -
  let ?l = "enc_lease \<lparr>l_Token = token, l_Host = host, l_AcquiredAt = now, l_TTL = LeaseTTL\<rparr>"
  obtain e1 s1 where p: "putJSON r s (leaseKey r i) ?l = (e1, s1)" by fastforce
  then have "s' = s1" "e = None \<Longrightarrow> e1 = None"
    using assms(3) by (auto simp: putLease_def split: option.splits)
  then show "healthy s'" "e = None \<Longrightarrow> content s' = (content s)(leaseKey r i \<mapsto> Doc ?l)"
    using putJSON_put [OF assms(1,2) p] by blast+
qed

text \<open>A claim goes through only by writing the caller's lease.\<close>

lemma ClaimLease_taken:
  assumes "rg_client r = st" and "healthy s" and "ClaimLease r now now' i token host s = (None, s')"
  shows "healthy s'" and "valid_id i" and "content s' = (content s)(leaseKey r i \<mapsto>
    Doc (enc_lease \<lparr>l_Token = token, l_Host = host, l_AcquiredAt = now', l_TTL = LeaseTTL\<rparr>))"
proof -
  have v: "ValidateID ''session id'' i = None"
    using assms(3) by (auto simp: ClaimLease_def split: option.splits)
  obtain g s1 where g: "loadLease r i s = (g, s1)" by fastforce
  then have s1: "healthy s1" "content s1 = content s"
    using getJSON_get [OF assms(1,2)] by (auto simp: loadLease_def)
  have p: "putLease r now' i token host s1 = (None, s')"
    using assms(3) v g by (auto simp: ClaimLease_def split: sum.splits option.splits if_splits)
  show "valid_id i" using v by (simp add: ValidateID_None)
  show "healthy s'" "content s' = (content s)(leaseKey r i \<mapsto>
    Doc (enc_lease \<lparr>l_Token = token, l_Host = host, l_AcquiredAt = now', l_TTL = LeaseTTL\<rparr>))"
    using putLease_put [OF assms(1) s1(1) p] s1(2) by simp_all
qed

text \<open>While a foreign lease is live, no operation of another token writes anything.\<close>

lemma live_lease_excludes:
  assumes "rg_client r = st" and "healthy s"
    and l: "content s (leaseKey r i) = Some (Doc (enc_lease l))" "dec_lease (enc_lease l) = Some l"
    and live: "\<not> expired now l" "l_Token l \<noteq> token"
  shows "ClaimLease r now now' i token host s = (e, s') \<Longrightarrow> e \<noteq> None \<and> content s' = content s"
    and "RenewLease r now now' i token host s = (e, s') \<Longrightarrow> e \<noteq> None \<and> content s' = content s"
    and "ReleaseLease r i token s = (e, s') \<Longrightarrow> content s' = content s"
proof -
  obtain g s1 where g: "loadLease r i s = (g, s1)" by fastforce
  have s1: "content s1 = content s" and "g \<noteq> Inr None" "\<And>v. g = Inr (Some v) \<Longrightarrow> v = l"
    using getJSON_get [OF assms(1,2)] g l by (fastforce simp: loadLease_def)+
  then consider err where "g = Inl err" | "g = Inr (Some l)" by (metis not_None_eq old.sum.exhaust)
  note g_cases = this
  have "fst (ClaimLease r now now' i token host s) \<noteq> None \<and> content (snd (ClaimLease r now now' i token host s)) = content s"
    using g s1 live by (cases "ValidateID ''session id'' i"; cases rule: g_cases) (simp_all add: ClaimLease_def)
  then show "ClaimLease r now now' i token host s = (e, s') \<Longrightarrow> e \<noteq> None \<and> content s' = content s" by simp
  have "fst (RenewLease r now now' i token host s) \<noteq> None \<and> content (snd (RenewLease r now now' i token host s)) = content s"
    using g s1 live by (cases "ValidateID ''session id'' i"; cases rule: g_cases) (simp_all add: RenewLease_def)
  then show "RenewLease r now now' i token host s = (e, s') \<Longrightarrow> e \<noteq> None \<and> content s' = content s" by simp
  have "content (snd (ReleaseLease r i token s)) = content s"
    using g s1 live by (cases "ValidateID ''session id'' i"; cases rule: g_cases) (simp_all add: ReleaseLease_def)
  then show "ReleaseLease r i token s = (e, s') \<Longrightarrow> content s' = content s" by simp
qed

lemma RegCreate_put:
  assumes "rg_client r = st" and "healthy s" and "RegCreate r m s = (None, s')"
  shows "healthy s'" and "content s' = (content s)(sessionKey r (sm_ID m) \<mapsto> Doc (enc_session m))"
    and "valid_id (sm_ID m)" and "valid_id (sm_LowerID m)"
proof -
  have v: "validateSessionIDs m = None" using assms(3) by (auto simp: RegCreate_def split: option.splits)
  then show "valid_id (sm_ID m)" "valid_id (sm_LowerID m)"
    by (auto simp: validateSessionIDs_def ValidateID_None split: option.splits)
  have p: "putJSON r s (sessionKey r (sm_ID m)) (enc_session m) = (None, s')"
    using assms(3) v by (auto simp: RegCreate_def split: prod.splits option.splits)
  show "healthy s'" "content s' = (content s)(sessionKey r (sm_ID m) \<mapsto> Doc (enc_session m))"
    using putJSON_put [OF assms(1,2) p] by simp_all
qed

lemma Load_get:
  assumes "rg_client r = st" and "healthy s" and "Load r i s = (res, s')"
  shows "healthy s'" and "content s' = content s"
    and "res = Inr m \<Longrightarrow> sm_ID m = i \<and> valid_id i \<and>
      (\<exists>j. content s (sessionKey r i) = Some (Doc j) \<and> dec_session j = Some m)"
proof -
  obtain g s1 where g: "getJSON r dec_session s (sessionKey r i) = (g, s1)" by fastforce
  note s1 = getJSON_get [OF assms(1,2) g]
  have "(s' = s \<or> s' = s1) \<and> (res = Inr m \<longrightarrow> g = Inr (Some m) \<and> sm_ID m = i \<and> valid_id i)"
    using assms(3) g ValidateID_None [of "''session id''" i]
    by (auto simp: Load_def split: option.splits sum.splits if_splits)
  then show "healthy s'" "content s' = content s" "res = Inr m \<Longrightarrow> sm_ID m = i \<and> valid_id i \<and>
      (\<exists>j. content s (sessionKey r i) = Some (Doc j) \<and> dec_session j = Some m)"
    using s1 assms(2) by auto
qed

lemma SaveStateImage_put:
  assumes "rg_client r = st" and "healthy s" and "SaveStateImage r sid off b s = (e, s')"
  shows "healthy s'" and "e = None \<Longrightarrow> valid_id sid \<and> content s' = (content s)(imageKey r sid off \<mapsto> b)"
    and "content s' = content s \<or> valid_id sid \<and> content s' = (content s)(imageKey r sid off \<mapsto> b)"
proof -
  obtain e1 s1 where p: "st_Put st s (imageKey r sid off) b = (e1, s1)" by fastforce
  have s1: "healthy s1" "e1 = None \<Longrightarrow> content s1 = (content s)(imageKey r sid off \<mapsto> b)"
    "content s1 = content s \<or> content s1 = (content s)(imageKey r sid off \<mapsto> b)"
    using put_ok [OF assms(2)] put_failed [OF assms(2)] p by (cases e1; blast)+
  have "(s' = s \<and> e \<noteq> None) \<or> (valid_id sid \<and> s' = s1 \<and> (e = None \<longrightarrow> e1 = None))"
    using assms(1,3) p ValidateID_None [of "''session id''" sid]
    by (cases "ValidateID ''session id'' sid"; cases e1)
      (auto simp: SaveStateImage_def putBytes_def PutBytes_def)
  then show "healthy s'" "e = None \<Longrightarrow> valid_id sid \<and> content s' = (content s)(imageKey r sid off \<mapsto> b)"
    "content s' = content s \<or> valid_id sid \<and> content s' = (content s)(imageKey r sid off \<mapsto> b)"
    using s1 assms(2) by auto
qed

lemma LatestStateImage_best:
  assumes "rg_client r = st" and "healthy s" and one_page: "st_List st s (imagePrefix r sid) = [Inr ks]"
    and res: "LatestStateImage r sid m s = (Inr (off, img), s')"
  shows "healthy s'" and "content s' = content s"
    and "img = None \<Longrightarrow> off = - 1 \<and>
      (\<forall>k x. content s k \<noteq> None \<and> prefix (imagePrefix r sid) k \<longrightarrow> \<not> eligible m k x)"
    and "img = Some b \<Longrightarrow> (\<exists>k. prefix (imagePrefix r sid) k \<and> content s k = Some b \<and> eligible m k off) \<and>
      (\<forall>k x. content s k \<noteq> None \<and> prefix (imagePrefix r sid) k \<and> eligible m k x \<longrightarrow> x \<le>s off)"
proof -
  have "set (concat [ks]) = {k. content s k \<noteq> None \<and> prefix (imagePrefix r sid) k}"
    by (rule list_keys [OF assms(2)]) (simp add: one_page)
  then have ks: "set ks = {k. content s k \<noteq> None \<and> prefix (imagePrefix r sid) k}" by simp
  have v: "ValidateID ''session id'' sid = None"
    using res by (auto simp: LatestStateImage_def split: option.splits)
  obtain bk bo where best: "best_image m ks ([], - 1) = (bk, bo)" by fastforce
  have b: "- 1 \<le>s bo" "(bk, bo) = ([], - 1) \<or> bk \<in> set ks \<and> eligible m bk bo"
    "\<forall>k\<in>set ks. \<forall>x. eligible m k x \<longrightarrow> x \<le>s bo"
    using best_image_spec [OF best] by (auto simp: word_sle_eq)
  have "[] \<notin> set ks" by (auto simp: ks imagePrefix_def)
  obtain g s1 where g: "getBytes r s bk = (g, s1)" by fastforce
  note s1 = getBytes_get [OF assms(1,2) g]
  have step: "(off, img, s') = (if bk = [] then (- 1, None, s)
      else case g of Inr (Some d) \<Rightarrow> (bo, Some d, s1) | _ \<Rightarrow> (- 1, None, s1)) \<and> (bk \<noteq> [] \<longrightarrow> (\<exists>x. g = Inr x))"
    using res assms(1) one_page v best g
    by (auto simp: LatestStateImage_def split: if_splits sum.splits option.splits)
  show "healthy s'" "content s' = content s"
    using step s1(1,2) assms(2) by (auto split: if_splits sum.splits option.splits)
  show "off = - 1 \<and> (\<forall>k x. content s k \<noteq> None \<and> prefix (imagePrefix r sid) k \<longrightarrow> \<not> eligible m k x)"
    if "img = None"
  proof (cases "bk = []")
    case True
    then have "bo = - 1" using b(2) \<open>[] \<notin> set ks\<close> by auto
    then have "\<not> eligible m k x" if "k \<in> set ks" for k x
      using b(3) that by (auto simp: eligible_def word_sle_eq)
    then show ?thesis using step True by (auto simp: ks)
  next
    case False
    then have "content s bk \<noteq> None" using b(2) ks by auto
    moreover from False step that have "g = Inr None" by (auto split: if_splits sum.splits option.splits)
    ultimately show ?thesis using s1(3) by simp
  qed
  show "(\<exists>k. prefix (imagePrefix r sid) k \<and> content s k = Some b \<and> eligible m k off) \<and>
      (\<forall>k x. content s k \<noteq> None \<and> prefix (imagePrefix r sid) k \<and> eligible m k x \<longrightarrow> x \<le>s off)"
    if "img = Some b"
  proof -
    have "bk \<noteq> []" "g = Inr (Some b)" "off = bo"
      using step that by (auto split: if_splits sum.splits option.splits)
    then show ?thesis using b s1(3) ks by auto
  qed
qed

end

text \<open>Every object under a session's image prefix was written by \<open>SaveStateImage\<close>.\<close>

definition images_canonical :: "(string \<Rightarrow> body option) \<Rightarrow> 's registry \<Rightarrow> string \<Rightarrow> bool" where
  "images_canonical c r sid \<longleftrightarrow>
     (\<forall>k. c k \<noteq> None \<and> prefix (imagePrefix r sid) k \<longrightarrow> (\<exists>x. 0 \<le>s x \<and> k = imageKey r sid x))"

lemma imagePrefix_imageKey [simp]: "prefix (imagePrefix r sid) (imageKey r sid x)"
  by (simp add: imagePrefix_def imageKey_def)

lemma eligible_imageKey:
  "0 \<le>s x \<Longrightarrow> eligible m (imageKey r sid x) y \<longleftrightarrow> y = x \<and> (m <s 0 \<or> x \<le>s m)"
  by (auto simp: eligible_def image_offset_imageKey)

context kv_store
begin

lemma LatestStateImage_newest:
  assumes "rg_client r = st" and "healthy s" and "st_List st s (imagePrefix r sid) = [Inr ks]"
    and canon: "images_canonical (content s) r sid"
    and res: "LatestStateImage r sid m s = (Inr (off, img), s')"
  shows "img = None \<Longrightarrow> off = - 1 \<and>
      (\<forall>x. 0 \<le>s x \<and> (m <s 0 \<or> x \<le>s m) \<longrightarrow> content s (imageKey r sid x) = None)"
    and "img = Some b \<Longrightarrow> content s (imageKey r sid off) = Some b \<and> 0 \<le>s off \<and> (m <s 0 \<or> off \<le>s m) \<and>
      (\<forall>x. 0 \<le>s x \<and> (m <s 0 \<or> x \<le>s m) \<and> content s (imageKey r sid x) \<noteq> None \<longrightarrow> x \<le>s off)"
proof -
  note best = LatestStateImage_best [OF assms(1-3) res]
  show "off = - 1 \<and> (\<forall>x. 0 \<le>s x \<and> (m <s 0 \<or> x \<le>s m) \<longrightarrow> content s (imageKey r sid x) = None)"
    if "img = None"
    using best(3) [OF that] eligible_imageKey [of _ m r sid] imagePrefix_imageKey [of r sid] by blast
  show "content s (imageKey r sid off) = Some b \<and> 0 \<le>s off \<and> (m <s 0 \<or> off \<le>s m) \<and>
      (\<forall>x. 0 \<le>s x \<and> (m <s 0 \<or> x \<le>s m) \<and> content s (imageKey r sid x) \<noteq> None \<longrightarrow> x \<le>s off)"
    if "img = Some b"
  proof -
    from best(4) [OF that] obtain k where
      k: "prefix (imagePrefix r sid) k" "content s k = Some b" "eligible m k off" by blast
    then obtain x where "0 \<le>s x" "k = imageKey r sid x"
      using canon unfolding images_canonical_def by blast
    then show ?thesis
      using k best(4) [OF that] eligible_imageKey [of _ m r sid] imagePrefix_imageKey [of r sid]
      by (metis option.distinct(1))
  qed
qed

end

section \<open>Keys\<close>

text \<open>What the registry stores, and under which key.\<close>

datatype reg_object =
    OSession string | OLease string | OLower string string | OLegacy string
  | OImage string i64 | OBranch string string

fun reg_key :: "'s registry \<Rightarrow> reg_object \<Rightarrow> string" where
  "reg_key r (OSession i) = sessionKey r i"
| "reg_key r (OLease i) = leaseKey r i"
| "reg_key r (OLower l i) = lowerSessionKey r l i"
| "reg_key r (OLegacy l) = legacyLowerKey r l"
| "reg_key r (OImage i off) = imageKey r i off"
| "reg_key r (OBranch p c) = branchKey r p c"

fun reg_valid :: "reg_object \<Rightarrow> bool" where
  "reg_valid (OSession i) = valid_id i"
| "reg_valid (OLease i) = valid_id i"
| "reg_valid (OLower l i) = (valid_id l \<and> valid_id i)"
| "reg_valid (OLegacy l) = valid_id l"
| "reg_valid (OImage i off) = (valid_id i \<and> 0 \<le>s off)"
| "reg_valid (OBranch p c) = (valid_id p \<and> valid_id c)"

lemma same_tail: "length x = length y \<Longrightarrow> a @ x = b @ y \<longleftrightarrow> a = b \<and> x = y"
  by (metis append_eq_append_conv)

lemma json_lock: "(a @ ''.json'' = b @ ''.lock'') = False" "(a @ ''.lock'' = b @ ''.json'') = False"
  "(a @ ''.json'' = b @ ''.json'') = (a = b)" "(a @ ''.lock'' = b @ ''.lock'') = (a = b)"
  by (subst same_tail; simp)+

lemma first_slash:
  "slash \<notin> set a \<Longrightarrow> slash \<notin> set b \<Longrightarrow> a @ slash # x = b @ slash # y \<longleftrightarrow> a = b \<and> x = y"
proof (induction a arbitrary: b)
  case Nil
  then show ?case by (cases b) auto
next
  case (Cons c a)
  then show ?case by (cases b) auto
qed

lemma valid_id_slash: "valid_id (a @ slash # b) = False" "valid_id x \<Longrightarrow> (a @ slash # b = x) = False"
  using valid_id_no_slash [of "a @ slash # b"] by auto

lemma no_slash_vs_slash: "slash \<notin> set a \<Longrightarrow> (a @ ''.json'' = b @ slash # x) = False"
  "slash \<notin> set a \<Longrightarrow> (b @ slash # x = a @ ''.json'') = False"
proof -
  assume a: "slash \<notin> set a"
  then have "slash \<notin> set (a @ ''.json'')" by simp
  then show "(a @ ''.json'' = b @ slash # x) = False" "(b @ slash # x = a @ ''.json'') = False"
    by (metis in_set_conv_decomp)+
qed

lemmas key_defs = sessionKey_def leaseKey_def lowerSessionKey_def lowerSessionsPrefix_def
  legacyLowerKey_def imageKey_def branchKey_def

text \<open>
  C36. No two objects of the registry share a key: for valid ids (and offsets that are not negative) the
  keys of two objects are equal exactly when they are the same kind of object with the same ids. In
  particular a lease can never overwrite metadata, and an index marker never another session's.
\<close>

theorem registry_keys_disjoint:
  assumes "reg_valid a" and "reg_valid b"
  shows "reg_key r a = reg_key r b \<longleftrightarrow> a = b"
proof
  assume eq: "reg_key r a = reg_key r b"
  show "a = b"
  proof (cases a; cases b)
    fix i x j y assume ab: "a = OImage i x" "b = OImage j y"
    then show ?thesis using eq assms imageKey_inj [of r i x j y] by simp
  qed (use eq assms in \<open>simp_all add: key_defs json_lock valid_id_slash
      first_slash [OF valid_id_no_slash valid_id_no_slash] no_slash_vs_slash [OF valid_id_no_slash]\<close>)
qed simp

theorem registry_keys_disjoint_witness:
  "reg_key \<lparr>rg_prefix = ''kf/'', rg_client = fake_store\<rparr> (OSession ''a'') \<noteq>
   reg_key \<lparr>rg_prefix = ''kf/'', rg_client = fake_store\<rparr> (OLease ''a'')"
proof -
  have "valid_id ''a''" by code_simp
  then show ?thesis
    using registry_keys_disjoint [of "OSession ''a''" "OLease ''a''" "\<lparr>rg_prefix = ''kf/'', rg_client = fake_store\<rparr>"]
    by simp
qed

section \<open>Leases, metadata and images\<close>


definition sample_fake :: s3fake where
  "sample_fake = \<lparr>fk_objects = fmempty, fk_failPut = False, fk_corrupt = fmempty, fk_truncateGets = 1\<rparr>"

definition sample_registry :: "s3fake registry" where
  "sample_registry = \<lparr>rg_prefix = ''kf/'', rg_client = fake_store\<rparr>"


text \<open>
  Session metadata round trips. After a successful \<open>Create\<close>, however many objects under other keys
  were written since, \<open>Load\<close> returns exactly the stored metadata whenever the object can be read at all;
  it never returns other metadata. A session that was never stored is reported as missing.
\<close>

theorem session_metadata_roundtrip:
  assumes "kv_store st content healthy" and "rg_client r = st" and "healthy s" and "healthy s2"
    and created: "RegCreate r m s = (None, s1)" and utf: "lineage_text (sm_Lineage m)"
    and kept: "content s2 (sessionKey r (sm_ID m)) = content s1 (sessionKey r (sm_ID m))"
  shows "(\<forall>m'. fst (Load r (sm_ID m) s2) = Inr m' \<longrightarrow> m' = m) \<and>
    (\<forall>b. fst (GetBytes st s2 (sessionKey r (sm_ID m))) = Inr b \<longrightarrow> fst (Load r (sm_ID m) s2) = Inr m)"
proof -
  note put = kv_store.RegCreate_put [OF assms(1,2,3) created]
  have c: "content s2 (sessionKey r (sm_ID m)) = Some (Doc (enc_session m))" using put(2) kept by simp
  have d: "dec_session (enc_session m) = Some m" using dec_enc_session put(3,4) utf by blast
  have "m' = m" if "fst (Load r (sm_ID m) s2) = Inr m'" for m'
    using kv_store.Load_get(3) [OF assms(1,2,4), of "sm_ID m" "Inr m'" "snd (Load r (sm_ID m) s2)" m'] that c d
    by (metis body.inject(2) option.inject prod.collapse)
  moreover have "fst (Load r (sm_ID m) s2) = Inr m"
    if b: "fst (GetBytes st s2 (sessionKey r (sm_ID m))) = Inr b" for b
  proof -
    obtain s3 where g: "GetBytes st s2 (sessionKey r (sm_ID m)) = (Inr b, s3)" using b by (metis prod.collapse)
    have "b = Doc (enc_session m)" using kv_store.GetBytes_Inr(1) [OF assms(1,4) g] c by simp
    moreover have "ValidateID ''session id'' (sm_ID m) = None" using put(3) by (simp add: ValidateID_None)
    ultimately show ?thesis using g d assms(2) by (simp add: Load_def getJSON_def getBytes_def)
  qed
  ultimately show ?thesis by blast
qed

theorem session_metadata_roundtrip_witness:
  "\<exists>s1. RegCreate sample_registry \<lparr>sm_ID = ''s1'', sm_LowerID = ''low'', sm_Lineage = None, sm_CreatedAt = 7\<rparr>
       sample_fake = (None, s1) \<and>
     fst (Load sample_registry ''s1'' s1) =
       Inr \<lparr>sm_ID = ''s1'', sm_LowerID = ''low'', sm_Lineage = None, sm_CreatedAt = 7\<rparr>"
proof -
  let ?m = "\<lparr>sm_ID = ''s1'', sm_LowerID = ''low'', sm_Lineage = None, sm_CreatedAt = 7\<rparr>"
  obtain e s1 where c: "RegCreate sample_registry ?m sample_fake = (e, s1)" by fastforce
  have "fst (RegCreate sample_registry ?m sample_fake) = None" by code_simp
  with c have c1: "RegCreate sample_registry ?m sample_fake = (None, s1)" by simp
  have r: "rg_client sample_registry = fake_store" "fk_corrupt sample_fake = fmempty"
    by (simp_all add: sample_registry_def sample_fake_def)
  have h: "fk_corrupt s1 = fmempty" using fk.RegCreate_put(1) [OF r c1] .
  have "isl (fst (GetBytes fake_store (snd (RegCreate sample_registry ?m sample_fake))
      (sessionKey sample_registry ''s1''))) = False" by code_simp
  then obtain b where b: "fst (GetBytes fake_store s1 (sessionKey sample_registry ''s1'')) = Inr b"
    using c1 by (cases "fst (GetBytes fake_store s1 (sessionKey sample_registry ''s1''))") auto
  have li: "lineage_text (sm_Lineage ?m)" by (simp add: lineage_text_def)
  have "sm_ID ?m = ''s1''" by simp
  with b have "fst (Load sample_registry ''s1'' s1) = Inr ?m"
    using session_metadata_roundtrip [OF fk.kv_store_axioms r h c1 li refl] by metis
  with c1 show ?thesis by blast
qed

text \<open>
  C34. Resume and branch start from the right state image. When the listing fits one page and the images
  were written by \<open>SaveStateImage\<close>, the result is the stored image with the greatest offset that does not
  exceed the bound (any offset for a negative bound), together with that offset; and -1 with no image
  means that no usable image exists.
\<close>

theorem latest_image_is_newest:
  assumes "kv_store st content healthy" and "rg_client r = st" and "healthy s"
    and "st_List st s (imagePrefix r sid) = [Inr ks]" and "images_canonical (content s) r sid"
    and "LatestStateImage r sid m s = (Inr (off, img), s')"
  shows "case img of
      None \<Rightarrow> off = - 1 \<and> (\<forall>x. 0 \<le>s x \<and> (m <s 0 \<or> x \<le>s m) \<longrightarrow> content s (imageKey r sid x) = None)
    | Some b \<Rightarrow> content s (imageKey r sid off) = Some b \<and> 0 \<le>s off \<and> (m <s 0 \<or> off \<le>s m) \<and>
        (\<forall>x. 0 \<le>s x \<and> (m <s 0 \<or> x \<le>s m) \<and> content s (imageKey r sid x) \<noteq> None \<longrightarrow> x \<le>s off)"
  using kv_store.LatestStateImage_newest [OF assms] by (cases img) simp_all

definition sample_images :: s3fake where
  "sample_images = sample_fake\<lparr>fk_objects :=
     fmupd (imageKey sample_registry ''s1'' 40) (Doc (JNum 2))
       (fmupd (imageKey sample_registry ''s1'' 7) (Doc (JNum 1)) fmempty)\<rparr>"

theorem latest_image_is_newest_witness:
  "\<exists>s'. LatestStateImage sample_registry ''s1'' 20 sample_images = (Inr (7, Some (Doc (JNum 1))), s') \<and>
     fmlookup (fk_objects sample_images) (imageKey sample_registry ''s1'' 7) = Some (Doc (JNum 1))"
proof -
  obtain res s' where l: "LatestStateImage sample_registry ''s1'' 20 sample_images = (res, s')" by fastforce
  have "fst (LatestStateImage sample_registry ''s1'' 20 sample_images) = Inr (7, Some (Doc (JNum 1)))" by code_simp
  with l have l1: "LatestStateImage sample_registry ''s1'' 20 sample_images = (Inr (7, Some (Doc (JNum 1))), s')"
    by simp
  have r: "rg_client sample_registry = fake_store" "fk_corrupt sample_images = fmempty"
    by (simp_all add: sample_registry_def sample_images_def sample_fake_def)
  have "images_canonical (fmlookup (fk_objects sample_images)) sample_registry ''s1''"
    unfolding images_canonical_def
    by (auto simp: sample_images_def word_sle_eq split: if_splits intro: exI [of _ 7] exI [of _ 40])
  from latest_image_is_newest [OF fk.kv_store_axioms r _ this l1] l1 show ?thesis
    by (simp add: fake_store_def fake_list_def)
qed

lemma all_pages_Inr: "all_pages ps = Inr ks \<Longrightarrow> \<exists>pages. ps = map Inr pages \<and> ks = concat pages"
proof (induction ps arbitrary: ks rule: all_pages.induct)
  case 1
  then show ?case by (intro exI [of _ "[]"]) simp
next
  case (3 xs ps)
  then obtain ys where "all_pages ps = Inr ys" "ks = xs @ ys" by (auto split: sum.splits)
  moreover from this 3 obtain pages where "ps = map Inr pages" "ys = concat pages" by blast
  ultimately show ?case by (intro exI [of _ "xs # pages"]) simp
qed simp

lemma marker_id_key:
  assumes "valid_id i"
  shows "marker_id (lowerSessionKey r l i) = Some i"
proof -
  have "path_Base ((rg_prefix r @ ''meta/lowers/'' @ l @ ''/sessions'') @ slash # (i @ ''.json'')) = i @ ''.json''"
    using assms valid_id_no_slash by (intro path_Base_join) auto
  then have "path_Base (lowerSessionKey r l i) = i @ ''.json''"
    by (simp add: lowerSessionKey_def lowerSessionsPrefix_def)
  then show ?thesis using assms by (auto simp: marker_id_def cut_suffix_def suffix_def valid_id_def)
qed

context kv_store
begin

lemma AppendLowerSession_put:
  assumes "rg_client r = st" and "healthy s" and "AppendLowerSession r now l i s = (e, s')"
  shows "healthy s'" and "e = None \<Longrightarrow> valid_id i"
    and "content s' = content s \<or> (\<exists>j. content s' = (content s)(lowerSessionKey r l i \<mapsto> Doc j))"
    and "e = None \<Longrightarrow> content s' (lowerSessionKey r l i) \<noteq> None"
proof -
  let ?j = "JObj [(''session_id'', json_string i), (''created_at'', JNum now)]"
  obtain e1 s1 where p: "putJSON r s (lowerSessionKey r l i) ?j = (e1, s1)" by fastforce
  note s1 = putJSON_put [OF assms(1,2) p]
  let ?a = "AppendLowerSession r now l i s"
  have "(snd ?a = s \<and> fst ?a \<noteq> None) \<or> (snd ?a = s1 \<and> (fst ?a = None \<longrightarrow> e1 = None \<and> valid_id i))"
    using p ValidateID_None [of "''session id''" i]
    by (cases "ValidateID ''lower id'' l"; cases "ValidateID ''session id'' i"; cases e1)
      (simp_all add: AppendLowerSession_def)
  then have "(s' = s \<and> e \<noteq> None) \<or> (s' = s1 \<and> (e = None \<longrightarrow> e1 = None \<and> valid_id i))"
    using assms(3) by simp
  then show "healthy s'" "e = None \<Longrightarrow> valid_id i"
    "content s' = content s \<or> (\<exists>j. content s' = (content s)(lowerSessionKey r l i \<mapsto> Doc j))"
    "e = None \<Longrightarrow> content s' (lowerSessionKey r l i) \<noteq> None"
    using s1 assms(2) by auto
qed

lemma ListByLower_lists:
  assumes "rg_client r = st" and "healthy s" and "ListByLower r l s = (Inr ids, s')"
    and "content s (lowerSessionKey r l i) \<noteq> None" and "valid_id i"
  shows "i \<in> set ids"
proof -
  have v: "ValidateID ''lower id'' l = None" using assms(3) by (auto simp: ListByLower_def split: option.splits)
  obtain ks where ks: "all_pages (st_List st s (lowerSessionsPrefix r l)) = Inr ks"
    using assms(1,3) v by (auto simp: ListByLower_def split: sum.splits)
  then obtain pages where "map Inr pages = st_List st s (lowerSessionsPrefix r l)" "ks = concat pages"
    using all_pages_Inr by metis
  then have "lowerSessionKey r l i \<in> set ks"
    using list_keys [OF assms(2)] assms(4) by (simp add: lowerSessionKey_def)
  then have "i \<in> set (List.map_filter marker_id ks)"
    using marker_id_key [OF assms(5)] by (auto simp: set_map_filter_iff)
  then show ?thesis using assms(1,3) v ks
    by (auto simp: ListByLower_def split: prod.splits sum.splits)
qed

end

text \<open>
  No session is lost from its lower's index: once \<open>AppendLowerSession\<close> has succeeded, every successful
  listing of that lower contains the session, whatever other markers were written meanwhile and however
  many pages the listing has; a listing is sorted and free of duplicates.
\<close>

theorem lower_index_complete:
  assumes "kv_store st content healthy" and "rg_client r = st" and "healthy s" and "healthy s2"
    and "AppendLowerSession r now l i s = (None, s1)"
    and "content s2 (lowerSessionKey r l i) = content s1 (lowerSessionKey r l i)"
    and listed: "ListByLower r l s2 = (Inr ids, s3)"
  shows "i \<in> set ids \<and> sorted ids \<and> distinct ids"
proof -
  have "sorted ids \<and> distinct ids"
    using listed by (auto simp: ListByLower_def split: option.splits sum.splits prod.splits)
  moreover have "i \<in> set ids"
    using kv_store.ListByLower_lists [OF assms(1,2,4) listed]
      kv_store.AppendLowerSession_put [OF assms(1,2,3,5)] assms(6) by metis
  ultimately show ?thesis by simp
qed

theorem lower_index_complete_witness:
  "\<exists>s1 ids s3. AppendLowerSession sample_registry 5 ''low'' ''s1'' sample_fake = (None, s1) \<and>
     ListByLower sample_registry ''low'' s1 = (Inr ids, s3) \<and> ''s1'' \<in> set ids \<and> sorted ids"
proof -
  let ?a = "AppendLowerSession sample_registry 5 ''low'' ''s1'' sample_fake"
  obtain e s1 where c: "?a = (e, s1)" by fastforce
  have "fst ?a = None" by code_simp
  with c have c1: "?a = (None, s1)" by simp
  obtain res s3 where l: "ListByLower sample_registry ''low'' s1 = (res, s3)" by fastforce
  have "fst (ListByLower sample_registry ''low'' (snd ?a)) = Inr [''s1'']" by code_simp
  with l c1 have l1: "ListByLower sample_registry ''low'' s1 = (Inr [''s1''], s3)" by simp
  have r: "rg_client sample_registry = fake_store" "fk_corrupt sample_fake = fmempty"
    by (simp_all add: sample_registry_def sample_fake_def)
  have h: "fk_corrupt s1 = fmempty" using fk.AppendLowerSession_put(1) [OF r c1] .
  from lower_index_complete [OF fk.kv_store_axioms r h c1 refl l1] c1 l1 show ?thesis by blast
qed

end
