(* ===== verification/Blobstore.thy ===== *)
theory Blobstore
  imports Sha256 Registry_Props
begin

text \<open>
  The content-addressed blob store (\<^verbatim>\<open>internal/blobstore/blobstore.go\<close>): file bytes under the hexadecimal
  SHA-256 of their content. The reader of \<open>PutReader\<close> is what reading it to the end gives: its bytes or an
  error.
\<close>

record 's blobstore =
  bs_prefix :: string
  bs_client :: "'s object_store"

definition blob_key :: "'s blobstore \<Rightarrow> string \<Rightarrow> go_error + string" where
  "blob_key b blobID =
     (case ValidateBlobID blobID of
        Some err \<Rightarrow> Inl err
      | None \<Rightarrow> Inr (bs_prefix b @ ''blobs/sha256/'' @ take 2 blobID @ ''/'' @ take 2 (drop 2 blobID) @ ''/'' @ blobID))"

definition PutReader :: "'s blobstore \<Rightarrow> go_error + bytes \<Rightarrow> 's \<Rightarrow> (go_error + string) \<times> 's" where
  "PutReader b rd s =
     (case rd of
        Inl err \<Rightarrow> (Inl err, s)
      | Inr data \<Rightarrow>
          let i = EncodeToString (Sum256 data)
          in case blob_key b i of
               Inl err \<Rightarrow> (Inl err, s)
             | Inr key \<Rightarrow>
                 (case PutBytes (bs_client b) s key (Raw data) of
                    (Some err, s') \<Rightarrow> (Inl (wrap_error (''blobstore: put '' @ key) err), s')
                  | (None, s') \<Rightarrow> (Inr i, s')))"

definition BlobPut :: "'s blobstore \<Rightarrow> bytes \<Rightarrow> 's \<Rightarrow> (go_error + string) \<times> 's" where
  "BlobPut b data s = PutReader b (Inr data) s"

text \<open>
  A blob key never holds a document of the registry (\<open>blob_keys_apart\<close>); one found there anyway does not
  have the content the id names.
\<close>

definition BlobGet :: "'s blobstore \<Rightarrow> string \<Rightarrow> 's \<Rightarrow> (go_error + bytes) \<times> 's" where
  "BlobGet b blobID s =
     (case blob_key b blobID of
        Inl err \<Rightarrow> (Inl err, s)
      | Inr key \<Rightarrow>
          (case GetBytes (bs_client b) s key of
             (Inl err, s') \<Rightarrow> (Inl (wrap_error (''blobstore: get '' @ blobID) (x_err err)), s')
           | (Inr (Doc _), s') \<Rightarrow> (Inl (plain_error (''blobstore: checksum mismatch for '' @ blobID)), s')
           | (Inr (Raw data), s') \<Rightarrow>
               if EncodeToString (Sum256 data) \<noteq> blobID
               then (Inl (plain_error (''blobstore: checksum mismatch for '' @ blobID)), s')
               else (Inr data, s')))"

text \<open>\<^verbatim>\<open>*blobstore.BlobStore\<close> as the session's \<^verbatim>\<open>BlobPutter\<close>.\<close>

definition s3_blobs :: "'s blobstore \<Rightarrow> 's blob_putter" where
  "s3_blobs b = \<lparr>bp_Put = (\<lambda>s data. BlobPut b data s)\<rparr>"

section \<open>Properties\<close>

definition blob_path :: "'s blobstore \<Rightarrow> string \<Rightarrow> string" where
  "blob_path b i = bs_prefix b @ ''blobs/sha256/'' @ take 2 i @ ''/'' @ take 2 (drop 2 i) @ ''/'' @ i"

lemma blob_key_sha256 [simp]: "blob_key b (EncodeToString (Sum256 data)) = Inr (blob_path b (EncodeToString (Sum256 data)))"
  using ValidateBlobID_sha256 [of data] by (simp add: blob_key_def blob_path_def sha256_hex_def)

lemma blob_keys_apart:
  assumes "bs_prefix b = rg_prefix r"
  shows "blob_path b i \<noteq> reg_key r x"
  using assms by (cases x) (simp_all add: blob_path_def key_defs)

lemma blob_key_Inr: "blob_key b i = Inr k \<Longrightarrow> ValidateBlobID i = None \<and> k = blob_path b i"
  by (simp add: blob_key_def blob_path_def split: option.splits)

lemma BlobPut_outcome:
  "BlobPut b data s =
     (case st_Put (bs_client b) s (blob_path b (sha256_hex data)) (Raw data) of
        (Some err, s') \<Rightarrow> (Inl (wrap_error (''blobstore: put '' @ blob_path b (sha256_hex data)) err), s')
      | (None, s') \<Rightarrow> (Inr (sha256_hex data), s'))"
  unfolding sha256_hex_def by (simp add: BlobPut_def PutReader_def PutBytes_def Let_def)

text \<open>
  C35. The blob store never hands out wrong bytes: whatever the object store below does (including a
  corrupted or replaced object), bytes returned for an id hash to that id, and an id that is not 64
  lowercase hex digits is refused before any request is made.
\<close>

theorem blob_get_verified:
  assumes "BlobGet b i s = (res, s')"
  shows "(\<forall>data. res = Inr data \<longrightarrow> sha256_hex data = i) \<and>
    (ValidateBlobID i \<noteq> None \<longrightarrow> res = Inl (the (ValidateBlobID i)) \<and> s' = s)"
proof (cases "ValidateBlobID i")
  case (Some err)
  then show ?thesis using assms by (auto simp: BlobGet_def blob_key_def)
next
  case None
  then show ?thesis using assms
    by (auto simp: BlobGet_def blob_key_def sha256_hex_def split: prod.splits sum.splits body.splits if_splits)
qed

definition sample_blobs :: "s3fake blobstore" where
  "sample_blobs = \<lparr>bs_prefix = ''kf/'', bs_client = fake_store\<rparr>"

theorem blob_get_verified_witness:
  "\<exists>err. BlobGet sample_blobs ''../../x'' sample_fake = (Inl err, sample_fake)"
proof -
  obtain res s' where g: "BlobGet sample_blobs ''../../x'' sample_fake = (res, s')" by fastforce
  have "ValidateBlobID ''../../x'' \<noteq> None" by code_simp
  with blob_get_verified [OF g] g show ?thesis by auto
qed

text \<open>
  C24. Blobs round trip and deduplicate. A successful \<open>Put\<close> returns the content's hash; from then on, as long
  as the object under that key is not replaced, \<open>Get\<close> of the returned id gives back exactly the bytes
  whenever the object can be read. Putting the same bytes again returns the same id and leaves the store
  as it was.
\<close>

theorem blob_put_get:
  assumes "kv_store (bs_client b) content healthy" and "healthy s" and "healthy s2"
    and put: "BlobPut b data s = (Inr i, s1)"
    and kept: "content s2 (blob_path b i) = content s1 (blob_path b i)"
  shows "(\<forall>d. fst (BlobGet b i s2) = Inr d \<longrightarrow> d = data) \<and>
    (\<forall>d. fst (GetBytes (bs_client b) s2 (blob_path b i)) = Inr d \<longrightarrow> fst (BlobGet b i s2) = Inr data) \<and>
    (\<forall>i' s3. BlobPut b data s2 = (Inr i', s3) \<longrightarrow> i' = i \<and> content s3 = content s2)"
proof -
  have i: "i = sha256_hex data" and p: "st_Put (bs_client b) s (blob_path b i) (Raw data) = (None, s1)"
    using put by (auto simp: BlobPut_outcome split: prod.splits option.splits)
  have c: "content s2 (blob_path b i) = Some (Raw data)" using kv_store.put_ok [OF assms(1,2) p] kept by simp
  obtain g s3 where g: "GetBytes (bs_client b) s2 (blob_path b i) = (g, s3)" by fastforce
  have get: "g = Inr d \<Longrightarrow> d = Raw data" for d
    using kv_store.GetBytes_Inr(1) [OF assms(1,3)] g c by force
  have key: "blob_key b i = Inr (blob_path b i)" by (simp add: i sha256_hex_def)
  have "fst (BlobGet b i s2) = (case g of Inl err \<Rightarrow> Inl (wrap_error (''blobstore: get '' @ i) (x_err err))
      | Inr _ \<Rightarrow> Inr data)"
    using get g by (cases g) (auto simp: BlobGet_def key i sha256_hex_def)
  moreover have "i' = i \<and> content s4 = content s2" if again: "BlobPut b data s2 = (Inr i', s4)" for i' s4
  proof -
    have "i' = i" "st_Put (bs_client b) s2 (blob_path b i) (Raw data) = (None, s4)"
      using again by (auto simp: BlobPut_outcome i split: prod.splits option.splits)
    then show ?thesis using kv_store.put_ok [OF assms(1,3)] c by (metis fun_upd_triv)
  qed
  ultimately show ?thesis using g by (auto split: sum.splits)
qed

theorem blob_put_get_witness:
  "\<exists>i s1. BlobPut sample_blobs ''hello'' sample_fake = (Inr i, s1) \<and>
     fst (BlobGet sample_blobs i s1) = Inr ''hello''"
proof -
  let ?i = "sha256_hex ''hello''"
  let ?s1 = "sample_fake\<lparr>fk_objects := fmupd (blob_path sample_blobs ?i) (Raw ''hello'') fmempty\<rparr>"
  have cl: "bs_client sample_blobs = fake_store" by (simp add: sample_blobs_def)
  have put: "BlobPut sample_blobs ''hello'' sample_fake = (Inr ?i, ?s1)"
    by (simp add: BlobPut_outcome cl fake_store_def fake_put_def sample_fake_def)
  have h: "fk_corrupt sample_fake = fmempty" "fk_corrupt ?s1 = fmempty" by (simp_all add: sample_fake_def)
  have "fst (GetBytes (bs_client sample_blobs) ?s1 (blob_path sample_blobs ?i)) = Inr (Raw ''hello'')"
    by (simp add: cl GetBytes_def s3_maxAttempts_def numeral_eq_Suc fake_store_def fake_get_def sample_fake_def
        sleepBackoff_def)
  with blob_put_get [of sample_blobs, unfolded cl, OF fk.kv_store_axioms h put refl] put cl show ?thesis by auto
qed

end
