(* ===== verification/Upper_Serialize.thy ===== *)
theory Upper_Serialize
  imports Upper_Props Json "HOL-Library.Monad_Syntax"
begin

text \<open>
  State images (\<^verbatim>\<open>internal/upper/serialize.go\<close>): \<open>view\<close> lists the tables in key order, \<open>Marshal\<close> is its JSON
  value with the struct tags of the source, \<open>UnmarshalState\<close> reads it back. The round trip is the
  identity on every reachable state whose symlink targets are valid UTF-8.
\<close>

section \<open>Encoding\<close>

fun enc_kind :: "kind \<Rightarrow> json" where
  "enc_kind KindFile = JNum 0"
| "enc_kind KindDir = JNum 1"
| "enc_kind KindSymlink = JNum 2"
| "enc_kind (KindOther k) = JNum k"

definition enc_extent :: "extent \<Rightarrow> json" where
  "enc_extent e = JObj
     [(''file_offset'', enc_i (FileOffset e)), (''length'', enc_u (Length e)),
      (''blob_id'', JBytes (BlobID e)), (''blob_offset'', enc_u (BlobOffset e))]"

definition enc_node :: "node \<Rightarrow> json" where
  "enc_node n = JObj (
     [(''kind'', enc_kind (n_Kind n)), (''mode'', enc_u (n_Mode n)), (''uid'', enc_u (n_UID n)),
      (''gid'', enc_u (n_GID n)), (''size'', enc_i (n_Size n))] @
     omit_unless (n_Target n \<noteq> []) ''target'' (json_string (n_Target n)) @
     omit_unless (n_Extents n \<noteq> []) ''extents'' (JArr (map enc_extent (n_Extents n))) @
     omit_unless (n_AtimeNs n \<noteq> 0) ''atime_ns'' (enc_i (n_AtimeNs n)) @
     omit_unless (n_MtimeNs n \<noteq> 0) ''mtime_ns'' (enc_i (n_MtimeNs n)) @
     omit_unless (n_Fallthrough n) ''fallthrough'' (JBool (n_Fallthrough n)) @
     omit_unless (n_LowerRel n \<noteq> []) ''lower_rel'' (json_string (n_LowerRel n)))"

definition enc_opt :: "string \<Rightarrow> ('a \<Rightarrow> json) \<Rightarrow> 'a option \<Rightarrow> (string \<times> json) list" where
  "enc_opt k f x = (case x of None \<Rightarrow> [] | Some v \<Rightarrow> [(k, f v)])"

definition enc_override :: "attr_override \<Rightarrow> json" where
  "enc_override ov = JObj (
     enc_opt ''mode'' enc_u (ov_Mode ov) @ enc_opt ''uid'' enc_u (ov_UID ov) @
     enc_opt ''gid'' enc_u (ov_GID ov) @ enc_opt ''atime_ns'' enc_i (ov_AtimeNs ov) @
     enc_opt ''mtime_ns'' enc_i (ov_MtimeNs ov) @ enc_opt ''size'' enc_i (ov_Size ov))"

record upperView =
  v_LowerID :: string
  v_SeqLast :: u64
  v_Nodes :: "(path \<times> node) list"
  v_Whiteouts :: "path list"
  v_Overrides :: "(path \<times> attr_override) list"
  v_Redirects :: "(path \<times> path) list"

text \<open>The entries of a map in key order: what the append loop and the sort produce together.\<close>

definition entries_of :: "(path, 'v) fmap \<Rightarrow> (path \<times> 'v) list" where
  "entries_of m = map (\<lambda>k. (k, the (fmlookup m k))) (keys_of m)"

definition view :: "upper \<Rightarrow> upperView" where
  "view u = \<lparr>v_LowerID = lowerID u, v_SeqLast = seqLast u, v_Nodes = entries_of (nodes u),
     v_Whiteouts = sorted_list_of_fset (whiteouts u), v_Overrides = entries_of (overrides u),
     v_Redirects = entries_of (redirects u)\<rparr>"

definition enc_view :: "upperView \<Rightarrow> json" where
  "enc_view v = JObj (
     [(''lower_id'', json_string (v_LowerID v)), (''seq_last'', enc_u (v_SeqLast v)),
      (''nodes'', JArr (map (\<lambda>(p, n). JObj [(''path'', json_string p), (''node'', enc_node n)]) (v_Nodes v))),
      (''whiteouts'', JArr (map json_string (v_Whiteouts v)))] @
     omit_unless (v_Overrides v \<noteq> []) ''overrides''
       (JArr (map (\<lambda>(p, ov). JObj [(''path'', json_string p), (''override'', enc_override ov)]) (v_Overrides v))) @
     omit_unless (v_Redirects v \<noteq> []) ''redirects''
       (JArr (map (\<lambda>(t, f). JObj [(''to'', json_string t), (''from'', json_string f)]) (v_Redirects v))))"

definition Marshal :: "upper \<Rightarrow> json" where
  "Marshal u = enc_view (view u)"

section \<open>Decoding\<close>

definition dec_kind :: "json \<Rightarrow> kind option" where
  "dec_kind j = map_option
     (\<lambda>k. if k = 0 then KindFile else if k = 1 then KindDir else if k = 2 then KindSymlink else KindOther k)
     (dec_num (- (2 ^ 63)) (2 ^ 63 - 1) j)"

definition dec_extent :: "json \<Rightarrow> extent option" where
  "dec_extent j =
     (if \<not> is_obj j then None
      else do {
        off \<leftarrow> dec_i64 (jfield ''file_offset'' j);
        len \<leftarrow> dec_u64 (jfield ''length'' j);
        blob \<leftarrow> dec_bytes (jfield ''blob_id'' j);
        boff \<leftarrow> dec_u64 (jfield ''blob_offset'' j);
        Some \<lparr>FileOffset = off, Length = len, BlobID = blob, BlobOffset = boff\<rparr>
      })"

definition dec_node :: "json \<Rightarrow> node option" where
  "dec_node j =
     (if \<not> is_obj j then None
      else do {
        kind \<leftarrow> dec_kind (jfield ''kind'' j);
        mode \<leftarrow> dec_u32 (jfield ''mode'' j);
        uid \<leftarrow> dec_u32 (jfield ''uid'' j);
        gid \<leftarrow> dec_u32 (jfield ''gid'' j);
        sz \<leftarrow> dec_i64 (jfield ''size'' j);
        target \<leftarrow> dec_str (jfield ''target'' j);
        exts \<leftarrow> dec_list dec_extent (jfield ''extents'' j);
        atime \<leftarrow> dec_i64 (jfield ''atime_ns'' j);
        mtime \<leftarrow> dec_i64 (jfield ''mtime_ns'' j);
        thru \<leftarrow> dec_bool (jfield ''fallthrough'' j);
        low \<leftarrow> dec_str (jfield ''lower_rel'' j);
        Some \<lparr>n_Kind = kind, n_Mode = mode, n_UID = uid, n_GID = gid, n_Size = sz, n_Target = target,
          n_Extents = exts, n_AtimeNs = atime, n_MtimeNs = mtime, n_Fallthrough = thru, n_LowerRel = low\<rparr>
      })"

definition dec_override :: "json \<Rightarrow> attr_override option" where
  "dec_override j =
     (if \<not> is_obj j then None
      else do {
        mode \<leftarrow> dec_ptr dec_u32 (jfield ''mode'' j);
        uid \<leftarrow> dec_ptr dec_u32 (jfield ''uid'' j);
        gid \<leftarrow> dec_ptr dec_u32 (jfield ''gid'' j);
        atime \<leftarrow> dec_ptr dec_i64 (jfield ''atime_ns'' j);
        mtime \<leftarrow> dec_ptr dec_i64 (jfield ''mtime_ns'' j);
        sz \<leftarrow> dec_ptr dec_i64 (jfield ''size'' j);
        Some \<lparr>ov_Mode = mode, ov_UID = uid, ov_GID = gid, ov_AtimeNs = atime, ov_MtimeNs = mtime, ov_Size = sz\<rparr>
      })"

text \<open>
  A list entry with a path. A null \<^verbatim>\<open>node\<close> or \<^verbatim>\<open>override\<close> would be stored as a nil pointer by the source;
  \<open>Marshal\<close> never writes one and the model refuses it.
\<close>

definition dec_pair :: "string \<Rightarrow> string \<Rightarrow> (json \<Rightarrow> 'v option) \<Rightarrow> json \<Rightarrow> (path \<times> 'v) option" where
  "dec_pair k kv f j =
     (if \<not> is_obj j then None
      else do {
        p \<leftarrow> dec_str (jfield k j);
        v \<leftarrow> f (jfield kv j);
        Some (p, v)
      })"

definition not_null :: "(json \<Rightarrow> 'v option) \<Rightarrow> json \<Rightarrow> 'v option" where
  "not_null f j = (if j = JNull then None else f j)"

definition dec_view :: "json \<Rightarrow> upperView option" where
  "dec_view j =
     (if \<not> is_obj j then None
      else do {
        low \<leftarrow> dec_str (jfield ''lower_id'' j);
        sq \<leftarrow> dec_u64 (jfield ''seq_last'' j);
        ns \<leftarrow> dec_list (dec_pair ''path'' ''node'' (not_null dec_node)) (jfield ''nodes'' j);
        ws \<leftarrow> dec_list dec_str (jfield ''whiteouts'' j);
        ovs \<leftarrow> dec_list (dec_pair ''path'' ''override'' (not_null dec_override)) (jfield ''overrides'' j);
        rs \<leftarrow> dec_list (dec_pair ''to'' ''from'' dec_str) (jfield ''redirects'' j);
        Some \<lparr>v_LowerID = low, v_SeqLast = sq, v_Nodes = ns, v_Whiteouts = ws, v_Overrides = ovs,
          v_Redirects = rs\<rparr>
      })"

fun put_all :: "(path \<times> 'v) list \<Rightarrow> (path, 'v) fmap \<Rightarrow> (path, 'v) fmap" where
  "put_all [] m = m"
| "put_all ((k, v) # es) m = put_all es (fmupd k v m)"

definition UnmarshalState :: "json \<Rightarrow> upper option" where
  "UnmarshalState b =
     (case dec_view b of
        None \<Rightarrow> None
      | Some v \<Rightarrow> Some (New\<lparr>
          lowerID := v_LowerID v, seqLast := v_SeqLast v,
          nodes := put_all (v_Nodes v) fmempty,
          whiteouts := fold finsert (v_Whiteouts v) {||},
          overrides := put_all (v_Overrides v) fmempty,
          redirects := put_all (v_Redirects v) fmempty\<rparr>))"

section \<open>Round trip\<close>

lemma dec_enc_extent [simp]: "dec_extent (enc_extent e) = Some e"
  by (simp add: dec_extent_def enc_extent_def is_obj_def jfield_def)

lemma dec_enc_kind: "\<forall>k. kd \<noteq> KindOther k \<Longrightarrow> dec_kind (enc_kind kd) = Some kd"
  by (cases kd) (simp_all add: dec_kind_def dec_num_def)

lemma jfield_JObj: "jfield k (JObj fs) = (case map_of (rev fs) k of None \<Rightarrow> JNull | Some v \<Rightarrow> v)"
  by (simp add: jfield_def)

lemma omit_unless_map_of [simp]:
  "map_of (omit_unless c k v) k' = (if c \<and> k' = k then Some v else None)"
  "rev (omit_unless c k v) = omit_unless c k v"
  by (simp_all add: omit_unless_def)

lemma enc_opt_map_of [simp]:
  "map_of (enc_opt k f x) k' = (if k' = k then map_option f x else None)"
  "rev (enc_opt k f x) = enc_opt k f x"
  by (simp_all add: enc_opt_def split: option.splits)

lemma dec_enc_node:
  assumes "\<forall>k. n_Kind n \<noteq> KindOther k" and "valid_utf8 (n_Target n)" and "valid_utf8 (n_LowerRel n)"
  shows "dec_node (enc_node n) = Some n"
  using assms
  by (simp add: dec_node_def enc_node_def is_obj_def jfield_JObj map_add_def dec_enc_kind)

lemma dec_enc_override [simp]: "dec_override (enc_override ov) = Some ov"
  by (cases "ov_Mode ov"; cases "ov_UID ov"; cases "ov_GID ov"; cases "ov_AtimeNs ov";
      cases "ov_MtimeNs ov"; cases "ov_Size ov")
    (simp_all add: dec_override_def enc_override_def enc_opt_def is_obj_def jfield_JObj dec_ptr_def)

lemma put_all_entries: "put_all (entries_of m) fmempty = m"
proof -
  have put: "fmlookup (put_all es a) k = (case map_of (rev es) k of Some v \<Rightarrow> Some v | None \<Rightarrow> fmlookup a k)"
    for es a k
    by (induction es a rule: put_all.induct) (auto simp: map_add_def split: option.splits)
  show ?thesis
  proof (rule fmap_ext)
    fix k
    have "map_of (rev (entries_of m)) k = (if k \<in> fmdom' m then Some (the (fmlookup m k)) else None)"
      unfolding entries_of_def rev_map
      by (simp add: map_of_map_restrict restrict_map_def)
    then show "fmlookup (put_all (entries_of m) fmempty) k = fmlookup m k"
      by (auto simp: put fmlookup_dom'_iff split: option.splits)
  qed
qed

lemma enc_node_not_null [simp]: "enc_node n \<noteq> JNull" "enc_override ov \<noteq> JNull"
  by (simp_all add: enc_node_def enc_override_def)

lemma dec_pair_enc:
  "valid_utf8 p \<Longrightarrow> f (g v) = Some v \<Longrightarrow> k \<noteq> kv \<Longrightarrow>
     dec_pair k kv f (JObj [(k, json_string p), (kv, g v)]) = Some (p, v)"
  by (simp add: dec_pair_def is_obj_def jfield_JObj)

lemma dec_list_pairs:
  assumes "\<And>p v. (p, v) \<in> set es \<Longrightarrow> valid_utf8 p \<and> f (g v) = Some v" and "k \<noteq> kv"
  shows "dec_list (dec_pair k kv f) (JArr (map (\<lambda>(p, v). JObj [(k, json_string p), (kv, g v)]) es)) = Some es"
proof (rule dec_list_map)
  fix x
  assume x: "x \<in> set es"
  obtain p v where pv: "x = (p, v)" by fastforce
  with x assms(1) have "valid_utf8 p" "f (g v) = Some v" by auto
  then show "dec_pair k kv f (case x of (p, v) \<Rightarrow> JObj [(k, json_string p), (kv, g v)]) = Some x"
    unfolding pv prod.case using assms(2) by (rule dec_pair_enc)
qed

lemma entries_of_mem: "(p, v) \<in> set (entries_of m) \<longleftrightarrow> fmlookup m p = Some v"
  by (auto simp: entries_of_def fmlookup_dom'_iff)

lemma entries_of_keys: "map fst (entries_of m) = keys_of m"
  by (simp add: entries_of_def comp_def)

definition texts_valid :: "upper \<Rightarrow> bool" where
  "texts_valid u \<longleftrightarrow> valid_utf8 (lowerID u) \<and>
     (\<forall>p n. fmlookup (nodes u) p = Some n \<longrightarrow> valid_utf8 (n_Target n))"

lemma norm_path_valid: "norm_path p \<Longrightarrow> valid_utf8 p"
  by (simp add: norm_path_def)

lemma dec_enc_view:
  assumes "upper_wf u" and "texts_valid u"
  shows "dec_view (enc_view (view u)) = Some (view u)"
proof -
  note kn = keys_normD [OF upper_wfD(1) [OF assms(1)], THEN norm_path_valid]
  have ns: "dec_list (dec_pair ''path'' ''node'' (not_null dec_node))
      (JArr (map (\<lambda>(p, n). JObj [(''path'', json_string p), (''node'', enc_node n)]) (entries_of (nodes u)))) =
      Some (entries_of (nodes u))"
  proof (rule dec_list_pairs)
    fix p n
    assume "(p, n) \<in> set (entries_of (nodes u))"
    then have n: "fmlookup (nodes u) p = Some n" by (simp add: entries_of_mem)
    then have "node_ok n" by (rule upper_wfD(2) [OF assms(1)])
    then have "valid_utf8 (n_LowerRel n)" "\<forall>k. n_Kind n \<noteq> KindOther k"
      using norm_path_valid by (auto simp: node_ok_def sizes_ok_def split: if_splits)
    moreover have "valid_utf8 (n_Target n)" using assms(2) n by (auto simp: texts_valid_def)
    ultimately show "valid_utf8 p \<and> not_null dec_node (enc_node n) = Some n"
      using kn(1) [of p] n by (simp add: not_null_def dec_enc_node fmlookup_dom'_iff)
  qed simp
  have ovs: "dec_list (dec_pair ''path'' ''override'' (not_null dec_override))
      (JArr (map (\<lambda>(p, ov). JObj [(''path'', json_string p), (''override'', enc_override ov)])
        (entries_of (overrides u)))) = Some (entries_of (overrides u))"
    by (rule dec_list_pairs) (use kn(3) in \<open>auto simp: not_null_def entries_of_mem fmlookup_dom'_iff\<close>)
  have rs: "dec_list (dec_pair ''to'' ''from'' dec_str)
      (JArr (map (\<lambda>(t, f). JObj [(''to'', json_string t), (''from'', json_string f)])
        (entries_of (redirects u)))) = Some (entries_of (redirects u))"
    by (rule dec_list_pairs)
      (use kn(4) upper_wfD(3) [OF assms(1), THEN norm_path_valid] in
        \<open>auto simp: entries_of_mem fmlookup_dom'_iff\<close>)
  have ws: "dec_list dec_str (JArr (map json_string (sorted_list_of_fset (whiteouts u)))) =
      Some (sorted_list_of_fset (whiteouts u))"
    by (rule dec_list_map) (use kn(2) in simp)
  have "valid_utf8 (lowerID u)" using assms(2) by (simp add: texts_valid_def)
  then show ?thesis
    using ns ovs rs ws
    by (simp add: dec_view_def enc_view_def view_def is_obj_def jfield_JObj map_add_def
        split: option.splits if_splits)
qed

lemma fold_finsert: "fold finsert xs A = fset_of_list xs |\<union>| A"
  by (induction xs arbitrary: A) auto

lemma Unmarshal_Marshal:
  assumes "upper_wf u" and "texts_valid u"
  shows "UnmarshalState (Marshal u) = Some u"
proof -
  have "fset_of_list (sorted_list_of_fset (whiteouts u)) = whiteouts u"
    by (rule fset_eqI) (simp add: fset_of_list.rep_eq)
  then show ?thesis
    using dec_enc_view [OF assms]
    by (simp add: UnmarshalState_def Marshal_def view_def put_all_entries fold_finsert New_def)
qed

text \<open>
  C10. A state image loses nothing: for every reachable overlay state whose lower id and symlink targets
  are valid UTF-8, decoding the encoded state gives the same state, field by field.
\<close>

theorem state_image_roundtrip:
  assumes "reachable u" and "texts_valid u"
  shows "UnmarshalState (Marshal u) = Some u"
  using Unmarshal_Marshal [OF reachable_wf [OF assms(1)] assms(2)] .

theorem state_image_roundtrip_witness: "UnmarshalState (Marshal sample_state) = Some sample_state"
proof -
  have "list_all (\<lambda>(p, n). valid_utf8 (n_Target n)) (entries_of (nodes sample_state))" by code_simp
  then have "\<forall>p n. fmlookup (nodes sample_state) p = Some n \<longrightarrow> valid_utf8 (n_Target n)"
    by (auto simp: list_all_iff simp flip: entries_of_mem)
  moreover have "valid_utf8 (lowerID sample_state)" by code_simp
  ultimately have "texts_valid sample_state" by (simp add: texts_valid_def)
  then show ?thesis by (rule state_image_roundtrip [OF sample_reachable])
qed

text \<open>
  The image is deterministic: its tables are listed in strictly ascending key order, with every
  entry of the state exactly once, so equal states have equal images whatever the map order was.
\<close>

theorem view_sorted:
  "sorted_wrt (<) (map fst (v_Nodes (view u))) \<and> sorted_wrt (<) (v_Whiteouts (view u)) \<and>
   sorted_wrt (<) (map fst (v_Overrides (view u))) \<and> sorted_wrt (<) (map fst (v_Redirects (view u))) \<and>
   ((p, n) \<in> set (v_Nodes (view u)) \<longleftrightarrow> fmlookup (nodes u) p = Some n) \<and>
   (p \<in> set (v_Whiteouts (view u)) \<longleftrightarrow> p |\<in>| whiteouts u)"
proof -
  have strict: "sorted_wrt (<) (sorted_list_of_fset A)" for A :: "string fset"
    using sorted_sorted_list_of_fset [of A] distinct_sorted_list_of_fset [of A]
    by (simp add: strict_sorted_iff)
  show ?thesis by (simp add: view_def entries_of_mem strict entries_of_keys)
qed

end
