(* ===== verification/Session_Open.thy ===== *)
theory Session_Open
  imports Blobstore Upper_Serialize
begin

text \<open>
  The life of a session (\<^verbatim>\<open>internal/session/session.go\<close>): creating, resuming, branching and checkpointing.
  Each operation threads the state \<open>l\<close> of the change log and the state \<open>s\<close> of the object store. The random
  bytes of \<open>NewID\<close> and the clock readings are arguments.
\<close>

definition NewID :: "go_error + bytes \<Rightarrow> go_error + string" where
  "NewID rnd = (case rnd of Inl err \<Rightarrow> Inl err | Inr b \<Rightarrow> Inr (EncodeToString b))"

definition fresh_session :: "session_meta \<Rightarrow> upper \<Rightarrow> i64 \<Rightarrow> i64 \<Rightarrow> u64 \<Rightarrow> session" where
  "fresh_session m u lst saved sq = \<lparr>Meta = m, s_upper = u, s_seq = sq, lastOffset = lst,
     s_lowerID = sm_LowerID m, leaseLost = False, diverged = False, savedOffset = saved, ckptInFlight = False\<rparr>"

definition start_event :: "i64 \<Rightarrow> string \<Rightarrow> string \<Rightarrow> lineage option \<Rightarrow> envelope" where
  "start_event micros i lid li =
     (NewEnvelope micros i lid (SessionStart \<lparr>ss_LowerId = lid, ss_Lineage = li\<rparr>))\<lparr>Seq := 1\<rparr>"

definition NewSession ::
    "'l event_log \<Rightarrow> 's registry \<Rightarrow> int \<Rightarrow> i64 \<Rightarrow> go_error + bytes \<Rightarrow> string \<Rightarrow> 'l \<Rightarrow> 's \<Rightarrow>
     (go_error + session) \<times> 'l \<times> 's" where
  "NewSession elog reg now micros rnd lid l s =
     (case NewID rnd of
        Inl err \<Rightarrow> (Inl err, l, s)
      | Inr i \<Rightarrow>
          let m = \<lparr>sm_ID = i, sm_LowerID = lid, sm_Lineage = None, sm_CreatedAt = now\<rparr>
          in case RegCreate reg m s of
               (Some err, s1) \<Rightarrow> (Inl (wrap_error ''session: register'' err), l, s1)
             | (None, s1) \<Rightarrow>
                 (case AppendLowerSession reg now lid i s1 of
                    (Some err, s2) \<Rightarrow> (Inl (wrap_error ''session: index under lower'' err), l, s2)
                  | (None, s2) \<Rightarrow>
                      let start = start_event micros i lid None
                      in case el_Append elog l start of
                           (Inl err, l1) \<Rightarrow> (Inl (wrap_error ''session: emit SessionStart'' err), l1, s2)
                         | (Inr off, l1) \<Rightarrow>
                             (case Apply New start of
                                Inl e \<Rightarrow> (Inl (upper_go_error e), l1, s2)
                              | Inr u \<Rightarrow> (Inr (fresh_session m u off (- 1) 1), l1, s2))))"

section \<open>Resume\<close>

definition RestoreUpper :: "'s registry \<Rightarrow> string \<Rightarrow> i64 \<Rightarrow> 's \<Rightarrow> (go_error + upper \<times> i64) \<times> 's" where
  "RestoreUpper reg sid maxOffset s =
     (case LatestStateImage reg sid maxOffset s of
        (Inl err, s1) \<Rightarrow> (Inl (wrap_error (''session: load state image for '' @ sid) err), s1)
      | (Inr (coversOffset, imgData), s1) \<Rightarrow>
          (if coversOffset <s 0 \<or> imgData = None then Inr (New, 0)
           else case the imgData of
             Raw _ \<Rightarrow> Inl (wrap_error ''session: decode state image'' decode_error)
           | Doc j \<Rightarrow>
               (case UnmarshalState j of
                  None \<Rightarrow> Inl (wrap_error ''session: decode state image'' decode_error)
                | Some restored \<Rightarrow> Inr (restored, coversOffset + 1)), s1))"

record reconstruction =
  rc_upper :: upper
  rc_fromOffset :: i64
  rc_covered :: i64
  rc_tail :: i64
  rc_replayed :: nat

definition reconstruct ::
    "'l event_log \<Rightarrow> 's registry \<Rightarrow> string \<Rightarrow> i64 \<Rightarrow> 'l \<Rightarrow> 's \<Rightarrow> (go_error + reconstruction) \<times> 's" where
  "reconstruct elog reg sid toOffset l s =
     (case RestoreUpper reg sid toOffset s of
        (Inl err, s1) \<Rightarrow> (Inl err, s1)
      | (Inr (u, fromOffset), s1) \<Rightarrow>
          (case el_ReadSessionTo elog l sid fromOffset toOffset of
             Inl err \<Rightarrow> Inl (wrap_error (''session: replay '' @ sid) err)
           | Inr (events, tailOffset) \<Rightarrow>
               (case replay_from u events of
                  Inl e \<Rightarrow> Inl (wrap_error ''session: apply'' (upper_go_error e))
                | Inr u' \<Rightarrow>
                    let covered0 = fromOffset - 1;
                        covered = (if events \<noteq> [] \<and> covered0 <s tailOffset - 1 then tailOffset - 1 else covered0)
                    in Inr \<lparr>rc_upper = u', rc_fromOffset = fromOffset, rc_covered = covered,
                         rc_tail = tailOffset, rc_replayed = length events\<rparr>), s1))"

definition OpenSession ::
    "'l event_log \<Rightarrow> 's registry \<Rightarrow> string \<Rightarrow> string \<Rightarrow> 'l \<Rightarrow> 's \<Rightarrow> (go_error + session) \<times> 's" where
  "OpenSession elog reg i lid l s =
     (case Load reg i s of
        (Inl err, s1) \<Rightarrow> (Inl err, s1)
      | (Inr m, s1) \<Rightarrow>
          if lid \<noteq> [] \<and> sm_LowerID m \<noteq> lid
          then (Inl (plain_error (''session: '' @ i @ '' belongs to another lower'')), s1)
          else (case reconstruct elog reg i (- 1) l s1 of
                  (Inl err, s2) \<Rightarrow> (Inl err, s2)
                | (Inr rc, s2) \<Rightarrow>
                    (Inr (fresh_session m (rc_upper rc) (rc_covered rc) (rc_fromOffset rc - 1)
                       (seqLast (rc_upper rc))), s2)))"

definition NewWithState :: "session_meta \<Rightarrow> upper \<Rightarrow> session" where
  "NewWithState m u = fresh_session m u (- 1) (- 1) (seqLast u)"

section \<open>Branch\<close>

definition branch_at :: "i64 \<Rightarrow> i64 \<Rightarrow> i64" where
  "branch_at toOffset tailOff =
     (if toOffset <s 0 then (if tailOff - 1 <s 0 then 0 else tailOff - 1) else toOffset)"

text \<open>The registration of the child: metadata, lower index, provenance.\<close>

definition register_child ::
    "'s registry \<Rightarrow> int \<Rightarrow> session_meta \<Rightarrow> string \<Rightarrow> i64 \<Rightarrow> 's \<Rightarrow> go_error option \<times> 's" where
  "register_child reg now m parentID at s =
     (case RegCreate reg m s of
        (Some err, s1) \<Rightarrow> (Some (wrap_error ''session: register child session'' err), s1)
      | (None, s1) \<Rightarrow>
          (case AppendLowerSession reg now (sm_LowerID m) (sm_ID m) s1 of
             (Some err, s2) \<Rightarrow> (Some (wrap_error ''session: append child to lower index'' err), s2)
           | (None, s2) \<Rightarrow>
               (case SaveBranch reg now parentID (sm_ID m) at s2 of
                  (Some err, s3) \<Rightarrow> (Some (wrap_error ''session: record branch provenance'' err), s3)
                | (None, s3) \<Rightarrow> (None, s3))))"

definition Branch ::
    "'l event_log \<Rightarrow> 's registry \<Rightarrow> int \<Rightarrow> i64 \<Rightarrow> go_error + bytes \<Rightarrow> string \<Rightarrow> i64 \<Rightarrow> string \<Rightarrow> 'l \<Rightarrow> 's \<Rightarrow>
     (go_error + session) \<times> 'l \<times> 's" where
  "Branch elog reg now micros rnd parentID toOffset lid l s =
     (case Load reg parentID s of
        (Inl err, s1) \<Rightarrow> (Inl (wrap_error (''session: load parent session '' @ parentID) err), l, s1)
      | (Inr pm, s1) \<Rightarrow>
          if lid \<noteq> [] \<and> sm_LowerID pm \<noteq> lid
          then (Inl (plain_error ''session: parent belongs to another lower''), l, s1)
          else (case reconstruct elog reg parentID toOffset l s1 of
                  (Inl err, s2) \<Rightarrow> (Inl err, l, s2)
                | (Inr rc, s2) \<Rightarrow>
                    (case NewID rnd of
                       Inl err \<Rightarrow> (Inl err, l, s2)
                     | Inr childID \<Rightarrow>
                         let at = branch_at toOffset (rc_tail rc);
                             li = \<lparr>ParentSessionId = parentID, ParentOffset = at\<rparr>;
                             m = \<lparr>sm_ID = childID, sm_LowerID = sm_LowerID pm, sm_Lineage = Some li,
                                  sm_CreatedAt = now\<rparr>
                         in case register_child reg now m parentID at s2 of
                              (Some err, s3) \<Rightarrow> (Inl err, l, s3)
                            | (None, s3) \<Rightarrow>
                                (case el_Append elog l (start_event micros childID (sm_LowerID pm) (Some li)) of
                                   (Inl err, l1) \<Rightarrow> (Inl (wrap_error ''session: emit child SessionStart'' err), l1, s3)
                                 | (Inr childOff, l1) \<Rightarrow>
                                     (case SaveStateImage reg childID childOff (Doc (Marshal (rc_upper rc))) s3 of
                                        (Some err, s4) \<Rightarrow>
                                          (Inl (wrap_error ''session: save child initial state'' err), l1, s4)
                                      | (None, s4) \<Rightarrow>
                                          (case OpenSession elog reg childID (sm_LowerID pm) l1 s4 of
                                             (child, s5) \<Rightarrow> (child, l1, s5)))))))"

section \<open>Checkpoint\<close>

text \<open>
  \<open>Checkpoint\<close> reads the session three times: the diverged flag, the known offset, and, in one critical
  section, offset and snapshot together. Commits may land in between, so the first two readings are
  arguments of their own; \<open>ss\<close> is the session at the third.
\<close>

definition Checkpoint ::
    "'s registry \<Rightarrow> bool \<Rightarrow> i64 \<Rightarrow> session \<Rightarrow> 's \<Rightarrow> (go_error + i64) \<times> session \<times> 's" where
  "Checkpoint reg isDiverged known ss s =
     (if isDiverged then (Inl err_log_diverged, ss, s)
      else if known <s 0 then (Inr (savedOffset ss), ss, s)
      else
        let off = lastOffset ss; snapshot = Marshal (s_upper ss)
        in if off <s 0 then (Inr (- 1), ss, s)
           else if off \<le>s savedOffset ss then (Inr (savedOffset ss), ss, s)
           else case SaveStateImage reg (sm_ID (Meta ss)) off (Doc snapshot) s of
                  (Some err, s1) \<Rightarrow> (Inl (wrap_error ''session: save state image'' err), ss, s1)
                | (None, s1) \<Rightarrow> (Inr off, ss\<lparr>savedOffset := off\<rparr>, s1))"

text \<open>The goroutine a commit starts: one checkpoint, whatever its result, then the flag is cleared.\<close>

definition checkpointAsync :: "'s registry \<Rightarrow> bool \<Rightarrow> i64 \<Rightarrow> session \<Rightarrow> 's \<Rightarrow> session \<times> 's" where
  "checkpointAsync reg isDiverged known ss s =
     (case Checkpoint reg isDiverged known ss s of (_, ss', s') \<Rightarrow> (ss'\<lparr>ckptInFlight := False\<rparr>, s'))"

end
