(* ===== verification/Kafkalog.thy ===== *)
theory Kafkalog
  imports Session
begin

text \<open>
  The change log over Kafka (\<^verbatim>\<open>internal/kafkalog/kafkalog.go\<close>). The broker client (sarama) is the record
  \<open>kafka\<close> of the calls the code makes, over a client state of any type; the protobuf codec is the pair
  \<open>enc\<close>, \<open>dec\<close> over a type of wire values. A partition consumer is the list of what successive fetches
  return; a fetch past its end runs into the fetch timeout.
\<close>

unbundle bit_operations_syntax

section \<open>The broker client\<close>

record 'v krecord =
  k_Offset :: i64
  k_Key :: bytes
  k_Value :: 'v

record ('k, 'v) kafka =
  k_SendMessage :: "'k \<Rightarrow> nat \<Rightarrow> bytes \<Rightarrow> 'v \<Rightarrow> (go_error + i64) \<times> 'k"
  k_NewestOffset :: "'k \<Rightarrow> nat \<Rightarrow> nat \<Rightarrow> go_error + i64" \<comment> \<open>partition, attempt\<close>
  k_SleepBackoff :: "'k \<Rightarrow> nat \<Rightarrow> go_error option" \<comment> \<open>the context's error, if it ends during the wait before the attempt\<close>
  k_CtxErr :: "'k \<Rightarrow> nat \<Rightarrow> go_error option" \<comment> \<open>\<^verbatim>\<open>ctx.Err()\<close> after the attempt\<close>
  k_OldestOffset :: "'k \<Rightarrow> nat \<Rightarrow> go_error + i64"
  k_ConsumePartition :: "'k \<Rightarrow> nat \<Rightarrow> i64 \<Rightarrow> go_error + (go_error + 'v krecord) list"

record klog =
  kl_partitions :: int \<comment> \<open>0 until the topic metadata has been read\<close>
  kl_cfgPartitions :: int

definition maxAttempts :: nat where
  "maxAttempts = 5"

section \<open>Partitions\<close>

text \<open>32-bit FNV-1a, as \<^verbatim>\<open>hash/fnv\<close> computes it.\<close>

definition fnv32a :: "bytes \<Rightarrow> u32" where
  "fnv32a s = foldl (\<lambda>h c. (h XOR of_char c) * 16777619) 2166136261 s"

definition partitionCount :: "klog \<Rightarrow> int" where
  "partitionCount lg = (if 0 < kl_partitions lg then kl_partitions lg else kl_cfgPartitions lg)"

definition PartitionFor :: "klog \<Rightarrow> string \<Rightarrow> nat" where
  "PartitionFor lg sessionID = unat (fnv32a sessionID mod word_of_int (partitionCount lg))"

definition RefreshPartitions :: "(go_error + nat list) \<Rightarrow> klog \<Rightarrow> (go_error + klog)" where
  "RefreshPartitions parts lg =
     (case parts of
        Inl err \<Rightarrow> Inl (wrap_error ''kafkalog: topic'' err)
      | Inr ps \<Rightarrow>
          if ps = [] then Inl (plain_error ''kafkalog: topic has no visible partitions (ACL check)'')
          else Inr (lg\<lparr>kl_partitions := int (length ps)\<rparr>))"

lemma PartitionFor_bound:
  assumes "0 < partitionCount lg" and "partitionCount lg < 2 ^ 32"
  shows "int (PartitionFor lg sid) < partitionCount lg"
proof -
  have "uint (word_of_int (partitionCount lg) :: u32) = partitionCount lg"
    using assms by (simp add: unsigned_of_int take_bit_int_eq_self)
  then show ?thesis
    using assms(1) unfolding PartitionFor_def by (simp add: uint_mod uint_nat [symmetric])
qed

section \<open>Append\<close>

definition Append ::
    "klog \<Rightarrow> ('k, 'v) kafka \<Rightarrow> (envelope \<Rightarrow> go_error + 'v) \<Rightarrow> 'k \<Rightarrow> envelope \<Rightarrow> (go_error + i64) \<times> 'k" where
  "Append lg kf enc k ev =
     (case enc ev of
        Inl err \<Rightarrow> (Inl err, k)
      | Inr v \<Rightarrow>
          (case k_SendMessage kf k (PartitionFor lg (SessionId ev)) (SessionId ev) v of
             (Inl err, k') \<Rightarrow> (Inl (wrap_error ''kafkalog: append'' err), k')
           | (Inr off, k') \<Rightarrow> (Inr off, k')))"

section \<open>Replay\<close>

text \<open>The retry loop: \<open>n\<close> attempts are left, numbered upwards from \<open>attempt\<close>.\<close>

fun high_water_loop :: "('k, 'v) kafka \<Rightarrow> 'k \<Rightarrow> nat \<Rightarrow> nat \<Rightarrow> nat \<Rightarrow> go_error \<Rightarrow> go_error + i64" where
  "high_water_loop kf k part attempt 0 lastErr = Inl lastErr"
| "high_water_loop kf k part attempt (Suc n) lastErr =
     (case (if 1 < attempt then k_SleepBackoff kf k attempt else None) of
        Some err \<Rightarrow> Inl err
      | None \<Rightarrow>
          (case k_NewestOffset kf k part attempt of
             Inr hw \<Rightarrow> Inr hw
           | Inl err \<Rightarrow>
               if k_CtxErr kf k attempt \<noteq> None then Inl err
               else high_water_loop kf k part (Suc attempt) n (wrap_error ''kafkalog: high-water mark'' err)))"

definition highWaterMark :: "('k, 'v) kafka \<Rightarrow> 'k \<Rightarrow> nat \<Rightarrow> go_error + i64" where
  "highWaterMark kf k part = high_water_loop kf k part 1 maxAttempts (plain_error [])"

text \<open>
  While the context is live, a partition that answers within the attempts answers the caller, however the
  earlier ones failed.
\<close>

lemma high_water_loop_retries:
  assumes "attempt \<le> a" and "a < attempt + n" and "k_NewestOffset kf k part a = Inr hw"
    and "\<forall>b\<in>{attempt ..< a}. isl (k_NewestOffset kf k part b) \<and> k_CtxErr kf k b = None"
    and "\<forall>b\<in>{attempt .. a}. k_SleepBackoff kf k b = None"
  shows "high_water_loop kf k part attempt n e = Inr hw"
  using assms
proof (induction n arbitrary: attempt e)
  case (Suc n)
  have sleep: "k_SleepBackoff kf k attempt = None" using Suc.prems(1,5) by simp
  show ?case
  proof (cases "attempt = a")
    case False
    then have lt: "attempt < a" using Suc.prems(1) by simp
    then obtain err where err: "k_NewestOffset kf k part attempt = Inl err" "k_CtxErr kf k attempt = None"
      using bspec [OF Suc.prems(4), of attempt] by (auto simp: isl_def)
    have "high_water_loop kf k part (Suc attempt) n e' = Inr hw" for e'
      using lt Suc.prems by (intro Suc.IH) auto
    with err sleep show ?thesis by simp
  qed (use Suc.prems(3) sleep in simp)
qed simp

lemma highWaterMark_retries:
  assumes "a \<in> {1 .. maxAttempts}" and "k_NewestOffset kf k part a = Inr hw"
    and "\<forall>b<a. isl (k_NewestOffset kf k part b) \<and> k_CtxErr kf k b = None" and "\<forall>b. k_SleepBackoff kf k b = None"
  shows "highWaterMark kf k part = Inr hw"
  unfolding highWaterMark_def using assms by (intro high_water_loop_retries) auto

definition TailOffset :: "klog \<Rightarrow> ('k, 'v) kafka \<Rightarrow> 'k \<Rightarrow> string \<Rightarrow> go_error + i64" where
  "TailOffset lg kf k sessionID = highWaterMark kf k (PartitionFor lg sessionID)"

definition deadline_error :: go_error where
  "deadline_error = \<lparr>ge_causes = [CDeadline], ge_msg = ''context deadline exceeded''\<rparr>"

definition fetch_failed :: "go_error \<Rightarrow> go_error" where
  "fetch_failed err =
     (if CDeadline \<in> set (ge_causes err) \<or> CCanceled \<in> set (ge_causes err)
      then wrap_error ''kafkalog: replay truncated'' err
      else wrap_error ''kafkalog: fetch'' err)"

text \<open>The loop of \<open>readSessionFromReader\<close>: \<open>out\<close> are the events so far, \<open>lst\<close> the offset to report.\<close>

fun read_loop ::
    "('v \<Rightarrow> go_error + envelope) \<Rightarrow> string \<Rightarrow> i64 \<Rightarrow> (go_error + 'v krecord) list \<Rightarrow>
     envelope list \<Rightarrow> i64 \<Rightarrow> go_error + (envelope list \<times> i64)" where
  "read_loop dec sid fin [] out lst = Inl (fetch_failed deadline_error)"
| "read_loop dec sid fin (Inl err # fs) out lst = Inl (fetch_failed err)"
| "read_loop dec sid fin (Inr msg # fs) out lst =
     (if fin <s k_Offset msg then Inr (out, lst)
      else if k_Key msg \<noteq> sid then
        (if fin \<le>s k_Offset msg then Inr (out, lst) else read_loop dec sid fin fs out lst)
      else case dec (k_Value msg) of
        Inl err \<Rightarrow> Inl (wrap_error ''kafkalog: decode'' err)
      | Inr ev \<Rightarrow>
          if fin \<le>s k_Offset msg then Inr (out @ [ev], k_Offset msg + 1)
          else read_loop dec sid fin fs (out @ [ev]) (k_Offset msg + 1))"

definition readSessionFromReader ::
    "('v \<Rightarrow> go_error + envelope) \<Rightarrow> string \<Rightarrow> i64 \<Rightarrow> i64 \<Rightarrow> (go_error + 'v krecord) list \<Rightarrow>
     go_error + (envelope list \<times> i64)" where
  "readSessionFromReader dec sid from fin fetches =
     (if fin <s from then Inr ([], from) else read_loop dec sid fin fetches [] from)"

definition ReadSessionTo ::
    "klog \<Rightarrow> ('k, 'v) kafka \<Rightarrow> ('v \<Rightarrow> go_error + envelope) \<Rightarrow> 'k \<Rightarrow> string \<Rightarrow> i64 \<Rightarrow> i64 \<Rightarrow>
     go_error + (envelope list \<times> i64)" where
  "ReadSessionTo lg kf dec k sid from toOffset =
     (let part = PartitionFor lg sid
      in case highWaterMark kf k part of
           Inl err \<Rightarrow> Inl err
         | Inr hw \<Rightarrow>
             let fin0 = hw - 1;
                 fin = (if 0 \<le>s toOffset \<and> toOffset <s fin0 then toOffset else fin0)
             in if fin <s from then Inr ([], from)
                else case k_OldestOffset kf k part of
                  Inl err \<Rightarrow> Inl (wrap_error ''kafkalog: oldest offset'' err)
                | Inr oldest \<Rightarrow>
                    let start = (if from <s oldest then oldest else from)
                    in if fin <s start then Inr ([], from)
                       else case k_ConsumePartition kf k part start of
                         Inl err \<Rightarrow> Inl (wrap_error ''kafkalog: consume partition'' err)
                       | Inr fetches \<Rightarrow> readSessionFromReader dec sid from fin fetches)"

definition ReadSession where
  "ReadSession lg kf dec k sid from = ReadSessionTo lg kf dec k sid from (- 1)"

text \<open>\<^verbatim>\<open>*kafkalog.Log\<close> as the session's \<^verbatim>\<open>EventLog\<close>.\<close>

definition kafka_event_log ::
    "klog \<Rightarrow> ('k, 'v) kafka \<Rightarrow> (envelope \<Rightarrow> go_error + 'v) \<Rightarrow> ('v \<Rightarrow> go_error + envelope) \<Rightarrow> 'k event_log" where
  "kafka_event_log lg kf enc dec = \<lparr>el_Append = Append lg kf enc, el_ReadSessionTo = ReadSessionTo lg kf dec\<rparr>"

end
