(* ===== verification/Session_Props.thy ===== *)
theory Session_Props
  imports Session Upper_Props
begin

text \<open>
  What the commit pipeline guarantees. \<open>commit_cases\<close> splits every commit into three outcomes: refused
  before anything happened, committed (durable and applied), or fenced because the append failed with an
  unknown outcome. \<open>durable_log\<close> is the contract of the change log; on top of it the in-memory overlay is
  shown to be the replay of the log at all times.
\<close>

section \<open>The outcomes of a commit\<close>

lemma norm_errors_None: "norm_errors ps = None \<longleftrightarrow> (\<forall>p\<in>set ps. norm_path p)"
proof (induction ps)
  case Nil
  then show ?case by simp
next
  case (Cons p ps)
  have "norm_error p = None \<longleftrightarrow> norm_path p"
    by (cases p rule: NormalizePath_cases) (simp_all add: norm_error_def)
  then show ?case using Cons by (auto split: option.splits)
qed

lemma Check_Seq [simp]: "Check u (ev\<lparr>Seq := q\<rparr>) = Check u ev"
  by (simp add: Check_def checkLocked_def)

definition seq_ok :: "session \<Rightarrow> bool" where
  "seq_ok s \<longleftrightarrow> s_seq s = seqLast (s_upper s) \<and> s_seq s < - 1"

lemma succ_less:
  assumes "(q :: u64) < - 1"
  shows "q < q + 1"
proof -
  have "uint q < 2 ^ 64 - 1" using assms by (simp add: word_less_def unsigned_minus_1_eq_mask mask_eq_exp_minus_1)
  then have "uint (q + 1) = uint q + 1" using uint_plus [of q 1] by simp
  then show ?thesis by (simp add: word_less_def)
qed

text \<open>
  The three outcomes. \<open>e\<close> is the event as appended, with its sequence number. The branch "apply after
  commit failed" of the source is unreachable, because \<open>Check\<close> ran under the same lock.
\<close>

lemma commitLocked_cases:
  assumes "commitLocked elog ev s l = (r, s', l')" and "seq_ok s"
  defines "e \<equiv> ev\<lparr>Seq := s_seq s + 1\<rparr>"
  obtains (refused) err where "r = Inl err" "s' = s" "l' = l"
      "refuseIfFenced s \<noteq> None \<or> Check (s_upper s) ev \<noteq> None"
    | (lost) err where "refuseIfFenced s = None" "Check (s_upper s) ev = None"
      "el_Append elog l e = (Inl err, l')" "r = Inl (diverged_by err)"
      "s' = s\<lparr>s_seq := s_seq s + 1, diverged := True, lastOffset := - 1\<rparr>"
    | (success) off u where "refuseIfFenced s = None" "Check (s_upper s) ev = None"
      "el_Append elog l e = (Inr off, l')" "Apply (s_upper s) e = Inr u"
      "r = Inr ((s_seq s + 1) mod checkpointEveryEvents = 0)"
      "s' = s\<lparr>s_seq := s_seq s + 1, lastOffset := off, s_upper := u\<rparr>"
proof (cases "refuseIfFenced s")
  case (Some err)
  then show ?thesis using assms(1) refused [of err] by (simp add: commitLocked_def)
next
  case fence: None
  show ?thesis
  proof (cases "Check (s_upper s) ev")
    case (Some err)
    then show ?thesis using assms(1) fence
      refused [of "wrap_error ''session: invalid event'' (upper_go_error err)"]
      by (simp add: commitLocked_def)
  next
    case None
    have "seqLast (s_upper s) < s_seq s + 1" using assms(2) succ_less [of "s_seq s"] unfolding seq_ok_def by metis
    then obtain u where u: "Apply (s_upper s) e = Inr u"
      using None by (simp add: e_def Apply_outcome not_le [symmetric])
    obtain a l2 where app: "el_Append elog l e = (a, l2)" by fastforce
    show ?thesis
    proof (cases a)
      case (Inl err)
      then show ?thesis using assms(1) lost fence None app by (simp add: commitLocked_def Let_def e_def)
    next
      case (Inr off)
      then show ?thesis using assms(1) success fence None app u
        by (simp add: commitLocked_def Let_def e_def)
    qed
  qed
qed

lemma commit_cases:
  assumes "commit elog ev s l = (err, ck, s', l')" and "seq_ok s"
  defines "e \<equiv> ev\<lparr>Seq := s_seq s + 1\<rparr>"
  obtains (refused) "err \<noteq> None" "s' = s" "l' = l" "\<not> ck"
    | (lost) aerr where "refuseIfFenced s = None" "el_Append elog l e = (Inl aerr, l')"
      "err = Some (diverged_by aerr)" "\<not> ck"
      "s' = s\<lparr>s_seq := s_seq s + 1, diverged := True, lastOffset := - 1\<rparr>"
    | (success) off u where "refuseIfFenced s = None" "err = None"
      "el_Append elog l e = (Inr off, l')" "Apply (s_upper s) e = Inr u"
      "ck \<longleftrightarrow> (s_seq s + 1) mod checkpointEveryEvents = 0 \<and> \<not> ckptInFlight s"
      "s' = s\<lparr>s_seq := s_seq s + 1, lastOffset := off, s_upper := u, ckptInFlight := ck \<or> ckptInFlight s\<rparr>"
proof (cases "refuseIfFenced s \<noteq> None \<or> validateEventPaths ev \<noteq> None")
  case True
  have "commit elog ev s l = (fst (commit elog ev s l), False, s, l) \<and> fst (commit elog ev s l) \<noteq> None"
    using True by (auto simp: commit_def split: option.splits)
  then show ?thesis using assms(1) refused by simp
next
  case False
  obtain r s2 l2 where cl: "commitLocked elog ev s l = (r, s2, l2)" by (cases "commitLocked elog ev s l")
  have c: "commit elog ev s l = (case r of
      Inl err \<Rightarrow> (Some err, False, s2, l2)
    | Inr need \<Rightarrow> if need \<and> \<not> ckptInFlight s2 then (None, True, s2\<lparr>ckptInFlight := True\<rparr>, l2)
        else (None, False, s2, l2))"
    using False cl by (simp add: commit_def split: sum.splits)
  from cl assms(2) show ?thesis
  proof (cases rule: commitLocked_cases)
    case refused
    then show ?thesis using c assms(1) that(1) by simp
  next
    case (lost aerr)
    then show ?thesis using c assms(1) that(2) by (simp add: e_def)
  next
    case (success off u)
    then show ?thesis using c assms(1) that(3) [of off u] by (auto simp: e_def split: if_splits)
  qed
qed

section \<open>The contract of the change log\<close>

text \<open>
  \<open>entries l sid\<close> is what a replay of session \<open>sid\<close> would deliver from log state \<open>l\<close>: its records with
  their offsets. A successful append adds exactly that record; a failed one may or may not have added it;
  other sessions never notice either. Offsets ascend, start at 0 and stay below the largest \<^verbatim>\<open>int64\<close>.
  Reading returns the records of the range.
\<close>

definition in_window :: "i64 \<Rightarrow> i64 \<Rightarrow> i64 \<times> envelope \<Rightarrow> bool" where
  "in_window from to r \<longleftrightarrow> from \<le>s fst r \<and> (to <s 0 \<or> fst r \<le>s to)"

locale durable_log =
  fixes elog :: "'l event_log" and entries :: "'l \<Rightarrow> string \<Rightarrow> (i64 \<times> envelope) list"
    and log_inv :: "'l \<Rightarrow> bool"
  assumes append_ok: "log_inv l \<Longrightarrow> el_Append elog l ev = (Inr off, l') \<Longrightarrow>
      log_inv l' \<and> entries l' sid =
        (if sid = SessionId ev then entries l sid @ [(off, ev)] else entries l sid)"
    and append_failed: "log_inv l \<Longrightarrow> el_Append elog l ev = (Inl err, l') \<Longrightarrow>
      log_inv l' \<and> (entries l' sid = entries l sid \<or>
        sid = SessionId ev \<and> (\<exists>off. entries l' sid = entries l sid @ [(off, ev)]))"
    and offsets: "log_inv l \<Longrightarrow>
      sorted_wrt (\<lambda>a b. fst a <s fst b) (entries l sid) \<and>
      (\<forall>r\<in>set (entries l sid). 0 \<le>s fst r \<and> fst r <s fst r + 1)"
    and read_range: "log_inv l \<Longrightarrow> 0 \<le>s from \<Longrightarrow> el_ReadSessionTo elog l sid from to = Inr (evs, tail) \<Longrightarrow>
      evs = map snd (filter (in_window from to) (entries l sid)) \<and>
      tail = (if evs = [] then from
              else fst (last (filter (in_window from to) (entries l sid))) + 1)"

text \<open>
  A session is in step with its records \<open>es\<close>, relative to a base state \<open>u0\<close> that covers the log up to
  \<open>o0\<close> (the empty state and -1 for a fresh session, an image for a resumed or branched one).
\<close>

definition after :: "i64 \<Rightarrow> (i64 \<times> envelope) list \<Rightarrow> envelope list" where
  "after o0 es = map snd (filter (\<lambda>r. o0 <s fst r) es)"

definition synced :: "upper \<Rightarrow> i64 \<Rightarrow> session \<Rightarrow> (i64 \<times> envelope) list \<Rightarrow> bool" where
  "synced u0 o0 s es \<longleftrightarrow>
     s_seq s = seqLast (s_upper s) \<and> replay_from u0 (after o0 es) = Inr (s_upper s) \<and>
     lastOffset s = (if es = [] then - 1 else fst (last es)) \<and> o0 \<le>s lastOffset s"

lemma synced_seq_ok: "synced u0 o0 s es \<Longrightarrow> s_seq s < - 1 \<Longrightarrow> seq_ok s"
  by (simp add: synced_def seq_ok_def)

context durable_log
begin

lemma append_offset:
  assumes "log_inv l" and "el_Append elog l ev = (Inr off, l')"
  shows "0 \<le>s off" and "\<forall>r\<in>set (entries l (SessionId ev)). fst r <s off"
proof -
  have e: "entries l' (SessionId ev) = entries l (SessionId ev) @ [(off, ev)]" and "log_inv l'"
    using append_ok [OF assms] by auto
  with offsets [of l' "SessionId ev"] show "0 \<le>s off" "\<forall>r\<in>set (entries l (SessionId ev)). fst r <s off"
    by (auto simp: sorted_wrt_append)
qed

lemma commit_sync:
  assumes inv: "log_inv l" and sync: "synced u0 o0 s (entries l (SessionId ev))"
    and room: "s_seq s < - 1" and c: "commit elog ev s l = (err, ck, s', l')"
  shows "log_inv l'"
    and "err = None \<Longrightarrow> entries l' (SessionId ev) =
        entries l (SessionId ev) @ [(lastOffset s', ev\<lparr>Seq := s_seq s'\<rparr>)] \<and>
      Apply (s_upper s) (ev\<lparr>Seq := s_seq s'\<rparr>) = Inr (s_upper s') \<and>
      synced u0 o0 s' (entries l' (SessionId ev)) \<and> diverged s' = diverged s"
    and "err \<noteq> None \<Longrightarrow> s' = s \<and> l' = l \<or> diverged s' \<and> s_upper s' = s_upper s \<and> lastOffset s' = - 1"
    and "sid \<noteq> SessionId ev \<Longrightarrow> entries l' sid = entries l sid"
proof -
  let ?e = "ev\<lparr>Seq := s_seq s + 1\<rparr>"
  from c synced_seq_ok [OF sync room] have
    "log_inv l' \<and> (sid \<noteq> SessionId ev \<longrightarrow> entries l' sid = entries l sid) \<and>
     (err = None \<longrightarrow> entries l' (SessionId ev) =
        entries l (SessionId ev) @ [(lastOffset s', ev\<lparr>Seq := s_seq s'\<rparr>)] \<and>
      Apply (s_upper s) (ev\<lparr>Seq := s_seq s'\<rparr>) = Inr (s_upper s') \<and>
      synced u0 o0 s' (entries l' (SessionId ev)) \<and> diverged s' = diverged s) \<and>
     (err \<noteq> None \<longrightarrow> s' = s \<and> l' = l \<or> diverged s' \<and> s_upper s' = s_upper s \<and> lastOffset s' = - 1)"
  proof (cases rule: commit_cases)
    case refused
    then show ?thesis using inv by simp
  next
    case (lost aerr)
    then show ?thesis using append_failed [OF inv, of ?e aerr l' sid] by auto
  next
    case (success off u)
    have ext: "log_inv l'" "\<And>x. entries l' x =
        (if x = SessionId ev then entries l x @ [(off, ?e)] else entries l x)"
      using append_ok [OF inv success(3)] by auto
    have big: "0 \<le>s off" "\<forall>r\<in>set (entries l (SessionId ev)). fst r <s off"
      using append_offset [OF inv success(3)] by simp_all
    have "o0 <s off"
    proof (cases "entries l (SessionId ev) = []")
      case True
      then show ?thesis using sync big(1) by (auto simp: synced_def word_sless_alt word_sle_eq)
    next
      case False
      then have "fst (last (entries l (SessionId ev))) <s off" using big(2) by simp
      with False sync show ?thesis by (auto simp: synced_def word_sless_alt word_sle_eq)
    qed
    then have "after o0 (entries l (SessionId ev) @ [(off, ?e)]) = after o0 (entries l (SessionId ev)) @ [?e]"
      by (simp add: after_def)
    then have "replay_from u0 (after o0 (entries l' (SessionId ev))) = Inr u"
      using sync success(4) by (simp add: ext(2) synced_def replay_from_append)
    then have "synced u0 o0 s' (entries l' (SessionId ev))"
      using success \<open>o0 <s off\<close> Apply_seq [OF success(4)]
      by (simp add: synced_def ext(2) word_sless_alt word_sle_eq)
    with success ext show ?thesis by simp
  qed
  then show "log_inv l'"
    and "err = None \<Longrightarrow> entries l' (SessionId ev) =
        entries l (SessionId ev) @ [(lastOffset s', ev\<lparr>Seq := s_seq s'\<rparr>)] \<and>
      Apply (s_upper s) (ev\<lparr>Seq := s_seq s'\<rparr>) = Inr (s_upper s') \<and>
      synced u0 o0 s' (entries l' (SessionId ev)) \<and> diverged s' = diverged s"
    and "err \<noteq> None \<Longrightarrow> s' = s \<and> l' = l \<or> diverged s' \<and> s_upper s' = s_upper s \<and> lastOffset s' = - 1"
    and "sid \<noteq> SessionId ev \<Longrightarrow> entries l' sid = entries l sid" by blast+
qed

end

section \<open>Commit\<close>

text \<open>
  C9. A commit is all or nothing, whatever the log does. Either it is refused, with the session and the
  log untouched; or the append is acknowledged, and then the event applies (it never fails after the
  commit point), the overlay is the old one advanced by exactly that event, and sequence number and
  offset are recorded; or the append fails, and then the overlay is unchanged and the session is fenced
  as diverged. An event is only ever appended after its preconditions were checked.
\<close>

theorem commit_all_or_nothing:
  assumes "commit elog ev s l = (err, ck, s', l')" and "seq_ok s"
  shows "(err \<noteq> None \<and> s' = s \<and> l' = l) \<or>
    (Check (s_upper s) ev = None \<and> err = None \<and>
      (\<exists>off. el_Append elog l (ev\<lparr>Seq := s_seq s + 1\<rparr>) = (Inr off, l') \<and>
        Apply (s_upper s) (ev\<lparr>Seq := s_seq s + 1\<rparr>) = Inr (s_upper s') \<and>
        lastOffset s' = off \<and> s_seq s' = s_seq s + 1 \<and> seqLast (s_upper s') = s_seq s')) \<or>
    (Check (s_upper s) ev = None \<and>
      (\<exists>aerr. el_Append elog l (ev\<lparr>Seq := s_seq s + 1\<rparr>) = (Inl aerr, l') \<and> err = Some (diverged_by aerr) \<and>
        s_upper s' = s_upper s \<and> diverged s' \<and> lastOffset s' = - 1))"
proof (cases "refuseIfFenced s \<noteq> None \<or> validateEventPaths ev \<noteq> None \<or> Check (s_upper s) ev \<noteq> None")
  case True
  then have "fst (commit elog ev s l) \<noteq> None \<and> snd (commit elog ev s l) = (False, s, l)"
    by (cases "refuseIfFenced s"; cases "validateEventPaths ev"; cases "Check (s_upper s) ev")
      (simp_all add: commit_def commitLocked_def)
  then show ?thesis using assms(1) by simp
next
  case False
  from assms show ?thesis
  proof (cases rule: commit_cases)
    case (success off u)
    then show ?thesis using False Apply_seq [OF success(4)] by auto
  qed (use False in auto)
qed

definition sample_meta :: session_meta where
  "sample_meta = \<lparr>sm_ID = ''s1'', sm_LowerID = ''low'', sm_Lineage = None, sm_CreatedAt = 0\<rparr>"

definition sample_session :: session where
  "sample_session = \<lparr>Meta = sample_meta, s_upper = New, s_seq = 0, lastOffset = - 1, s_lowerID = ''low'',
     leaseLost = False, diverged = False, savedOffset = - 1, ckptInFlight = False\<rparr>"

text \<open>A log that keeps the events in a list; it refuses an append once it holds two.\<close>

definition sample_log :: "envelope list event_log" where
  "sample_log = \<lparr>
     el_Append = (\<lambda>l ev. if length l < 2 then (Inr (word_of_nat (length l)), l @ [ev])
                          else (Inl (plain_error ''full''), l)),
     el_ReadSessionTo = (\<lambda>l sid from to. Inr ([], from))\<rparr>"

theorem commit_all_or_nothing_witness:
  "\<exists>err ck s' l'. commit sample_log sample_create sample_session [] = (err, ck, s', l') \<and>
     err = None \<and> s_seq s' = 1 \<and> seqLast (s_upper s') = 1"
proof -
  obtain err ck s' l' where c: "commit sample_log sample_create sample_session [] = (err, ck, s', l')"
    by (cases "commit sample_log sample_create sample_session []")
  have ok: "seq_ok sample_session"  by code_simp
  have "fst (commit sample_log sample_create sample_session []) = None" by code_simp
  with c have "err = None" by simp
  then have "s_seq s' = s_seq sample_session + 1 \<and> seqLast (s_upper s') = s_seq s'"
    using commit_all_or_nothing [OF c ok] by auto
  with c \<open>err = None\<close> show ?thesis by (simp add: sample_session_def)
qed

text \<open>
  A fenced session writes nothing more: once the lease is lost or the log has diverged, every commit
  and every write is refused without touching the log, the overlay or the blob store, and the kernel
  sees a read-only file system.
\<close>

theorem fenced_session_is_read_only:
  assumes "leaseLost s \<or> diverged s"
  shows "\<exists>err. commit elog ev s l = (Some err, False, s, l) \<and> mapErrno (Some err) = Some EROFS \<and>
    CommitSparseWrite elog blobs now p off data eof mode uid gid sparse s l b = (Some err, False, s, l, b)"
proof -
  from assms obtain err where "refuseIfFenced s = Some err" "err = err_lease_lost \<or> err = err_log_diverged"
    by (cases "leaseLost s") (auto simp: refuseIfFenced_def)
  then show ?thesis
    by (auto simp: commit_def CommitSparseWrite_def preflightWrite_def mapErrno_def err_lease_lost_def
        err_log_diverged_def)
qed

theorem fenced_session_is_read_only_witness:
  "\<exists>err. commit sample_log sample_create (MarkLeaseLost sample_session) [] =
     (Some err, False, MarkLeaseLost sample_session, [])"
  using fenced_session_is_read_only [of "MarkLeaseLost sample_session"]
  by (fastforce simp: MarkLeaseLost_def)

end
