(* ===== verification/Session_Open_Props.thy ===== *)
theory Session_Open_Props
  imports Session_Open Kafka_Props
begin

text \<open>
  Durability of a session across checkpoints, crashes, resumes and branches. \<open>images_sound\<close> says what the
  state images of a session mean; commits, checkpoints and lease loss keep it, in any order and with any
  failures; and from it, resuming gives the replay of the durable log, and branching the replay of a
  prefix.
\<close>

section \<open>Texts stay valid\<close>

definition event_text :: "envelope \<Rightarrow> bool" where
  "event_text ev \<longleftrightarrow> valid_utf8 (LowerId ev) \<and>
     (case Op ev of Some (Symlink sy) \<Rightarrow> valid_utf8 (sy_Target sy) | _ \<Rightarrow> True)"

lemma target_simps [simp]:
  "n_Target (absorb_attrs ov n) = n_Target n" "n_Target (set_attrs sa n) = n_Target n"
  "n_Target (write_size w n) = n_Target n" "n_Target (write_extents w n) = n_Target n"
  "n_Target zero_node = []"
  by (simp_all add: absorb_attrs_def set_attrs_def write_size_def write_extents_def Let_def zero_node_def)

lemma texts_put_node: "texts_valid u \<Longrightarrow> valid_utf8 (n_Target n) \<Longrightarrow> texts_valid (put_node p n u)"
  by (simp add: texts_valid_def put_node_def)

lemma texts_fields [simp]:
  "texts_valid (u\<lparr>whiteouts := w\<rparr>) = texts_valid u" "texts_valid (u\<lparr>redirects := rd\<rparr>) = texts_valid u"
  "texts_valid (u\<lparr>overrides := ov\<rparr>) = texts_valid u" "texts_valid (u\<lparr>seqLast := q\<rparr>) = texts_valid u"
  by (simp_all add: texts_valid_def)

lemma texts_write_target:
  assumes "texts_valid u" and "write_target u w p = (u', n)"
  shows "texts_valid u' \<and> valid_utf8 (n_Target n)"
  using assms
  by (auto simp: write_target_def absorbOverride_def texts_valid_def Let_def split: option.splits if_splits)

lemma texts_rename: "texts_valid u \<Longrightarrow> texts_valid (rename_paths from to fl u)"
proof -
  have m: "texts_valid v \<Longrightarrow> texts_valid (moveNodes from to v)" for v
    using move_keys_values [of "from" to _ "nodes v"] by (fastforce simp: texts_valid_def moveNodes_def)
  have d: "texts_valid v \<Longrightarrow> texts_valid (deleteSubtree to v)" for v
    using delete_keys_values [of to _ "nodes v"] by (fastforce simp: texts_valid_def deleteSubtree_def)
  show "texts_valid u \<Longrightarrow> texts_valid (rename_paths from to fl u)"
    unfolding rename_paths_def Let_def moveSubtree_def
    by (auto simp: moveRedirects_def moveWhiteouts_def moveOverrides_def intro!: m d)
qed

lemma Apply_texts:
  assumes "Apply u ev = Inr u'" and "texts_valid u" and "event_text ev"
  shows "texts_valid u'"
proof -
  let ?u = "if LowerId ev \<noteq> [] then u\<lparr>lowerID := LowerId ev\<rparr> else u"
  from assms(1) obtain v where ap: "apply_op (Op ev) ?u = Inr v" and u': "u' = v\<lparr>seqLast := Seq ev\<rparr>"
    by (rule Apply_Inr)
  have u: "texts_valid ?u" using assms(2,3) by (auto simp: texts_valid_def event_text_def)
  have "texts_valid v"
  proof (cases "Op ev")
    case (Some op)
    note op = this
    show ?thesis
    proof (cases op)
      case (Write w)
      then show ?thesis using ap op u texts_write_target [OF u]
        by (auto simp: apply_op_def with_path_def apply_write_def texts_put_node split: sum.splits prod.splits)
    next
      case (Setattr sa)
      have "n_Target n = []" if "absorbOverride x y (zero_node\<lparr>n_Kind := a, n_Mode := b, n_Size := c,
          n_Fallthrough := d, n_LowerRel := e\<rparr>) = (w, n)" for x y a b c d e w n
        using that by (auto simp: absorbOverride_def split: option.splits)
      moreover have "texts_valid w" if "absorbOverride ?u y n = (w, m)" for y n w m
        using that u by (auto simp: absorbOverride_def split: option.splits)
      ultimately show ?thesis using ap op u Setattr
        by (auto simp: apply_op_def applySetattr_def Let_def texts_valid_def [of ?u]
            intro!: texts_put_node [OF u] texts_put_node split: sum.splits option.splits prod.splits)
    next
      case (Rename r)
      then show ?thesis using ap op u texts_rename [OF u]
        by (auto simp: apply_op_def applyRename_def split: sum.splits)
    qed (use ap op u assms(3) in \<open>auto simp: apply_op_def with_path_def remove_entry_def event_text_def
        texts_valid_def put_node_def split: sum.splits if_splits\<close>)
  qed (use ap u in \<open>simp add: apply_op_def\<close>)
  then show ?thesis by (simp add: u')
qed

section \<open>Parts of the log\<close>

text \<open>The events after offset \<open>o0\<close> up to \<open>to\<close> inclusive (all of them for a negative \<open>to\<close>).\<close>

definition span :: "i64 \<Rightarrow> i64 \<Rightarrow> (i64 \<times> envelope) list \<Rightarrow> envelope list" where
  "span o0 to es = map snd (filter (\<lambda>r. o0 <s fst r \<and> (to <s 0 \<or> fst r \<le>s to)) es)"

abbreviation by_offset :: "(i64 \<times> envelope) list \<Rightarrow> bool" where
  "by_offset \<equiv> sorted_wrt (\<lambda>a b. fst a <s fst b)"

lemma after_span: "after o0 es = span o0 (- 1) es"
  by (simp add: after_def span_def word_sless_alt)

lemma span_split:
  assumes "by_offset es" and "o0 \<le>s x" and "0 \<le>s x" and "to <s 0 \<or> x \<le>s to"
  shows "span o0 to es = span o0 x es @ span x to es"
  using assms(1)
proof (induction es)
  case Nil
  then show ?case by (simp add: span_def)
next
  case (Cons r es)
  show ?case
  proof (cases "x <s fst r")
    case True
    then have "\<forall>q\<in>set (r # es). x <s fst q" using Cons.prems by (auto simp: word_sless_alt)
    then have "span o0 x (r # es) = []" using assms(3)
      by (auto simp: span_def filter_empty_conv word_sless_alt word_sle_eq)
    moreover from \<open>\<forall>q\<in>set (r # es). x <s fst q\<close> assms(2) have
      "filter (\<lambda>r. o0 <s fst r \<and> (to <s 0 \<or> fst r \<le>s to)) (r # es) =
       filter (\<lambda>r. x <s fst r \<and> (to <s 0 \<or> fst r \<le>s to)) (r # es)"
      by (intro filter_cong refl) (auto simp: word_sless_alt word_sle_eq)
    ultimately show ?thesis by (simp add: span_def)
  next
    case False
    with Cons assms(3,4) show ?thesis by (auto simp: span_def word_sless_alt word_sle_eq)
  qed
qed

lemma span_grow:
  assumes "x <s off" and "0 \<le>s x"
  shows "span o0 x (es @ [(off, ev)]) = span o0 x es"
  using assms by (auto simp: span_def word_sless_alt word_sle_eq)

lemma last_offset_max:
  assumes "by_offset es" and "r \<in> set es"
  shows "fst r \<le>s fst (last es)"
proof -
  obtain ys where es: "es = ys @ [last es]" using assms(2) by (metis append_butlast_last_id list.set(1) empty_iff)
  then have "by_offset (ys @ [last es])" using assms(1) by simp
  then show ?thesis using assms(2) es
    by (metis (mono_tags, lifting) Un_iff in_set_conv_decomp set_ConsD set_append signed.less_imp_le
        signed.order_refl sorted_wrt_append empty_iff empty_set list.set(1))
qed

lemma last_span:
  assumes "by_offset es" and "r \<in> set es" and "o0 <s fst r"
  shows "last (filter (\<lambda>r. o0 <s fst r) es) = last es"
proof -
  obtain ys where es: "es = ys @ [last es]" using assms(2) by (metis append_butlast_last_id empty_iff list.set(1))
  have "o0 <s fst (last es)" using last_offset_max [OF assms(1,2)] assms(3) by (simp add: word_sless_alt word_sle_eq)
  then show ?thesis by (subst es) simp
qed

section \<open>What the state images of a session mean\<close>

text \<open>
  \<open>u0\<close> and \<open>o0\<close> are the session's base: the empty state and -1 for a session created afresh, the branched
  state and the offset of the session's first record for a child. Every image is tagged with the offset of
  a record of the session and holds the base advanced by the events up to that record; a child's base
  image exists.
\<close>

definition image_ok :: "upper \<Rightarrow> i64 \<Rightarrow> (i64 \<times> envelope) list \<Rightarrow> i64 \<Rightarrow> body \<Rightarrow> bool" where
  "image_ok u0 o0 es x b \<longleftrightarrow> o0 \<le>s x \<and> x \<in> fst ` set es \<and>
     (\<exists>u. b = Doc (Marshal u) \<and> UnmarshalState (Marshal u) = Some u \<and> replay_from u0 (span o0 x es) = Inr u)"

definition images_sound ::
    "upper \<Rightarrow> i64 \<Rightarrow> (i64 \<times> envelope) list \<Rightarrow> (string \<Rightarrow> body option) \<Rightarrow> 's registry \<Rightarrow> string \<Rightarrow> bool" where
  "images_sound u0 o0 es c reg sid \<longleftrightarrow>
     images_canonical c reg sid \<and>
     (o0 = - 1 \<and> u0 = New \<or> 0 \<le>s o0 \<and> c (imageKey reg sid o0) \<noteq> None) \<and>
     (\<forall>x b. 0 \<le>s x \<and> c (imageKey reg sid x) = Some b \<longrightarrow> image_ok u0 o0 es x b)"

lemma image_ok_grow:
  assumes "image_ok u0 o0 es x b" and "\<forall>r\<in>set es. fst r <s off" and "0 \<le>s x"
  shows "image_ok u0 o0 (es @ [(off, ev)]) x b"
proof -
  have "x <s off" using assms(1,2) by (auto simp: image_ok_def)
  then show ?thesis using assms(1,3) span_grow [of x off o0 es ev] by (auto simp: image_ok_def)
qed

lemma images_sound_grow:
  assumes "images_sound u0 o0 es c reg sid" and "\<forall>r\<in>set es. fst r <s off"
  shows "images_sound u0 o0 (es @ [(off, ev)]) c reg sid"
  using assms image_ok_grow unfolding images_sound_def by blast

lemma images_sound_cong:
  assumes "images_sound u0 o0 es c reg sid" and same: "\<And>k. prefix (imagePrefix reg sid) k \<Longrightarrow> c' k = c k"
  shows "images_sound u0 o0 es c' reg sid"
proof -
  have "c' (imageKey reg sid x) = c (imageKey reg sid x)" for x by (rule same) simp
  moreover have "images_canonical c' reg sid"
    using assms unfolding images_sound_def images_canonical_def by metis
  ultimately show ?thesis using assms(1) unfolding images_sound_def by simp
qed

lemma images_sound_save:
  assumes "images_sound u0 o0 es c reg sid" and "x \<in> fst ` set es" and "0 \<le>s x" and "o0 \<le>s x"
    and "replay_from u0 (span o0 x es) = Inr u" and "UnmarshalState (Marshal u) = Some u" and "valid_id sid"
  shows "images_sound u0 o0 es (c(imageKey reg sid x \<mapsto> Doc (Marshal u))) reg sid"
proof -
  have "imageKey reg sid y = imageKey reg sid x \<longleftrightarrow> y = x" if "0 \<le>s y" for y
    using imageKey_inj [of reg sid y sid x] assms(3,7) that by auto
  moreover have "image_ok u0 o0 es x (Doc (Marshal u))" using assms by (auto simp: image_ok_def)
  ultimately show ?thesis using assms(1,3) unfolding images_sound_def images_canonical_def by auto
qed

section \<open>Log and store together\<close>

text \<open>The images of the session fit the first page of the listing.\<close>

definition one_page :: "'s registry \<Rightarrow> string \<Rightarrow> 's \<Rightarrow> bool" where
  "one_page reg sid s \<longleftrightarrow> (\<exists>pg. st_List (rg_client reg) s (imagePrefix reg sid) = [pg])"

locale session_storage =
  durable_log elog entries log_inv + kv_store st content healthy
  for elog :: "'l event_log" and entries log_inv and st :: "'s object_store" and content healthy +
  fixes reg :: "'s registry"
  assumes client: "rg_client reg = st"
    and pages: "healthy s \<Longrightarrow> one_page reg sid s"

lemma sint_succ: "(x :: i64) <s x + 1 \<Longrightarrow> sint (x + 1) = sint x + 1"
proof (cases "sint x = 2 ^ 63 - 1")
  case True
  assume "x <s x + 1"
  with True have "2 ^ 63 - 1 < sint (x + 1)" by (simp add: word_sless_alt)
  with sint_range [of "x + 1"] show ?thesis by linarith
next
  case False
  then show ?thesis using sint_range [of x] by (subst sint_plus) auto
qed

context session_storage
begin

lemma RestoreUpper_sound:
  assumes h: "healthy s"
    and snd: "images_sound u0 o0 es (content s) reg sid" and to: "to <s 0 \<or> o0 \<le>s to"
    and res: "RestoreUpper reg sid to s = (Inr (u, frm), s')"
  shows "healthy s' \<and> content s' = content s"
    and "frm = 0 \<and> o0 = - 1 \<and> u = u0 \<or>
      (\<exists>x. frm = x + 1 \<and> 0 \<le>s x \<and> o0 \<le>s x \<and> (to <s 0 \<or> x \<le>s to) \<and> x \<in> fst ` set es \<and>
        content s (imageKey reg sid x) \<noteq> None \<and> replay_from u0 (span o0 x es) = Inr u)"
proof -
  obtain off img s1 where l: "LatestStateImage reg sid to s = (Inr (off, img), s1)"
    using res by (auto simp: RestoreUpper_def split: prod.splits sum.splits)
  obtain ks where ks: "st_List st s (imagePrefix reg sid) = [Inr ks]"
    using pages [OF h, of sid] l client by (auto simp: one_page_def LatestStateImage_def split: option.splits sum.splits)
  have canon: "images_canonical (content s) reg sid" using snd by (simp add: images_sound_def)
  note best = LatestStateImage_best [OF client h ks l] LatestStateImage_newest [OF client h ks canon l]
  have s': "s' = s1" using res l by (auto simp: RestoreUpper_def split: if_splits option.splits body.splits)
  show "healthy s' \<and> content s' = content s" using best(1,2) s' by simp
  show "frm = 0 \<and> o0 = - 1 \<and> u = u0 \<or>
      (\<exists>x. frm = x + 1 \<and> 0 \<le>s x \<and> o0 \<le>s x \<and> (to <s 0 \<or> x \<le>s to) \<and> x \<in> fst ` set es \<and>
        content s (imageKey reg sid x) \<noteq> None \<and> replay_from u0 (span o0 x es) = Inr u)"
  proof (cases img)
    case None
    then have "frm = 0" "u = New" using res l by (auto simp: RestoreUpper_def)
    moreover have "\<not> (0 \<le>s o0 \<and> content s (imageKey reg sid o0) \<noteq> None)"
      using best(5) [OF None, THEN conjunct2, rule_format, of o0] to by auto
    ultimately show ?thesis using snd by (auto simp: images_sound_def)
  next
    case (Some b)
    from best(6) [OF Some] have b: "content s (imageKey reg sid off) = Some b" "0 \<le>s off"
      "to <s 0 \<or> off \<le>s to" by auto
    then have "image_ok u0 o0 es off b" using snd by (simp add: images_sound_def)
    then obtain v where v: "o0 \<le>s off" "off \<in> fst ` set es" "b = Doc (Marshal v)"
      "UnmarshalState (Marshal v) = Some v" "replay_from u0 (span o0 off es) = Inr v"
      by (auto simp: image_ok_def)
    have "\<not> off <s 0" using b(2) by (simp add: word_sless_alt word_sle_eq)
    then have "frm = off + 1" "u = v" using res l Some v(3,4) by (auto simp: RestoreUpper_def)
    then show ?thesis using b v by auto
  qed
qed

lemma reconstruct_sound:
  assumes inv: "log_inv l" and h: "healthy s"
    and snd: "images_sound u0 o0 (entries l sid) (content s) reg sid" and to: "to <s 0 \<or> o0 \<le>s to"
    and res: "reconstruct elog reg sid to l s = (Inr rc, s')"
  shows "healthy s' \<and> content s' = content s"
    and "replay_from u0 (span o0 to (entries l sid)) = Inr (rc_upper rc)"
    and "to <s 0 \<Longrightarrow> rc_covered rc = (if entries l sid = [] then - 1 else fst (last (entries l sid)))"
    and "rc_fromOffset rc = 0 \<or>
      0 \<le>s rc_fromOffset rc - 1 \<and> content s (imageKey reg sid (rc_fromOffset rc - 1)) \<noteq> None"
proof -
  let ?es = "entries l sid"
  have off: "by_offset ?es" "\<forall>r\<in>set ?es. 0 \<le>s fst r \<and> fst r <s fst r + 1" using offsets [OF inv, of sid] by auto
  obtain u frm s1 where ru: "RestoreUpper reg sid to s = (Inr (u, frm), s1)"
    using res by (auto simp: reconstruct_def split: prod.splits sum.splits)
  obtain evs tailOff where rd: "el_ReadSessionTo elog l sid frm to = Inr (evs, tailOff)"
    using res ru by (auto simp: reconstruct_def split: sum.splits)
  have rp: "replay_from u evs = Inr (rc_upper rc)" and s': "s' = s1" and fr: "rc_fromOffset rc = frm"
    and cov: "rc_covered rc = (if evs \<noteq> [] \<and> frm - 1 <s tailOff - 1 then tailOff - 1 else frm - 1)"
    using res ru rd by (auto simp: reconstruct_def Let_def split: sum.splits)
  note rs = RestoreUpper_sound [OF h snd to ru]
  show "healthy s' \<and> content s' = content s" using rs(1) s' by simp
  have frm: "0 \<le>s frm \<and> (\<forall>r\<in>set ?es. frm \<le>s fst r \<longleftrightarrow> frm - 1 <s fst r) \<and>
      (frm - 1 = - 1 \<or> frm - 1 \<in> fst ` set ?es)"
    using rs(2)
  proof
    assume "frm = 0 \<and> o0 = - 1 \<and> u = u0"
    then show ?thesis using off(2) by (auto simp: word_sle_eq word_sless_alt)
  next
    assume "\<exists>x. frm = x + 1 \<and> 0 \<le>s x \<and> o0 \<le>s x \<and> (to <s 0 \<or> x \<le>s to) \<and> x \<in> fst ` set ?es \<and>
        content s (imageKey reg sid x) \<noteq> None \<and> replay_from u0 (span o0 x ?es) = Inr u"
    then obtain x where x: "frm = x + 1" "0 \<le>s x" "x \<in> fst ` set ?es" by blast
    then have "sint frm = sint x + 1" using sint_succ off(2) by auto
    then show ?thesis using x by (auto simp: word_sle_eq word_sless_alt)
  qed
  have flt: "filter (in_window frm to) ?es = filter (\<lambda>r. frm - 1 <s fst r \<and> (to <s 0 \<or> fst r \<le>s to)) ?es"
    using frm by (intro filter_cong refl) (auto simp: in_window_def)
  have ev: "evs = span (frm - 1) to ?es" "tailOff = (if evs = [] then frm
      else fst (last (filter (in_window frm to) ?es)) + 1)"
    using read_range [OF inv _ rd] frm by (auto simp: span_def flt)
  show "replay_from u0 (span o0 to ?es) = Inr (rc_upper rc)"
    using rs(2)
  proof
    assume "frm = 0 \<and> o0 = - 1 \<and> u = u0"
    then show ?thesis using rp ev(1) by simp
  next
    assume "\<exists>x. frm = x + 1 \<and> 0 \<le>s x \<and> o0 \<le>s x \<and> (to <s 0 \<or> x \<le>s to) \<and> x \<in> fst ` set ?es \<and>
        content s (imageKey reg sid x) \<noteq> None \<and> replay_from u0 (span o0 x ?es) = Inr u"
    then obtain x where x: "frm = x + 1" "replay_from u0 (span o0 x ?es) = Inr u"
      "span o0 to ?es = span o0 x ?es @ span x to ?es" using span_split [OF off(1)] by blast
    then show ?thesis using rp ev(1) by (simp add: replay_from_append)
  qed
  show "rc_fromOffset rc = 0 \<or>
      0 \<le>s rc_fromOffset rc - 1 \<and> content s (imageKey reg sid (rc_fromOffset rc - 1)) \<noteq> None"
    using rs(2) fr by auto
  show "rc_covered rc = (if ?es = [] then - 1 else fst (last ?es))" if neg: "to <s 0"
  proof (cases "evs = []")
    case True
    then have none: "\<forall>r\<in>set ?es. \<not> frm - 1 <s fst r" using ev(1) neg by (auto simp: span_def filter_empty_conv)
    have "frm - 1 = (if ?es = [] then - 1 else fst (last ?es))"
    proof (cases "?es = []")
      case False
      have "- 1 <s fst (last ?es)" using bspec [OF off(2) last_in_set [OF False]] by (simp add: word_sless_alt word_sle_eq)
      then have "frm - 1 \<in> fst ` set ?es" using none False frm last_in_set [OF False] by auto
      then obtain r where "r \<in> set ?es" "frm - 1 = fst r" by auto
      then have "frm - 1 \<le>s fst (last ?es)" using last_offset_max [OF off(1)] by simp
      moreover have "\<not> frm - 1 <s fst (last ?es)" using none last_in_set [OF False] by blast
      ultimately have "sint (frm - 1) = sint (fst (last ?es))" by (simp add: word_sless_alt word_sle_eq)
      then show ?thesis using False by (simp add: signed_word_eqI)
    qed (use frm in auto)
    then show ?thesis using cov True by simp
  next
    case False
    then obtain r where r: "r \<in> set ?es" "frm - 1 <s fst r" using ev(1) by (auto simp: span_def filter_empty_conv)
    have "last (filter (in_window frm to) ?es) = last ?es"
      using last_span [OF off(1) r] flt neg by simp
    then have "tailOff - 1 = fst (last ?es)" using ev(2) False by simp
    moreover have "frm - 1 <s fst (last ?es)"
      using last_offset_max [OF off(1) r(1)] r(2) by (simp add: word_sless_alt word_sle_eq)
    ultimately show ?thesis using cov False r(1) by auto
  qed
qed

lemma last_nonneg: "log_inv l \<Longrightarrow> entries l sid \<noteq> [] \<Longrightarrow> 0 \<le>s fst (last (entries l sid))"
  using offsets [of l sid] last_in_set [of "entries l sid"] by blast

lemma OpenSession_resumes:
  assumes inv: "log_inv l" and h: "healthy s"
    and snd: "images_sound u0 o0 (entries l sid) (content s) reg sid"
    and res: "OpenSession elog reg sid lid l s = (Inr ss, s')"
  shows "healthy s' \<and> content s' = content s" and "synced u0 o0 ss (entries l sid)"
    and "\<not> diverged ss \<and> \<not> leaseLost ss \<and> sm_ID (Meta ss) = sid \<and> valid_id sid"
    and "\<exists>j. content s (sessionKey reg sid) = Some (Doc j) \<and> dec_session j = Some (Meta ss) \<and>
      s_lowerID ss = sm_LowerID (Meta ss)"
proof -
  obtain m s1 where ld: "Load reg sid s = (Inr m, s1)"
    using res by (auto simp: OpenSession_def split: prod.splits sum.splits)
  note lg = Load_get [OF client h ld]
  obtain rc where rc: "reconstruct elog reg sid (- 1) l s1 = (Inr rc, s')"
    and ss: "ss = fresh_session m (rc_upper rc) (rc_covered rc) (rc_fromOffset rc - 1) (seqLast (rc_upper rc))"
    using res ld by (auto simp: OpenSession_def split: if_splits prod.splits sum.splits)
  have snd1: "images_sound u0 o0 (entries l sid) (content s1) reg sid" using snd lg(2) by simp
  have neg: "(- 1 :: i64) <s 0" by (simp add: word_sless_alt)
  note rs = reconstruct_sound [OF inv lg(1) snd1 disjI1 [OF neg] rc]
  show "healthy s' \<and> content s' = content s" using rs(1) lg(2) by simp
  show "\<not> diverged ss \<and> \<not> leaseLost ss \<and> sm_ID (Meta ss) = sid \<and> valid_id sid"
    using lg(3) ss by (simp add: fresh_session_def)
  show "\<exists>j. content s (sessionKey reg sid) = Some (Doc j) \<and> dec_session j = Some (Meta ss) \<and>
      s_lowerID ss = sm_LowerID (Meta ss)"
    using lg(3) ss by (auto simp: fresh_session_def)
  have base: "o0 = - 1 \<or> o0 \<in> fst ` set (entries l sid)"
    using snd by (auto simp: images_sound_def image_ok_def)
  have lst: "lastOffset ss = (if entries l sid = [] then - 1 else fst (last (entries l sid)))"
    using rs(3) [OF neg] ss by (simp add: fresh_session_def)
  from base have "o0 \<le>s lastOffset ss"
  proof
    assume "o0 = - 1"
    then show ?thesis using lst last_nonneg [OF inv, of sid] by (cases "entries l sid = []") (auto simp: word_sle_eq)
  next
    assume "o0 \<in> fst ` set (entries l sid)"
    then show ?thesis using lst offsets [OF inv, of sid] last_offset_max [of "entries l sid"] by auto
  qed
  then show "synced u0 o0 ss (entries l sid)"
    using rs(2) rs(3) [OF neg] ss by (simp add: synced_def fresh_session_def after_span)
qed

end

end
