(* ===== verification/Session_Run.thy ===== *)
theory Session_Run
  imports Session_Open_Props
begin

text \<open>
  A mounted session as a state machine: commits, checkpoints and lease loss in any order, over a log and
  a store that may fail at every step. \<open>run_inv\<close> is kept by every step; stopping anywhere and resuming
  gives back exactly the durable state.
\<close>

section \<open>Steps\<close>

definition op_text :: "event_op \<Rightarrow> bool" where
  "op_text op \<longleftrightarrow> (case op of Symlink sy \<Rightarrow> valid_utf8 (sy_Target sy) | _ \<Rightarrow> True)"

type_synonym ('l, 's) config = "session \<times> 'l \<times> 's"

inductive run_step :: "'l event_log \<Rightarrow> 's registry \<Rightarrow> ('l, 's) config \<Rightarrow> ('l, 's) config \<Rightarrow> bool"
  for elog reg where
  commit_step: "op_in_range op \<Longrightarrow> op_text op \<Longrightarrow> s_seq ss < - 1 \<Longrightarrow>
    commitOp elog now op ss l = (err, ck, ss', l') \<Longrightarrow> run_step elog reg (ss, l, s) (ss', l', s)"
| checkpoint_step: "Checkpoint reg isDiverged known ss s = (res, ss', s') \<Longrightarrow>
    run_step elog reg (ss, l, s) (ss', l, s')"
| async_step: "checkpointAsync reg isDiverged known ss s = (ss', s') \<Longrightarrow>
    run_step elog reg (ss, l, s) (ss', l, s')"
| lease_step: "run_step elog reg (ss, l, s) (MarkLeaseLost ss, l, s)"

section \<open>The invariant\<close>

definition events_ok :: "(i64 \<times> envelope) list \<Rightarrow> bool" where
  "events_ok es \<longleftrightarrow> (\<forall>r\<in>set es. in_range (snd r) \<and> event_text (snd r))"

text \<open>The stored metadata, if any, names its lower tree in valid text.\<close>

definition meta_text :: "(string \<Rightarrow> body option) \<Rightarrow> 's registry \<Rightarrow> string \<Rightarrow> bool" where
  "meta_text c reg sid \<longleftrightarrow>
     (case c (sessionKey reg sid) of
        Some (Doc j) \<Rightarrow> (case dec_session j of Some m \<Rightarrow> valid_utf8 (sm_LowerID m) | None \<Rightarrow> True)
      | _ \<Rightarrow> True)"

definition run_inv ::
    "('l \<Rightarrow> string \<Rightarrow> (i64 \<times> envelope) list) \<Rightarrow> ('l \<Rightarrow> bool) \<Rightarrow> ('s \<Rightarrow> string \<Rightarrow> body option) \<Rightarrow> ('s \<Rightarrow> bool) \<Rightarrow>
     's registry \<Rightarrow> upper \<Rightarrow> i64 \<Rightarrow> string \<Rightarrow> ('l, 's) config \<Rightarrow> bool" where
  "run_inv entries log_inv content healthy reg u0 o0 sid c \<longleftrightarrow>
     (case c of (ss, l, s) \<Rightarrow>
        log_inv l \<and> healthy s \<and> sm_ID (Meta ss) = sid \<and> valid_id sid \<and> valid_utf8 (s_lowerID ss) \<and>
        meta_text (content s) reg sid \<and>
        upper_wf u0 \<and> texts_valid u0 \<and> events_ok (entries l sid) \<and>
        images_sound u0 o0 (entries l sid) (content s) reg sid \<and>
        (\<exists>u. replay_from u0 (after o0 (entries l sid)) = Inr u) \<and>
        (synced u0 o0 ss (entries l sid) \<or> diverged ss \<and> lastOffset ss = - 1))"

lemma replay_wf:
  assumes "replay_from u evs = Inr v" and "upper_wf u" and "texts_valid u"
    and "\<forall>ev\<in>set evs. in_range ev \<and> event_text ev"
  shows "upper_wf v \<and> texts_valid v"
  using assms
proof (induction evs arbitrary: u)
  case (Cons ev evs)
  then obtain u' where u': "Apply u ev = Inr u'" "replay_from u' evs = Inr v" by (auto split: sum.splits)
  then show ?case using Cons Apply_wf [OF _ _ u'(1)] Apply_texts [OF u'(1)] by auto
qed simp

lemma span_events_ok: "events_ok es \<Longrightarrow> \<forall>ev\<in>set (span o0 to es). in_range ev \<and> event_text ev"
  by (auto simp: events_ok_def span_def)

lemma replay_span_wf:
  "replay_from u0 (span o0 to es) = Inr u \<Longrightarrow> upper_wf u0 \<Longrightarrow> texts_valid u0 \<Longrightarrow> events_ok es \<Longrightarrow>
     upper_wf u \<and> texts_valid u"
  using replay_wf span_events_ok by blast

lemma NewEnvelope_fields [simp]:
  "SessionId (NewEnvelope now sid lid op) = sid" "LowerId (NewEnvelope now sid lid op) = lid"
  "Op (NewEnvelope now sid lid op) = Some op"
  by (simp_all add: NewEnvelope_def)

lemma NewEnvelope_ok:
  "op_in_range op \<Longrightarrow> op_text op \<Longrightarrow> valid_utf8 lid \<Longrightarrow>
     in_range ((NewEnvelope now sid lid op)\<lparr>Seq := q\<rparr>) \<and> event_text ((NewEnvelope now sid lid op)\<lparr>Seq := q\<rparr>)"
  by (cases op) (simp_all add: in_range_def event_text_def op_text_def)

lemma refused_commit:
  assumes "refuseIfFenced s \<noteq> None"
  shows "\<exists>err. commit elog ev s l = (Some err, False, s, l)"
  using assms by (auto simp: commit_def split: option.splits)

lemma synced_saved [simp]:
  "synced u0 o0 (ss\<lparr>savedOffset := x\<rparr>) es = synced u0 o0 ss es"
  "synced u0 o0 (ss\<lparr>ckptInFlight := b\<rparr>) es = synced u0 o0 ss es"
  "synced u0 o0 (ss\<lparr>leaseLost := b\<rparr>) es = synced u0 o0 ss es"
  by (simp_all add: synced_def)

lemma Checkpoint_cases:
  assumes "Checkpoint reg isDiverged known ss s = (res, ss', s')"
  obtains (none) "ss' = ss" "s' = s" "\<And>off. res = Inr off \<Longrightarrow> off = savedOffset ss \<or> off = - 1"
    | (saved) e where "0 \<le>s lastOffset ss"
        "SaveStateImage reg (sm_ID (Meta ss)) (lastOffset ss) (Doc (Marshal (s_upper ss))) s = (e, s')"
        "ss' = (if e = None then ss\<lparr>savedOffset := lastOffset ss\<rparr> else ss)"
        "\<And>off. res = Inr off \<Longrightarrow> e = None \<and> off = lastOffset ss"
proof (cases "isDiverged \<or> known <s 0 \<or> lastOffset ss <s 0 \<or> lastOffset ss \<le>s savedOffset ss")
  case True
  then have "ss' = ss \<and> s' = s \<and> (\<forall>off. res = Inr off \<longrightarrow> off = savedOffset ss \<or> off = - 1)"
    using assms by (auto simp: Checkpoint_def Let_def split: if_splits)
  then show thesis using none by blast
next
  case False
  obtain e s1 where sv:
    "SaveStateImage reg (sm_ID (Meta ss)) (lastOffset ss) (Doc (Marshal (s_upper ss))) s = (e, s1)" by fastforce
  have "s' = s1 \<and> ss' = (if e = None then ss\<lparr>savedOffset := lastOffset ss\<rparr> else ss) \<and>
      (\<forall>off. res = Inr off \<longrightarrow> e = None \<and> off = lastOffset ss)"
    using assms False sv by (cases e) (auto simp: Checkpoint_def Let_def)
  moreover have "0 \<le>s lastOffset ss" using False by (simp add: word_sless_alt word_sle_eq)
  ultimately show thesis using saved sv by blast
qed

lemma image_prefix_own:
  assumes "prefix (imagePrefix reg a) (imageKey reg b x)" and "valid_id a" and "valid_id b"
  shows "a = b"
proof -
  obtain z where "a @ slash # ''image-'' @ z = b @ slash # ''image-'' @ fmt_019d x @ ''.json''"
    using assms(1) by (auto simp: imagePrefix_def imageKey_def prefix_def)
  then show ?thesis using first_slash [OF valid_id_no_slash valid_id_no_slash] assms(2,3) by blast
qed

context session_storage
begin

abbreviation good :: "upper \<Rightarrow> i64 \<Rightarrow> string \<Rightarrow> ('l, 's) config \<Rightarrow> bool" where
  "good \<equiv> run_inv entries log_inv content healthy reg"

lemma after_grow:
  assumes "by_offset (es @ [(off, ev)])" and "0 \<le>s off" and "o0 = - 1 \<or> o0 \<in> fst ` set es"
  shows "after o0 (es @ [(off, ev)]) = after o0 es @ [ev]" and "\<forall>r\<in>set es. fst r <s off"
  using assms by (auto simp: after_def sorted_wrt_append word_sless_alt word_sle_eq)

lemma base_offset:
  "images_sound u0 o0 es c reg sid \<Longrightarrow> o0 = - 1 \<or> o0 \<in> fst ` set es"
  by (auto simp: images_sound_def image_ok_def)

text \<open>A record added to the log by an append, acknowledged or not, keeps the stored state meaningful.\<close>

lemma grow_inv:
  assumes snd: "images_sound u0 o0 (entries l sid) (content s) reg sid" and ok: "events_ok (entries l sid)"
    and rp: "replay_from u0 (after o0 (entries l sid)) = Inr u" and ap: "Apply u e = Inr u'"
    and e: "in_range e \<and> event_text e" and l': "log_inv l'" "entries l' sid = entries l sid @ [(off, e)]"
  shows "images_sound u0 o0 (entries l' sid) (content s) reg sid \<and> events_ok (entries l' sid) \<and>
    replay_from u0 (after o0 (entries l' sid)) = Inr u'"
proof -
  have srt: "by_offset (entries l sid @ [(off, e)])" "0 \<le>s off" using offsets [OF l'(1), of sid] l'(2) by auto
  note ag = after_grow [OF srt base_offset [OF snd]]
  show ?thesis
    using images_sound_grow [OF snd ag(2)] ok e rp ap by (simp add: l'(2) ag(1) events_ok_def replay_from_append)
qed

lemma commit_good:
  assumes g: "good u0 o0 sid (ss, l, s)" and op: "op_in_range op" "op_text op" and room: "s_seq ss < - 1"
    and c: "commitOp elog now op ss l = (err, ck, ss', l')"
  shows "good u0 o0 sid (ss', l', s)"
proof -
  let ?ev = "NewEnvelope now sid (s_lowerID ss) op"
  let ?e = "?ev\<lparr>Seq := s_seq ss + 1\<rparr>"
  have i: "log_inv l" "healthy s" "sm_ID (Meta ss) = sid" "valid_id sid" "valid_utf8 (s_lowerID ss)"
    "upper_wf u0" "texts_valid u0" "events_ok (entries l sid)"
    "images_sound u0 o0 (entries l sid) (content s) reg sid" "meta_text (content s) reg sid"
    and sync: "synced u0 o0 ss (entries l sid) \<or> diverged ss \<and> lastOffset ss = - 1"
    using g by (auto simp: run_inv_def)
  have c': "commit elog ?ev ss l = (err, ck, ss', l')" using c i(3) by (simp add: commitOp_def)
  have e: "in_range ?e \<and> event_text ?e" using NewEnvelope_ok op i(5) by blast
  show ?thesis
  proof (cases "refuseIfFenced ss = None")
    case False
    then show ?thesis using refused_commit [of ss elog ?ev l] c' g by auto
  next
    case True
    then have sy: "synced u0 o0 ss (entries l sid)" using sync by (auto simp: refuseIfFenced_def split: if_splits)
    then have rp: "replay_from u0 (after o0 (entries l sid)) = Inr (s_upper ss)" by (simp add: synced_def)
    from c' synced_seq_ok [OF sy room] show ?thesis
    proof (cases rule: commit_cases)
      case refused
      then show ?thesis using g by simp
    next
      case (lost aerr)
      have "Check (s_upper ss) ?ev = None"
        using c' lost True by (auto simp: commit_def commitLocked_def diverged_by_def wrap_error_def
            split: option.splits)
      then obtain u' where ap: "Apply (s_upper ss) ?e = Inr u'"
        using succ_less [OF room] sy by (auto simp: Apply_outcome synced_def not_le [symmetric])
      have "log_inv l'" "entries l' sid = entries l sid \<or> (\<exists>off. entries l' sid = entries l sid @ [(off, ?e)])"
        using append_failed [OF i(1) lost(2), of sid] by auto
      then show ?thesis
        using grow_inv [OF i(9,8) rp ap e, of l'] i rp lost(5) by (auto simp: run_inv_def)
    next
      case (success off u)
      have l': "log_inv l'" "entries l' sid = entries l sid @ [(off, ?e)]"
        using append_ok [OF i(1) success(3), of sid] by auto
      have "synced u0 o0 ss (entries l (SessionId ?ev))" using sy by simp
      from commit_sync(2) [OF i(1) this room c' success(2)]
      have sy': "synced u0 o0 ss' (entries l' sid)" by (metis NewEnvelope_fields(1))
      then show ?thesis
        using grow_inv [OF i(9,8) rp success(4) e l'] i l'(1) success(6) by (auto simp: run_inv_def)
    qed
  qed
qed

lemma span_to_last:
  assumes "by_offset es" and "es \<noteq> []" and "0 \<le>s fst (last es)"
  shows "span o0 (fst (last es)) es = after o0 es"
  unfolding span_def after_def
  using last_offset_max [OF assms(1)] by (intro arg_cong [where f = "map snd"] filter_cong refl) auto

lemma checkpoint_good:
  assumes g: "good u0 o0 sid (ss, l, s)" and c: "Checkpoint reg isDiverged known ss s = (res, ss', s')"
  shows "good u0 o0 sid (ss', l, s')" and "ss' = ss\<lparr>savedOffset := savedOffset ss'\<rparr>"
    and "res = Inr off \<Longrightarrow> 0 \<le>s off \<Longrightarrow> off \<noteq> savedOffset ss \<Longrightarrow>
      off = lastOffset ss \<and> content s' (imageKey reg sid off) = Some (Doc (Marshal (s_upper ss)))"
    and "prefix (imagePrefix reg sid') k \<Longrightarrow> valid_id sid' \<Longrightarrow> sid' \<noteq> sid \<Longrightarrow> content s' k = content s k"
proof -
  let ?es = "entries l sid"
  have i: "log_inv l" "healthy s" "sm_ID (Meta ss) = sid" "valid_id sid" "upper_wf u0" "texts_valid u0"
    "events_ok ?es" "images_sound u0 o0 ?es (content s) reg sid"
    and sync: "synced u0 o0 ss ?es \<or> diverged ss \<and> lastOffset ss = - 1"
    using g by (auto simp: run_inv_def)
  let ?off = "lastOffset ss"
  let ?b = "Doc (Marshal (s_upper ss))"
  show "ss' = ss\<lparr>savedOffset := savedOffset ss'\<rparr>" using c by (cases rule: Checkpoint_cases) auto
  show "good u0 o0 sid (ss', l, s')"
    using c
  proof (cases rule: Checkpoint_cases)
    case none
    then show ?thesis using g by simp
  next
    case (saved e)
    have sy: "synced u0 o0 ss ?es" using sync saved(1) by (auto simp: word_sle_eq)
    then have ne: "?es \<noteq> []" and lst: "?off = fst (last ?es)" and o0: "o0 \<le>s ?off"
      using saved(1) by (auto simp: synced_def word_sle_eq split: if_splits)
    have rp: "replay_from u0 (span o0 ?off ?es) = Inr (s_upper ss)"
      using span_to_last [of ?es o0] offsets [OF i(1), of sid] ne lst saved(1) sy by (simp add: synced_def)
    then have "upper_wf (s_upper ss) \<and> texts_valid (s_upper ss)" using replay_span_wf i(5,6,7) by blast
    then have um: "UnmarshalState (Marshal (s_upper ss)) = Some (s_upper ss)" using Unmarshal_Marshal by blast
    have "?off \<in> fst ` set ?es" using lst ne by simp
    note sv = images_sound_save [OF i(8) this saved(1) o0 rp um i(4)]
    note put = SaveStateImage_put [OF client i(2) saved(2) [unfolded i(3)]]
    have "images_sound u0 o0 ?es (content s') reg sid" using put(3) sv i(8) by auto
    moreover have "sessionKey reg sid \<noteq> imageKey reg sid ?off" by (simp add: sessionKey_def imageKey_def)
    then have "content s' (sessionKey reg sid) = content s (sessionKey reg sid)" using put(3) by auto
    then have "meta_text (content s') reg sid = meta_text (content s) reg sid" by (simp add: meta_text_def)
    ultimately show ?thesis using g put(1) saved(3) by (auto simp: run_inv_def)
  qed
  show "off = ?off \<and> content s' (imageKey reg sid off) = Some ?b"
    if "res = Inr off" "0 \<le>s off" "off \<noteq> savedOffset ss"
    using c
  proof (cases rule: Checkpoint_cases)
    case none
    then show ?thesis using that none(3) [OF that(1)] by (auto simp: word_sle_eq)
  next
    case (saved e)
    then show ?thesis using SaveStateImage_put(2) [OF client i(2) saved(2) [unfolded i(3)]] saved(4) [OF that(1)] by simp
  qed
  show "content s' k = content s k" if "prefix (imagePrefix reg sid') k" "valid_id sid'" "sid' \<noteq> sid"
    using c
  proof (cases rule: Checkpoint_cases)
    case (saved e)
    have "k \<noteq> imageKey reg sid ?off" using that image_prefix_own i(4) by metis
    then show ?thesis using SaveStateImage_put(3) [OF client i(2) saved(2) [unfolded i(3)]] by auto
  qed simp
qed

lemma run_good:
  assumes "(run_step elog reg)\<^sup>*\<^sup>* c c'" and "good u0 o0 sid c"
  shows "good u0 o0 sid c'"
  using assms
proof (induction rule: rtranclp_induct)
  case (step c1 c2)
  note g = step.IH [OF step.prems]
  from step.hyps(2) show ?case
  proof (cases rule: run_step.cases)
    case (commit_step op ss now l err ck ss' l' s)
    then show ?thesis using commit_good g by simp
  next
    case (checkpoint_step isDiverged known ss s res ss' s' l)
    then show ?thesis using checkpoint_good(1) g by simp
  next
    case (async_step isDiverged known ss s ss' s' l)
    obtain res ss1 s1 where ck: "Checkpoint reg isDiverged known ss s = (res, ss1, s1)"
      by (cases "Checkpoint reg isDiverged known ss s")
    with async_step have "ss' = ss1\<lparr>ckptInFlight := False\<rparr>" "s' = s1" by (simp_all add: checkpointAsync_def)
    moreover have "good u0 o0 sid (ss1, l, s1)" using checkpoint_good(1) [OF _ ck] g async_step(1) by simp
    ultimately show ?thesis using async_step(2) by (simp add: run_inv_def)
  next
    case (lease_step ss l s)
    then show ?thesis using g by (simp add: MarkLeaseLost_def run_inv_def)
  qed
qed simp

lemma replay_prefix:
  "replay_from u (xs @ ys) = Inr v \<Longrightarrow> \<exists>w. replay_from u xs = Inr w \<and> replay_from w ys = Inr v"
  by (auto simp: replay_from_append split: sum.splits)

lemma reopen_good:
  assumes g: "good u0 o0 sid (ss, l, s)" and o: "OpenSession elog reg sid lid l s = (Inr ss2, s2)"
  shows "good u0 o0 sid (ss2, l, s2)" and "synced u0 o0 ss2 (entries l sid)"
    and "synced u0 o0 ss (entries l sid) \<Longrightarrow> s_upper ss2 = s_upper ss \<and> s_seq ss2 = s_seq ss"
    and "\<not> diverged ss2" and "content s2 = content s"
proof -
  have i: "log_inv l" "healthy s" "images_sound u0 o0 (entries l sid) (content s) reg sid"
    using g by (auto simp: run_inv_def)
  note op = OpenSession_resumes [OF i o]
  show "synced u0 o0 ss2 (entries l sid)" by (rule op(2))
  then show "s_upper ss2 = s_upper ss \<and> s_seq ss2 = s_seq ss" if "synced u0 o0 ss (entries l sid)"
    using that by (simp add: synced_def)
  show "\<not> diverged ss2" "content s2 = content s" using op(1,3) by auto
  have "valid_utf8 (s_lowerID ss2)" using op(4) g by (auto simp: run_inv_def meta_text_def)
  then show "good u0 o0 sid (ss2, l, s2)" using g op(1,2,3) by (simp add: run_inv_def)
qed

text \<open>The replay of a durable log never fails: an event that would poison it was never appended.\<close>

lemma reconstruct_total:
  assumes g: "good u0 o0 sid (ss, l, s)"
    and ru: "RestoreUpper reg sid (- 1) s = (Inr (u, frm), s1)"
    and rd: "el_ReadSessionTo elog l sid frm (- 1) = Inr (evs, tailOff)"
  shows "\<exists>rc. reconstruct elog reg sid (- 1) l s = (Inr rc, s1)"
proof -
  let ?es = "entries l sid"
  have i: "log_inv l" "healthy s" "images_sound u0 o0 ?es (content s) reg sid"
    using g by (auto simp: run_inv_def)
  obtain w where w: "replay_from u0 (span o0 (- 1) ?es) = Inr w" using g by (auto simp: run_inv_def after_span)
  have neg: "(- 1 :: i64) <s 0" by (simp add: word_sless_alt)
  have off: "by_offset ?es" "\<forall>r\<in>set ?es. 0 \<le>s fst r \<and> fst r <s fst r + 1" using offsets [OF i(1), of sid] by auto
  from RestoreUpper_sound(2) [OF i(2,3) disjI1 [OF neg] ru] have "\<exists>v. replay_from u evs = Inr v"
  proof
    assume a: "frm = 0 \<and> o0 = - 1 \<and> u = u0"
    then have "evs = map snd (filter (in_window 0 (- 1)) ?es)"
      using read_range [OF i(1) _ rd] by (auto simp: word_sle_eq)
    also have "\<dots> = span (- 1) (- 1) ?es" unfolding span_def
      using off(2) neg by (intro arg_cong [where f = "map snd"] filter_cong refl)
        (auto simp: in_window_def word_sless_alt word_sle_eq)
    finally show ?thesis using a w by auto
  next
    assume "\<exists>x. frm = x + 1 \<and> 0 \<le>s x \<and> o0 \<le>s x \<and> (- 1 <s (0 :: i64) \<or> x \<le>s - 1) \<and> x \<in> fst ` set ?es \<and>
        content s (imageKey reg sid x) \<noteq> None \<and> replay_from u0 (span o0 x ?es) = Inr u"
    then obtain x where x: "frm = x + 1" "0 \<le>s x" "o0 \<le>s x" "x \<in> fst ` set ?es"
      "replay_from u0 (span o0 x ?es) = Inr u" by blast
    then have fx: "sint frm = sint x + 1" using sint_succ off(2) by auto
    then have "0 \<le>s frm" using x(2) by (simp add: word_sle_eq)
    from read_range [OF i(1) this rd] have "evs = map snd (filter (in_window frm (- 1)) ?es)" by simp
    also have "\<dots> = span x (- 1) ?es" unfolding span_def
      using fx neg by (intro arg_cong [where f = "map snd"] filter_cong refl)
        (auto simp: in_window_def word_sless_alt word_sle_eq)
    finally show ?thesis
      using w span_split [OF off(1) x(3,2) disjI1 [OF neg]] replay_prefix [of u0 "span o0 x ?es" "span x (- 1) ?es" w] x(5)
      by auto
  qed
  then show ?thesis using ru rd by (auto simp: reconstruct_def Let_def)
qed

end

end
