(* ===== verification/Session_Branch.thy ===== *)
theory Session_Branch
  imports Session_Run
begin


lemma start_event_fields [simp]:
  "SessionId (start_event micros i lid li) = i" "LowerId (start_event micros i lid li) = lid"
  "in_range (start_event micros i lid li)"
  by (simp_all add: start_event_def in_range_def)




section \<open>The life of a session\<close>





section \<open>The Kafka log model over the in-memory S3\<close>





















end
