(* ===== verification/Handles.thy ===== *)
theory Handles
  imports Session_Props Blobstore Extent_Read Lower_Tree
begin

text \<open>
  File handles (\<^verbatim>\<open>internal/fs/handle.go\<close>): reads and writes of an open file. A handle holds the mount and a
  function that reports the node's current path; the operations here take that path as \<open>rel\<close>. They act on
  the mount's state: the session, and the states of the change log and of the object store. Errno 0 is
  \<open>None\<close>; timing and log output are left out.
\<close>

section \<open>The mount\<close>

text \<open>
  \<^verbatim>\<open>Mounter\<close>: the lower tree, the blob store and, through the session, the change log. The daemon gives the
  session and the mounter the same blob store.
\<close>

record ('l, 's) mounter =
  m_lower :: lower_os
  m_log :: "'l event_log"
  m_Blobs :: "'s blobstore"

record ('l, 's) mount_state =
  ms_Session :: session
  ms_log :: 'l
  ms_store :: 's

definition mnt_resolve :: "('l, 's) mounter \<Rightarrow> ('l, 's) mount_state \<Rightarrow> path \<Rightarrow> errno + entry" where
  "mnt_resolve m st rel = resolve (m_lower m) (s_upper (ms_Session st)) rel"

section \<open>Reads\<close>

definition maxReadSize :: i64 where
  "maxReadSize = 1073741824"

definition readWindow :: "i64 \<Rightarrow> i64 \<Rightarrow> i64 \<Rightarrow> i64 \<times> errno option" where
  "readWindow off want sz =
     (if off <s 0 \<or> want <s 0 \<or> sz <s 0 then (0, Some EIO)
      else if sz \<le>s off then (0, None)
      else
        let fin = off + want;
            fin = (if fin <s off \<or> sz <s fin then sz else fin)
        in if maxReadSize <s fin - off then (0, Some EIO) else (fin - off, None))"

text \<open>\<^verbatim>\<open>get\<close>, the blob fetch of one read: what \<^verbatim>\<open>Blobs.Get\<close> answers in the store's state.\<close>

definition blob_get :: "('l, 's) mounter \<Rightarrow> ('l, 's) mount_state \<Rightarrow> bytes \<Rightarrow> go_error + bytes" where
  "blob_get m st i = fst (BlobGet (m_Blobs m) i (ms_store st))"

text \<open>\<^verbatim>\<open>overlayHandle.Read\<close>; \<open>want\<close> is the length of the destination buffer.\<close>

definition HandleRead ::
    "('l, 's) mounter \<Rightarrow> ('l, 's) mount_state \<Rightarrow> path \<Rightarrow> nat \<Rightarrow> i64 \<Rightarrow> errno + bytes" where
  "HandleRead m st rel want off =
     (case mnt_resolve m st rel of
        Inl err \<Rightarrow> Inl (errnoOf (errno_error err))
      | Inr e \<Rightarrow>
          if (case e_upper e of None \<Rightarrow> False | Some u \<Rightarrow> n_Kind u \<noteq> KindFile) then Inl ENOENT
          else
            (case readWindow off (word_of_nat want) (e_size e) of
               (_, Some errno) \<Rightarrow> Inl errno
             | (n, None) \<Rightarrow>
                 if n = 0 then Inr []
                 else
                   let data = replicate (unat n) (CHR 0x00)
                   in case (if (case e_upper e of None \<Rightarrow> True | Some u \<Rightarrow> n_Fallthrough u)
                            then readLowerInto (m_lower m) (s_upper (ms_Session st))
                                   (fallthroughSrc rel (e_upper e)) off data
                            else Inr data) of
                        Inl err \<Rightarrow> Inl (errnoOf (errno_error err))
                      | Inr data \<Rightarrow>
                          (case e_upper e of
                             None \<Rightarrow> Inr data
                           | Some u \<Rightarrow>
                               (case mergeExtents (n_Extents u) off data (blob_get m st) of
                                  Inl _ \<Rightarrow> Inl EIO
                                | Inr data \<Rightarrow> Inr data))))"

section \<open>Writes\<close>

text \<open>
  \<^verbatim>\<open>overlayHandle.Write\<close>. The first write to a path that only the lower tree has carries that file's
  attributes. \<open>now\<close> is the clock.
\<close>

definition HandleWrite ::
    "('l, 's) mounter \<Rightarrow> i64 \<Rightarrow> path \<Rightarrow> bytes \<Rightarrow> i64 \<Rightarrow> ('l, 's) mount_state \<Rightarrow>
     (errno + u32) \<times> ('l, 's) mount_state" where
  "HandleWrite m now rel data off st =
     (case mnt_resolve m st rel of
        Inl err \<Rightarrow> (Inl (errnoOf (errno_error err)), st)
      | Inr e \<Rightarrow>
          let sparse = (e_upper e = None \<and> present e);
              mode = (if sparse then st_Mode (the (e_lower e)) AND 4095 else 0);
              uid = (if sparse then st_Uid (the (e_lower e)) else 0);
              gid = (if sparse then st_Gid (the (e_lower e)) else 0);
              eof = (e_size e \<le>s off + word_of_nat (length data))
          in case CommitSparseWrite (m_log m) (s3_blobs (m_Blobs m)) now rel off data eof mode uid gid sparse
                    (ms_Session st) (ms_log st) (ms_store st) of
               (err, _, s', l', b') \<Rightarrow>
                 let st' = \<lparr>ms_Session = s', ms_log = l', ms_store = b'\<rparr>
                 in (case commitErrno err of
                       Some errno \<Rightarrow> (Inl errno, st')
                     | None \<Rightarrow> (Inr (word_of_nat (length data)), st')))"

definition HandleFsync :: "u32 \<Rightarrow> errno option" where
  "HandleFsync flags = None"

section \<open>Lower handles\<close>

text \<open>
  \<^verbatim>\<open>lowerHandle\<close>: an open descriptor of a lower file, named here by the lower path it was opened at.
\<close>

definition LowerRead :: "('l, 's) mounter \<Rightarrow> path \<Rightarrow> nat \<Rightarrow> i64 \<Rightarrow> errno + bytes" where
  "LowerRead m fd want off =
     (case os_pread (m_lower m) fd off want of
        Inl err \<Rightarrow> Inl (errnoOf (errno_error err))
      | Inr got \<Rightarrow> Inr got)"

definition LowerFsync :: "u32 \<Rightarrow> errno option" where
  "LowerFsync flags = None"

text \<open>\<^verbatim>\<open>Release\<close>, by the outcome of \<^verbatim>\<open>close(2)\<close>.\<close>

definition LowerRelease :: "errno option \<Rightarrow> errno option" where
  "LowerRelease close = (case close of Some err \<Rightarrow> Some (errnoOf (errno_error err)) | None \<Rightarrow> None)"

end
