(* ===== verification/Nodes.thy ===== *)
theory Nodes
  imports Handles
begin

text \<open>
  The FUSE request handlers (\<^verbatim>\<open>internal/fs/node.go\<close>). A node is its kind with the data the code keeps in
  it; its path is asked of the kernel's tree at each call and is the argument \<open>rel\<close> (for directories,
  \<open>dir\<close>). Handlers that change state return the new mount state with their result; errno 0 is \<open>None\<close>. The
  caller's uid and gid come from the request. An asynchronous checkpoint that a commit starts is a step
  of its own and does not appear here.
\<close>

section \<open>Nodes and replies\<close>

datatype fuse_node =
    DirNode
  | FileNode "node option" \<comment> \<open>the snapshot taken when the inode was created\<close>
  | LowerNode stat
  | SymlinkNode "node option"

datatype file_handle = OverlayHandle path | LowerHandle path

record attr_out =
  ao_Attr :: attr
  ao_Timeout :: i64

record entry_out =
  eo_Attr :: attr
  eo_EntryTimeout :: i64
  eo_AttrTimeout :: i64

text \<open>What \<^verbatim>\<open>NewPersistentInode\<close> is given.\<close>

record inode =
  in_node :: fuse_node
  in_Mode :: u32
  in_Ino :: u64

definition entryTimeout :: i64 where
  "entryTimeout = 1000000000"

text \<open>64-bit FNV-1a, as \<^verbatim>\<open>hash/fnv\<close> computes it.\<close>

definition fnv64a :: "bytes \<Rightarrow> u64" where
  "fnv64a s = foldl (\<lambda>h c. (h XOR of_char c) * 1099511628211) 14695981039346656037 s"

definition inoFor :: "path \<Rightarrow> u64" where
  "inoFor rel = (let v = fnv64a rel in if v = 0 then 1 else v)"

definition addChild :: "path \<Rightarrow> fuse_node \<Rightarrow> attr \<Rightarrow> inode \<times> entry_out" where
  "addChild rel nd a =
     (\<lparr>in_node = nd, in_Mode = a_Mode a, in_Ino = inoFor rel\<rparr>,
      \<lparr>eo_Attr = a, eo_EntryTimeout = entryTimeout, eo_AttrTimeout = entryTimeout\<rparr>)"

section \<open>Lookup\<close>

definition DirLookup ::
    "('l, 's) mounter \<Rightarrow> ('l, 's) mount_state \<Rightarrow> path \<Rightarrow> string \<Rightarrow> errno + inode \<times> entry_out" where
  "DirLookup m st dir name =
     (let rel = join dir name
      in case mnt_resolve m st rel of
           Inl err \<Rightarrow> Inl (errnoOf (errno_error err))
         | Inr e \<Rightarrow>
             if \<not> present e then Inl ENOENT
             else
               let nd = (if isDir e then DirNode
                            else if e_upper e \<noteq> None \<and> e_kind e = S_IFREG then FileNode (e_upper e)
                            else if e_upper e \<noteq> None then SymlinkNode (e_upper e)
                            else LowerNode (the (e_lower e)))
               in Inr (addChild rel nd (e_attr e)))"

section \<open>Attributes\<close>

definition lowerAttrs_fill :: "lowerAttrs \<Rightarrow> u32 \<Rightarrow> attr_out" where
  "lowerAttrs_fill a typ =
     \<lparr>ao_Attr = zero_attr\<lparr>a_Mode := typ OR la_mode a, a_Size := la_size a, a_Uid := la_uid a, a_Gid := la_gid a,
        a_Atime := fst (nsecToFuse (la_atimeNs a)), a_Atimensec := snd (nsecToFuse (la_atimeNs a)),
        a_Mtime := fst (nsecToFuse (la_mtimeNs a)), a_Mtimensec := snd (nsecToFuse (la_mtimeNs a))\<rparr>,
      ao_Timeout = entryTimeout\<rparr>"

definition fillUpper :: "u32 \<Rightarrow> node \<Rightarrow> u64 \<Rightarrow> attr_out" where
  "fillUpper typ u sz = \<lparr>ao_Attr = upperAttr typ u sz, ao_Timeout = entryTimeout\<rparr>"

definition dir_Getattr :: "('l, 's) mounter \<Rightarrow> ('l, 's) mount_state \<Rightarrow> path \<Rightarrow> errno + attr_out" where
  "dir_Getattr m st rel =
     (case mnt_resolve m st rel of
        Inl err \<Rightarrow> Inl (errnoOf (errno_error err))
      | Inr e \<Rightarrow>
          if \<not> isDir e
          then (if rel = [] then Inl ENOENT
                else Inr \<lparr>ao_Attr = zero_attr\<lparr>a_Mode := S_IFDIR OR 493\<rparr>, ao_Timeout = entryTimeout\<rparr>)
          else Inr \<lparr>ao_Attr = e_attr e, ao_Timeout = entryTimeout\<rparr>)"

definition file_Getattr ::
    "('l, 's) mounter \<Rightarrow> ('l, 's) mount_state \<Rightarrow> path \<Rightarrow> node option \<Rightarrow> errno + attr_out" where
  "file_Getattr m st rel snap =
     (case mnt_resolve m st rel of
        Inl err \<Rightarrow> Inl (errnoOf (errno_error err))
      | Inr e \<Rightarrow>
          if e_upper e \<noteq> None \<and> e_kind e = S_IFREG
          then Inr \<lparr>ao_Attr = e_attr e, ao_Timeout = entryTimeout\<rparr>
          else (case snap of
                  None \<Rightarrow> Inl ENOENT
                | Some u \<Rightarrow>
                    (case sizeOfNode (m_lower m) (s_upper (ms_Session st)) rel snap of
                       Inl err \<Rightarrow> Inl (errnoOf (errno_error err))
                     | Inr sz \<Rightarrow> Inr (fillUpper S_IFREG u sz))))"

definition lower_Getattr ::
    "('l, 's) mounter \<Rightarrow> ('l, 's) mount_state \<Rightarrow> path \<Rightarrow> stat \<Rightarrow> errno + attr_out" where
  "lower_Getattr m st rel snap =
     (case mnt_resolve m st rel of
        Inl err \<Rightarrow> Inl (errnoOf (errno_error err))
      | Inr e \<Rightarrow>
          if present e then Inr \<lparr>ao_Attr = e_attr e, ao_Timeout = entryTimeout\<rparr>
          else
            let fmt = st_Mode snap AND S_IFMT;
                typ = (if fmt = S_IFDIR then S_IFDIR else if fmt = S_IFLNK then S_IFLNK else S_IFREG);
                a = applyOverride (Override (s_upper (ms_Session st)) rel) (attrsFromStat snap)
            in Inr (lowerAttrs_fill a typ))"

definition symlink_Getattr ::
    "('l, 's) mount_state \<Rightarrow> path \<Rightarrow> node option \<Rightarrow> errno + attr_out" where
  "symlink_Getattr st rel snap =
     (case (case Lookup (s_upper (ms_Session st)) rel of
              Some u \<Rightarrow> (n_Target u, if n_Mode u \<noteq> 0 then n_Mode u AND 4095 else 511, n_UID u, n_GID u)
            | None \<Rightarrow> ((case snap of Some u \<Rightarrow> n_Target u | None \<Rightarrow> []), 511, 0, 0)) of
        (target, mode, uid, gid) \<Rightarrow>
          Inr \<lparr>ao_Attr = zero_attr\<lparr>a_Mode := S_IFLNK OR mode, a_Size := word_of_nat (length target),
                 a_Uid := uid, a_Gid := gid\<rparr>, ao_Timeout = entryTimeout\<rparr>)"

definition Getattr ::
    "('l, 's) mounter \<Rightarrow> ('l, 's) mount_state \<Rightarrow> path \<Rightarrow> fuse_node \<Rightarrow> errno + attr_out" where
  "Getattr m st rel nd =
     (case nd of
        DirNode \<Rightarrow> dir_Getattr m st rel
      | FileNode snap \<Rightarrow> file_Getattr m st rel snap
      | LowerNode snap \<Rightarrow> lower_Getattr m st rel snap
      | SymlinkNode snap \<Rightarrow> symlink_Getattr st rel snap)"

section \<open>Symlinks, listings and opens\<close>

definition symlink_Readlink :: "('l, 's) mount_state \<Rightarrow> path \<Rightarrow> node option \<Rightarrow> errno + bytes" where
  "symlink_Readlink st rel snap =
     (case Lookup (s_upper (ms_Session st)) rel of
        Some u \<Rightarrow> Inr (n_Target u)
      | None \<Rightarrow> (case snap of Some u \<Rightarrow> Inr (n_Target u) | None \<Rightarrow> Inl ENOENT))"

text \<open>\<^verbatim>\<open>readlinkat\<close> fills a buffer of 4096 bytes and cuts a longer target off.\<close>

definition lower_Readlink :: "('l, 's) mounter \<Rightarrow> ('l, 's) mount_state \<Rightarrow> path \<Rightarrow> errno + bytes" where
  "lower_Readlink m st rel =
     (case os_readlinkat (m_lower m) (lowerPath (s_upper (ms_Session st)) rel) of
        Inl err \<Rightarrow> Inl (errnoOf (errno_error err))
      | Inr target \<Rightarrow> Inr (take 4096 target))"

definition Readdir :: "('l, 's) mounter \<Rightarrow> ('l, 's) mount_state \<Rightarrow> path \<Rightarrow> errno + dir_entry list" where
  "Readdir m st dir =
     (case mergedEntries (m_lower m) (s_upper (ms_Session st)) dir of
        Inl err \<Rightarrow> Inl (errnoOf (errno_error err))
      | Inr es \<Rightarrow> Inr es)"

definition file_Open :: "path \<Rightarrow> errno + file_handle" where
  "file_Open rel = Inr (OverlayHandle rel)"

definition lower_Open ::
    "('l, 's) mounter \<Rightarrow> ('l, 's) mount_state \<Rightarrow> path \<Rightarrow> stat \<Rightarrow> u32 \<Rightarrow> errno + file_handle" where
  "lower_Open m st rel snap flags =
     (if st_Mode snap AND S_IFMT = S_IFLNK then Inl ENOENT
      else if flags AND 3 \<noteq> 0 \<or> HasNode (s_upper (ms_Session st)) rel then Inr (OverlayHandle rel)
      else
        let at = lowerPath (s_upper (ms_Session st)) rel
        in case os_open (m_lower m) at of
             Some err \<Rightarrow> Inl (errnoOf (errno_error err))
           | None \<Rightarrow> Inr (LowerHandle at))"

section \<open>Changes to the tree\<close>

definition mustBeAbsent :: "('l, 's) mounter \<Rightarrow> ('l, 's) mount_state \<Rightarrow> path \<Rightarrow> errno option" where
  "mustBeAbsent m st rel =
     (case existsInMerged (m_lower m) (s_upper (ms_Session st)) rel of
        Inl err \<Rightarrow> Some (errnoOf (errno_error err))
      | Inr ex \<Rightarrow> if ex then Some EEXIST else None)"

definition isSubpath :: "path \<Rightarrow> path \<Rightarrow> bool" where
  "isSubpath c parent \<longleftrightarrow> prefix (parent @ ''/'') c"

text \<open>A session commit as the handlers use it: the errno to report, and the mount after it.\<close>

definition mnt_commit ::
    "(session \<Rightarrow> 'l \<Rightarrow> go_error option \<times> bool \<times> session \<times> 'l) \<Rightarrow> ('l, 's) mount_state \<Rightarrow>
     errno option \<times> ('l, 's) mount_state" where
  "mnt_commit f st =
     (case f (ms_Session st) (ms_log st) of
        (err, _, s', l') \<Rightarrow> (commitErrno err, st\<lparr>ms_Session := s', ms_log := l'\<rparr>))"

definition DirCreate ::
    "('l, 's) mounter \<Rightarrow> i64 \<Rightarrow> path \<Rightarrow> string \<Rightarrow> u32 \<Rightarrow> u32 \<Rightarrow> u32 \<Rightarrow> ('l, 's) mount_state \<Rightarrow>
     (errno + (inode \<times> entry_out) \<times> file_handle) \<times> ('l, 's) mount_state" where
  "DirCreate m now dir name mode uid gid st =
     (let rel = join dir name
      in case mustBeAbsent m st rel of
           Some errno \<Rightarrow> (Inl errno, st)
         | None \<Rightarrow>
             (case mnt_commit (CommitCreate (m_log m) now rel (mode AND 4095) uid gid) st of
                (Some errno, st') \<Rightarrow> (Inl errno, st')
              | (None, st') \<Rightarrow>
                  let u = Lookup (s_upper (ms_Session st')) rel;
                      a = zero_attr\<lparr>a_Mode := S_IFREG OR (mode AND 4095), a_Size := 0, a_Uid := uid, a_Gid := gid\<rparr>
                  in (Inr (addChild rel (FileNode u) a, OverlayHandle rel), st')))"

definition DirUnlink ::
    "('l, 's) mounter \<Rightarrow> i64 \<Rightarrow> path \<Rightarrow> string \<Rightarrow> ('l, 's) mount_state \<Rightarrow> errno option \<times> ('l, 's) mount_state" where
  "DirUnlink m now dir name st = mnt_commit (CommitUnlink (m_log m) now (join dir name)) st"

definition DirSymlink ::
    "('l, 's) mounter \<Rightarrow> i64 \<Rightarrow> path \<Rightarrow> bytes \<Rightarrow> string \<Rightarrow> u32 \<Rightarrow> u32 \<Rightarrow> ('l, 's) mount_state \<Rightarrow>
     (errno + inode \<times> entry_out) \<times> ('l, 's) mount_state" where
  "DirSymlink m now dir target name uid gid st =
     (let rel = join dir name
      in case mustBeAbsent m st rel of
           Some errno \<Rightarrow> (Inl errno, st)
         | None \<Rightarrow>
             (case mnt_commit (CommitSymlink (m_log m) now rel target uid gid) st of
                (Some errno, st') \<Rightarrow> (Inl errno, st')
              | (None, st') \<Rightarrow>
                  let u = Lookup (s_upper (ms_Session st')) rel;
                      a = zero_attr\<lparr>a_Mode := S_IFLNK OR 511, a_Size := word_of_nat (length target),
                            a_Uid := uid, a_Gid := gid\<rparr>
                  in (Inr (addChild rel (SymlinkNode u) a), st')))"

definition DirMkdir ::
    "('l, 's) mounter \<Rightarrow> i64 \<Rightarrow> path \<Rightarrow> string \<Rightarrow> u32 \<Rightarrow> u32 \<Rightarrow> u32 \<Rightarrow> ('l, 's) mount_state \<Rightarrow>
     (errno + inode \<times> entry_out) \<times> ('l, 's) mount_state" where
  "DirMkdir m now dir name mode uid gid st =
     (let rel = join dir name
      in case mustBeAbsent m st rel of
           Some errno \<Rightarrow> (Inl errno, st)
         | None \<Rightarrow>
             (case mnt_commit (CommitMkdir (m_log m) now rel (mode AND 4095) uid gid) st of
                (Some errno, st') \<Rightarrow> (Inl errno, st')
              | (None, st') \<Rightarrow>
                  let a = zero_attr\<lparr>a_Mode := S_IFDIR OR (mode AND 4095), a_Uid := uid, a_Gid := gid\<rparr>
                  in (Inr (addChild rel DirNode a), st')))"

definition DirRmdir ::
    "('l, 's) mounter \<Rightarrow> i64 \<Rightarrow> path \<Rightarrow> string \<Rightarrow> ('l, 's) mount_state \<Rightarrow> errno option \<times> ('l, 's) mount_state" where
  "DirRmdir m now dir name st =
     (let rel = join dir name
      in case mnt_resolve m st rel of
           Inl err \<Rightarrow> (Some (errnoOf (errno_error err)), st)
         | Inr e \<Rightarrow>
             if \<not> present e then (Some ENOENT, st)
             else if \<not> isDir e then (Some ENOTDIR, st)
             else (case mergedEmpty (m_lower m) (s_upper (ms_Session st)) rel of
                     Inl err \<Rightarrow> (Some (errnoOf (errno_error err)), st)
                   | Inr emp \<Rightarrow>
                       if \<not> emp then (Some ENOTEMPTY, st)
                       else mnt_commit (CommitRmdir (m_log m) now rel) st))"

definition RENAME_NOREPLACE :: u32 where "RENAME_NOREPLACE = 1"
definition RENAME_EXCHANGE :: u32 where "RENAME_EXCHANGE = 2"

text \<open>
  The checks of \<open>Rename\<close> once both ends are resolved; the other directory is \<open>None\<close> when the node is of
  another kind.
\<close>

definition rename_target ::
    "('l, 's) mounter \<Rightarrow> ('l, 's) mount_state \<Rightarrow> entry \<Rightarrow> entry \<Rightarrow> path \<Rightarrow> u32 \<Rightarrow> errno option" where
  "rename_target m st src dst to flags =
     (if present dst
      then (if flags AND RENAME_NOREPLACE \<noteq> 0 then Some EEXIST
            else if isDir dst \<and> \<not> isDir src then Some EISDIR
            else if \<not> isDir dst \<and> isDir src then Some ENOTDIR
            else if isDir dst
            then (case mergedEmpty (m_lower m) (s_upper (ms_Session st)) to of
                    Inl err \<Rightarrow> Some (errnoOf (errno_error err))
                  | Inr emp \<Rightarrow> if \<not> emp then Some ENOTEMPTY else None)
            else None)
      else None)"

definition DirRename ::
    "('l, 's) mounter \<Rightarrow> i64 \<Rightarrow> path \<Rightarrow> string \<Rightarrow> path option \<Rightarrow> string \<Rightarrow> u32 \<Rightarrow> ('l, 's) mount_state \<Rightarrow>
     errno option \<times> ('l, 's) mount_state" where
  "DirRename m now dir name newParent newName flags st =
     (case newParent of
        None \<Rightarrow> (Some EIO, st)
      | Some nd \<Rightarrow>
          let from = join dir name; to = join nd newName
          in if flags AND RENAME_EXCHANGE \<noteq> 0 then (Some ENOTSUP, st)
             else (case mnt_resolve m st from of
               Inl err \<Rightarrow> (Some (errnoOf (errno_error err)), st)
             | Inr src \<Rightarrow>
                 if \<not> present src then (Some ENOENT, st)
                 else (case mnt_resolve m st to of
                   Inl err \<Rightarrow> (Some (errnoOf (errno_error err)), st)
                 | Inr dst \<Rightarrow>
                     (case rename_target m st src dst to flags of
                        Some errno \<Rightarrow> (Some errno, st)
                      | None \<Rightarrow>
                          if isDir src \<and> isSubpath to from then (Some EINVAL, st)
                          else mnt_commit (CommitRename (m_log m) now from to (e_lower src \<noteq> None)) st))))"

section \<open>Setattr and statfs\<close>

text \<open>
  \<^verbatim>\<open>fuse.SetAttrIn\<close>: the fields the code reads, and what go-fuse's \<^verbatim>\<open>GetATime\<close> and \<^verbatim>\<open>GetMTime\<close> report of the
  request, as Unix nanoseconds.
\<close>

record setattr_in =
  si_Valid :: u32
  si_Mode :: u32
  si_Uid :: u32
  si_Gid :: u32
  si_Size :: u64
  si_ATime :: "i64 option"
  si_MTime :: "i64 option"

definition FATTR_MODE :: u32 where "FATTR_MODE = 1"
definition FATTR_UID :: u32 where "FATTR_UID = 2"
definition FATTR_GID :: u32 where "FATTR_GID = 4"
definition FATTR_SIZE :: u32 where "FATTR_SIZE = 8"

definition setattrToProto :: "setattr_in \<Rightarrow> path \<Rightarrow> setattr_msg" where
  "setattrToProto i rel = \<lparr>sa_Path = rel,
     sa_Mode = (if si_Valid i AND FATTR_MODE \<noteq> 0 then Some (si_Mode i AND 4095) else None),
     sa_Uid = (if si_Valid i AND FATTR_UID \<noteq> 0 then Some (si_Uid i) else None),
     sa_Gid = (if si_Valid i AND FATTR_GID \<noteq> 0 then Some (si_Gid i) else None),
     sa_AtimeNs = si_ATime i,
     sa_MtimeNs = si_MTime i,
     sa_Size = (if si_Valid i AND FATTR_SIZE \<noteq> 0 then Some (si_Size i) else None)\<rparr>"

definition commitSetattr ::
    "('l, 's) mounter \<Rightarrow> i64 \<Rightarrow> path \<Rightarrow> setattr_in \<Rightarrow> errno option \<Rightarrow> ('l, 's) mount_state \<Rightarrow>
     errno option \<times> ('l, 's) mount_state" where
  "commitSetattr m now rel i sizeErrno st =
     (let sa = setattrToProto i rel
      in if sa_Size sa \<noteq> None \<and> sizeErrno \<noteq> None then (sizeErrno, st)
         else mnt_commit (CommitSetattr (m_log m) now sa) st)"

text \<open>The four \<open>Setattr\<close> methods differ in the errno for a truncation.\<close>

definition NodeSetattr ::
    "('l, 's) mounter \<Rightarrow> i64 \<Rightarrow> path \<Rightarrow> fuse_node \<Rightarrow> setattr_in \<Rightarrow> ('l, 's) mount_state \<Rightarrow>
     (errno + attr_out) \<times> ('l, 's) mount_state" where
  "NodeSetattr m now rel nd i st =
     (let sizeErrno = (case nd of FileNode _ \<Rightarrow> None | LowerNode _ \<Rightarrow> None | SymlinkNode _ \<Rightarrow> Some ENOTSUP
                         | DirNode \<Rightarrow> Some EISDIR)
      in case commitSetattr m now rel i sizeErrno st of
           (Some errno, st') \<Rightarrow> (Inl errno, st')
         | (None, st') \<Rightarrow> (Getattr m st' rel nd, st'))"

record statfs_out =
  sf_Blocks :: u64
  sf_Bfree :: u64
  sf_Bavail :: u64
  sf_Bsize :: u32
  sf_NameLen :: u32
  sf_Frsize :: u32

definition Statfs :: statfs_out where
  "Statfs = \<lparr>sf_Blocks = 1099511627776, sf_Bfree = 1099511627776, sf_Bavail = 1099511627776, sf_Bsize = 4096,
     sf_NameLen = 255, sf_Frsize = 4096\<rparr>"

end
