(* ===== verification/Handles_Props.thy ===== *)
theory Handles_Props
  imports Handles
begin

text \<open>
  What a mounted file is: a size and, for every position, the place its byte comes from (a blob, the lower
  file, or nothing). The window of a read is exact, and reads return exactly those bytes; \<open>lower_files\<close> is the
  contract of reading files of the lower tree, and the in-memory tree satisfies it.
\<close>

section \<open>The read window\<close>

lemma readWindow_outcome:
  "readWindow off want sz =
     (if sint off < 0 \<or> sint want < 0 \<or> sint sz < 0 then (0, Some EIO)
      else let n = max 0 (min (sint want) (sint sz - sint off))
           in if 2 ^ 30 < n then (0, Some EIO) else (word_of_int n, None))"
proof (cases "sint off < 0 \<or> sint want < 0 \<or> sint sz < 0 \<or> sint sz \<le> sint off")
  case True
  then show ?thesis by (auto simp: readWindow_def word_sless_alt word_sle_eq Let_def)
next
  case False
  let ?fin = "off + want"
  have bound: "sint off < 2 ^ 63" "sint want < 2 ^ 63" "sint sz < 2 ^ 63"
    using sint_lt [of off] sint_lt [of want] sint_lt [of sz] by simp_all
  define fin where "fin = (if ?fin <s off \<or> sz <s ?fin then sz else ?fin)"
  have fin: "sint fin = min (sint off + sint want) (sint sz)"
  proof (cases "sint off + sint want < 2 ^ 63")
    case True
    then have "sint ?fin = sint off + sint want" using False by (subst sint_plus) auto
    then show ?thesis using False by (auto simp: fin_def word_sless_alt)
  next
    case over: False
    have "(sint off + sint want + 2 ^ 63) mod 2 ^ 64 = (sint off + sint want - 2 ^ 63 + 2 ^ 64) mod 2 ^ 64"
      by (simp add: ac_simps)
    also have "\<dots> = sint off + sint want - 2 ^ 63"
      unfolding mod_add_self2 using False over bound by (intro mod_pos_pos_trivial) auto
    finally have "sint ?fin = sint off + sint want - 2 ^ 64"
      by (simp add: sint_word_ariths(1) signed_take_bit_eq_take_bit_shift take_bit_eq_mod)
    then show ?thesis using False over bound by (auto simp: fin_def word_sless_alt)
  qed
  have d: "sint (fin - off) = min (sint want) (sint sz - sint off)"
    using False fin bound by (subst sint_minus) auto
  have "fin - off = word_of_int (min (sint want) (sint sz - sint off))"
    unfolding d [symmetric] by simp
  moreover have "maxReadSize <s fin - off \<longleftrightarrow> 2 ^ 30 < min (sint want) (sint sz - sint off)"
    by (simp add: maxReadSize_def word_sless_alt d)
  moreover have "readWindow off want sz = (if maxReadSize <s fin - off then (0, Some EIO) else (fin - off, None))"
    using False by (simp add: readWindow_def fin_def Let_def word_sless_alt word_sle_eq)
  ultimately show ?thesis using False by (auto simp: Let_def max_def)
qed

text \<open>
  C37. The read window is computed without overflow, for every combination of 64-bit arguments: negative
  arguments are refused with \<^verbatim>\<open>EIO\<close>; otherwise the window is exactly the smaller of the bytes wanted and
  the bytes left in the file (none at or past the end), as unbounded integers, and a window over 1 GiB is
  refused instead of being allocated.
\<close>

theorem readWindow_exact:
  "readWindow off want sz =
     (if sint off < 0 \<or> sint want < 0 \<or> sint sz < 0 then (0, Some EIO)
      else let n = max 0 (min (sint want) (sint sz - sint off))
           in if 2 ^ 30 < n then (0, Some EIO) else (word_of_int n, None))"
  by (rule readWindow_outcome)

section \<open>A merge succeeds exactly when its blobs are there\<close>

lemma merge_one_blob:
  assumes "merge_one get off fin e dst = Inr d" and "ext_ok e" and "sint off < ext_stop e"
  shows "blob_ok get e"
proof -
  have "\<not> End e \<le>s off" using assms(2,3) by (simp add: i64_arith)
  then obtain blob src where b: "get (BlobID e) = Inr blob" "(extentBytes e blob :: ('a, bytes) outcome) = Inr src"
    using assms(1) by (auto simp: merge_one_def split: sum.splits)
  have "uint (BlobOffset e + Length e) = uint (BlobOffset e) + uint (Length e)"
    using ext_okD(4) [OF assms(2)] by (simp add: uint_plus)
  then show ?thesis using b by (auto simp: blob_ok_def extentBytes_def Let_def split: if_splits)
qed

lemma merge_loop_blobs:
  assumes "merge_loop get off (off + word_of_nat n) exts dst = Inr d" and "exts_wf exts" and "window_ok off n"
  shows "window_blobs_ok get exts off n"
  using assms
proof (induction exts arbitrary: dst)
  case Nil
  then show ?case by (simp add: window_blobs_ok_def)
next
  case (Cons e es)
  have e: "ext_ok e" and es: "exts_wf es" and bef: "\<forall>x\<in>set es. before e x"
    using Cons.prems(2) by (simp_all add: exts_wf_Cons)
  show ?case
  proof (cases "off + word_of_nat n \<le>s FileOffset e")
    case True
    then have "sint off + int n \<le> ext_start e"
      by (simp add: word_sle_eq window_end [OF Cons.prems(3)])
    then have "\<not> ext_start x < sint off + int n" if "x \<in> set (e # es)" for x
      using that bef ext_okD(2) [OF e] by (fastforce simp: before_def)
    then show ?thesis by (auto simp: window_blobs_ok_def)
  next
    case False
    with Cons.prems(1) obtain d1 where d1: "merge_one get off (off + word_of_nat n) e dst = Inr d1"
      "merge_loop get off (off + word_of_nat n) es d1 = Inr d" by (auto split: sum.splits)
    with Cons.IH [OF d1(2) es Cons.prems(3)] merge_one_blob [OF d1(1) e] show ?thesis
      by (auto simp: window_blobs_ok_def)
  qed
qed

section \<open>The bytes of a file\<close>

text \<open>
  The lower tree's files have fixed contents, and \<^verbatim>\<open>pread\<close> returns the bytes at the offset, fewer only at the
  end of the file. A file that cannot be opened because it is absent has no bytes.
\<close>

locale lower_files =
  fixes os :: lower_os and contents :: "path \<Rightarrow> bytes"
  assumes pread_bytes: "0 \<le> sint off \<Longrightarrow> os_pread os p off n = Inr got \<Longrightarrow>
      got = take n (drop (nat (sint off)) (contents p))"
    and open_absent: "os_open os p = Some err \<Longrightarrow> isAbsent err \<Longrightarrow> contents p = []"

definition tree_contents :: "ltree \<Rightarrow> path \<Rightarrow> bytes" where
  "tree_contents t p = (case ltree_at t p of Inr (LFile st b) \<Rightarrow> b | _ \<Rightarrow> [])"

interpretation trf: lower_files "tree_os t" "tree_contents t" for t
proof
  fix off :: i64 and p n got
  assume "0 \<le> sint off" and r: "os_pread (tree_os t) p off n = Inr got"
  then have "nat (sint off) = unat off" by (simp add: unat_eq_nat_uint uint_eq_sint_nonneg)
  with r show "got = take n (drop (nat (sint off)) (tree_contents t p))"
    by (auto simp: tree_os_def tree_contents_def split: sum.splits ltree.splits)
next
  fix p err
  assume "os_open (tree_os t) p = Some err"
  then show "tree_contents t p = []" by (auto simp: tree_os_def tree_contents_def split: sum.splits)
qed

datatype byte_src = Hole | FromBlob bytes int | FromLower path int

definition file_src :: "upper \<Rightarrow> entry \<Rightarrow> path \<Rightarrow> int \<Rightarrow> byte_src" where
  "file_src u e rel i =
     (case e_upper e of
        None \<Rightarrow> if present e then FromLower (lowerPath u rel) i else Hole
      | Some n \<Rightarrow>
          (case src_at (n_Extents n) i of
             Some (b, k) \<Rightarrow> FromBlob b k
           | None \<Rightarrow>
               if n_Fallthrough n then FromLower (lowerPath u (fallthroughSrc rel (Some n))) i else Hole))"

fun has_byte :: "(path \<Rightarrow> bytes) \<Rightarrow> (bytes \<Rightarrow> 'e + bytes) \<Rightarrow> byte_src \<Rightarrow> char \<Rightarrow> bool" where
  "has_byte contents get Hole c \<longleftrightarrow> c = CHR 0x00"
| "has_byte contents get (FromBlob b k) c \<longleftrightarrow>
     (\<exists>blob. get b = Inr blob \<and> 0 \<le> k \<and> k < int (length blob) \<and> c = blob ! nat k)"
| "has_byte contents get (FromLower p i) c \<longleftrightarrow>
     c = (if i < int (length (contents p)) then contents p ! nat i else CHR 0x00)"

definition lower_error :: "lower_os \<Rightarrow> upper \<Rightarrow> path \<Rightarrow> i64 \<Rightarrow> errno \<Rightarrow> bool" where
  "lower_error os u rel off err \<longleftrightarrow>
     os_open os (lowerPath u rel) = Some err \<and> \<not> isAbsent err \<or>
     (\<exists>n. os_pread os (lowerPath u rel) off n = Inl err)"

lemma readLowerInto_Inl: "readLowerInto os u rel off buf = Inl err \<Longrightarrow> lower_error os u rel off err"
  by (auto simp: readLowerInto_def lower_error_def split: option.splits if_splits sum.splits)

context lower_files
begin

lemma readLowerInto_Inr:
  assumes "readLowerInto os u rel off (replicate n (CHR 0x00)) = Inr d" and "0 \<le> sint off"
  shows "length d = n" and "j < n \<Longrightarrow> has_byte contents get (FromLower (lowerPath u rel) (sint off + int j)) (d ! j)"
proof -
  let ?c = "contents (lowerPath u rel)" and ?o = "nat (sint off)"
  have "d = take n (drop ?o ?c) @ drop (length (take n (drop ?o ?c))) (replicate n (CHR 0x00))"
  proof (cases "os_open os (lowerPath u rel)")
    case None
    then obtain got where got: "os_pread os (lowerPath u rel) off n = Inr got"
      "d = got @ drop (length got) (replicate n (CHR 0x00))"
      using assms(1) by (auto simp: readLowerInto_def split: sum.splits)
    then show ?thesis using pread_bytes [OF assms(2) got(1)] by simp
  next
    case (Some err)
    then have "isAbsent err" "d = replicate n (CHR 0x00)"
      using assms(1) by (auto simp: readLowerInto_def split: if_splits)
    then show ?thesis using open_absent [OF Some] by simp
  qed
  moreover obtain k where "sint off = int k" using assms(2) nonneg_int_cases by blast
  ultimately show "length d = n"
    and "j < n \<Longrightarrow> has_byte contents get (FromLower (lowerPath u rel) (sint off + int j)) (d ! j)"
    by (auto simp: nth_append nat_int_add)
qed

end

section \<open>Reads\<close>

lemma resolve_node: "resolve os u p = Inr e \<Longrightarrow> e_upper e = fmlookup (nodes u) p"
  by (auto simp: resolve_def Lookup_def resolve_upper_def resolve_lower_def absent_entry_def Let_def
      split: if_splits option.splits sum.splits kind.splits)

lemma resolve_absent_size: "resolve os u p = Inr e \<Longrightarrow> \<not> present e \<Longrightarrow> e_size e = 0 \<and> e_upper e = None"
  by (auto simp: resolve_def Lookup_def resolve_upper_def resolve_lower_def absent_entry_def present_def
      S_IF_nonzero Let_def split: if_splits option.splits sum.splits kind.splits)

definition read_len :: "nat \<Rightarrow> i64 \<Rightarrow> i64 \<Rightarrow> int" where
  "read_len want off sz = max 0 (min (int want) (sint sz - sint off))"

lemma readWindow_nat:
  assumes "want < 2 ^ 63"
  shows "readWindow off (word_of_nat want) sz =
     (if sint off < 0 \<or> sint sz < 0 \<or> 2 ^ 30 < read_len want off sz then (0, Some EIO)
      else (word_of_int (read_len want off sz), None))"
proof -
  have "sint (word_of_nat want :: i64) = int want" using assms by (intro sint_word_of_nat) simp
  then show ?thesis unfolding readWindow_outcome read_len_def Let_def by auto
qed

text \<open>Why a read may fail: every error has one of these causes.\<close>

definition read_failure ::
    "('l, 's) mounter \<Rightarrow> ('l, 's) mount_state \<Rightarrow> entry \<Rightarrow> path \<Rightarrow> nat \<Rightarrow> i64 \<Rightarrow> errno \<Rightarrow> bool" where
  "read_failure m st e rel want off err \<longleftrightarrow>
     (\<exists>n. e_upper e = Some n \<and> n_Kind n \<noteq> KindFile \<and> err = ENOENT) \<or>
     err = EIO \<and> (sint off < 0 \<or> sint (e_size e) < 0 \<or> 2 ^ 30 < read_len want off (e_size e)) \<or>
     lower_error (m_lower m) (s_upper (ms_Session st)) (fallthroughSrc rel (e_upper e)) off err \<or>
     err = EIO \<and> (\<exists>n. e_upper e = Some n \<and>
       \<not> window_blobs_ok (blob_get m st) (n_Extents n) off (nat (read_len want off (e_size e))))"

lemma merge_stage:
  assumes "exts_wf exts" and "window_ok off (length data)"
    and "\<And>j. j < length data \<Longrightarrow> has_byte contents get (base (sint off + int j)) (data ! j)"
  shows "case mergeExtents exts off data get of
      Inl _ \<Rightarrow> \<not> window_blobs_ok get exts off (length data)
    | Inr d \<Rightarrow> length d = length data \<and> (\<forall>j < length data. has_byte contents get
        (case src_at exts (sint off + int j) of Some (b, k) \<Rightarrow> FromBlob b k | None \<Rightarrow> base (sint off + int j)) (d ! j))"
proof (cases "mergeExtents exts off data get")
  case (Inl err)
  then show ?thesis using merge_loop_ok [OF assms(1,2), of get] by (auto simp: mergeExtents_def)
next
  case (Inr d)
  then have "window_blobs_ok get exts off (length data)"
    using merge_loop_blobs [OF _ assms(1,2)] by (simp add: mergeExtents_def)
  then have d: "length d = length data"
    "\<And>j. j < length data \<Longrightarrow> shows_byte get exts (sint off + int j) (data ! j) (d ! j)"
    using merge_loop_ok [OF assms(1,2), of get] Inr by (auto simp: mergeExtents_def)
  have "has_byte contents get (case src_at exts (sint off + int j) of Some (b, k) \<Rightarrow> FromBlob b k
      | None \<Rightarrow> base (sint off + int j)) (d ! j)" if "j < length data" for j
    using d(2) [OF that] assms(3) [OF that] by (auto simp: shows_byte_def split: option.splits)
  with d(1) Inr show ?thesis by simp
qed

text \<open>The window before extents are merged in: lower bytes or zeros.\<close>

definition falls_through :: "entry \<Rightarrow> bool" where
  "falls_through e \<longleftrightarrow> (case e_upper e of None \<Rightarrow> True | Some n \<Rightarrow> n_Fallthrough n)"

definition lower_base :: "('l, 's) mounter \<Rightarrow> ('l, 's) mount_state \<Rightarrow> entry \<Rightarrow> path \<Rightarrow> i64 \<Rightarrow> nat \<Rightarrow> errno + bytes" where
  "lower_base m st e rel off n =
     (if falls_through e
      then readLowerInto (m_lower m) (s_upper (ms_Session st)) (fallthroughSrc rel (e_upper e)) off
             (replicate n (CHR 0x00))
      else Inr (replicate n (CHR 0x00)))"

definition base_src :: "upper \<Rightarrow> entry \<Rightarrow> path \<Rightarrow> int \<Rightarrow> byte_src" where
  "base_src u e rel i =
     (if falls_through e then FromLower (lowerPath u (fallthroughSrc rel (e_upper e))) i else Hole)"

lemma file_src_node:
  "e_upper e = Some n \<Longrightarrow> file_src u e rel i =
     (case src_at (n_Extents n) i of Some (b, k) \<Rightarrow> FromBlob b k | None \<Rightarrow> base_src u e rel i)"
  by (auto simp: file_src_def base_src_def falls_through_def split: option.splits)

lemma file_src_lower: "e_upper e = None \<Longrightarrow> present e \<Longrightarrow> file_src u e rel i = base_src u e rel i"
  by (simp add: file_src_def base_src_def falls_through_def fallthroughSrc_def)

lemma HandleRead_window:
  assumes "mnt_resolve m st rel = Inr e" and "want < 2 ^ 63" and "0 \<le> sint off" and "0 \<le> sint (e_size e)"
    and kind: "\<forall>n. e_upper e = Some n \<longrightarrow> n_Kind n = KindFile"
    and len: "0 < read_len want off (e_size e)" "read_len want off (e_size e) \<le> 2 ^ 30"
  shows "HandleRead m st rel want off =
    (case lower_base m st e rel off (nat (read_len want off (e_size e))) of
       Inl err \<Rightarrow> Inl err
     | Inr data \<Rightarrow>
         (case e_upper e of
            None \<Rightarrow> Inr data
          | Some u \<Rightarrow>
              (case mergeExtents (n_Extents u) off data (blob_get m st) of
                 Inl _ \<Rightarrow> Inl EIO | Inr data \<Rightarrow> Inr data)))"
proof -
  let ?len = "read_len want off (e_size e)"
  have n: "uint (word_of_int ?len :: i64) = ?len" using len by (simp add: unsigned_of_int take_bit_int_eq_self)
  then have nz: "(word_of_int ?len :: i64) \<noteq> 0" using len(1) by auto
  have un: "unat (word_of_int ?len :: i64) = nat ?len" by (simp add: unat_eq_nat_uint n del: nat_uint_eq)
  show ?thesis
    using assms(1,3,4) kind len(2)
    unfolding HandleRead_def Let_def lower_base_def falls_through_def readWindow_nat [OF assms(2)] un [symmetric]
    by (simp add: nz split: option.splits cong: sum.case_cong)
qed

lemma lower_base_ok:
  assumes "lower_files (m_lower m) contents" and "0 \<le> sint off" and "lower_base m st e rel off n = Inr data"
  shows "length data = n" and "j < length data \<Longrightarrow>
    has_byte contents get (base_src (s_upper (ms_Session st)) e rel (sint off + int j)) (data ! j)"
  using lower_files.readLowerInto_Inr [OF assms(1) _ assms(2)] assms(3)
  by (auto simp: lower_base_def base_src_def split: if_splits)

lemma HandleRead_outcome:
  assumes low: "lower_files (m_lower m) contents" and wf: "upper_wf (s_upper (ms_Session st))"
    and res: "mnt_resolve m st rel = Inr e" and want: "want < 2 ^ 63"
  shows "case HandleRead m st rel want off of
      Inl err \<Rightarrow> read_failure m st e rel want off err
    | Inr d \<Rightarrow> 0 \<le> sint off \<and> int (length d) = read_len want off (e_size e) \<and>
        (\<forall>j < length d. has_byte contents (blob_get m st)
           (file_src (s_upper (ms_Session st)) e rel (sint off + int j)) (d ! j))"
proof -
  let ?u = "s_upper (ms_Session st)" and ?len = "read_len want off (e_size e)" and ?get = "blob_get m st"
  consider (refused) "(\<exists>n. e_upper e = Some n \<and> n_Kind n \<noteq> KindFile) \<or> sint off < 0 \<or> sint (e_size e) < 0 \<or> 2 ^ 30 < ?len"
    | (empty) "\<forall>n. e_upper e = Some n \<longrightarrow> n_Kind n = KindFile" "0 \<le> sint off" "0 \<le> sint (e_size e)" "?len = 0"
    | (window) "\<forall>n. e_upper e = Some n \<longrightarrow> n_Kind n = KindFile" "0 \<le> sint off" "0 \<le> sint (e_size e)"
        "0 < ?len" "?len \<le> 2 ^ 30"
    unfolding read_len_def by fastforce
  then show ?thesis
  proof cases
    case refused
    then show ?thesis using res readWindow_nat [OF want]
      by (auto simp: HandleRead_def read_failure_def split: option.splits)
  next
    case empty
    then show ?thesis using res readWindow_nat [OF want] by (auto simp: HandleRead_def split: option.splits)
  next
    case window
    note read = HandleRead_window [OF res want window(2,3,1,4,5)]
    show ?thesis
    proof (cases "lower_base m st e rel off (nat ?len)")
      case (Inl err)
      then have "lower_error (m_lower m) ?u (fallthroughSrc rel (e_upper e)) off err"
        by (auto simp: lower_base_def split: if_splits intro: readLowerInto_Inl)
      then show ?thesis by (simp add: read Inl read_failure_def)
    next
      case (Inr data)
      note data = lower_base_ok(1) [OF low window(2) Inr] lower_base_ok(2) [OF low window(2) Inr, where get = ?get]
      show ?thesis
      proof (cases "e_upper e")
        case None
        have "present e" using window(2,4) resolve_absent_size res unfolding mnt_resolve_def
          by (fastforce simp: read_len_def)
        then have "file_src ?u e rel i = base_src ?u e rel i" for i using None by (rule file_src_lower [rotated])
        then show ?thesis unfolding read Inr None using data window by (simp del: has_byte.simps)
      next
        case (Some n)
        have "exts_wf (n_Extents n)" using upper_wfD(2) [OF wf] resolve_node res Some
          unfolding mnt_resolve_def by (fastforce simp: node_ok_def)
        moreover have "window_ok off (length data)"
          using window(2,4) data(1) sint_range [of "e_size e"] by (auto simp: window_ok_def read_len_def)
        ultimately have "case mergeExtents (n_Extents n) off data ?get of
            Inl _ \<Rightarrow> \<not> window_blobs_ok ?get (n_Extents n) off (length data)
          | Inr d \<Rightarrow> length d = length data \<and> (\<forall>j < length data.
              has_byte contents ?get (file_src ?u e rel (sint off + int j)) (d ! j))"
          unfolding file_src_node [OF Some] using data(2) by (rule merge_stage)
        then show ?thesis using Some data(1) window
          by (cases "mergeExtents (n_Extents n) off data ?get") (simp_all add: read Inr read_failure_def)
      qed
    qed
  qed
qed

text \<open>
  C8. A read through a file handle returns exactly the file's bytes, over any lower tree with fixed
  contents. When it succeeds, it returns as many bytes as were wanted or are left in the file, and each is
  the byte its source holds: the blob the newest write put there, the lower file (through redirects and
  the node's fixed lower source), or zero. When it fails, there is a cause: not a regular file, an
  unservable window, a failing lower tree, or a blob that cannot be fetched or is too short; it never
  substitutes other bytes.
\<close>

theorem handle_read_correct:
  assumes "lower_files (m_lower m) contents" and "upper_wf (s_upper (ms_Session st))"
    and "mnt_resolve m st rel = Inr e" and "want < 2 ^ 63"
  shows "case HandleRead m st rel want off of
      Inl err \<Rightarrow> read_failure m st e rel want off err
    | Inr d \<Rightarrow> 0 \<le> sint off \<and> int (length d) = max 0 (min (int want) (sint (e_size e) - sint off)) \<and>
        (\<forall>j < length d. has_byte contents (blob_get m st)
           (file_src (s_upper (ms_Session st)) e rel (sint off + int j)) (d ! j))"
  using HandleRead_outcome [OF assms] unfolding read_len_def .

definition sample_mounter :: "(envelope list, s3fake) mounter" where
  "sample_mounter = \<lparr>m_lower = tree_os sample_tree, m_log = sample_log, m_Blobs = sample_blobs\<rparr>"

definition sample_mount :: "(envelope list, s3fake) mount_state" where
  "sample_mount = \<lparr>ms_Session = sample_session, ms_log = [], ms_store = sample_fake\<rparr>"

lemmas sample_mount_defs = sample_mounter_def sample_mount_def sample_session_def sample_meta_def

theorem handle_read_correct_witness:
  "\<exists>d. HandleRead sample_mounter sample_mount ''x'' 10 1 = Inr d \<and> length d = 4 \<and> d ! 0 = CHR ''e''"
proof -
  have low: "lower_files (m_lower sample_mounter) (tree_contents sample_tree)"
    using trf.lower_files_axioms by (simp add: sample_mounter_def)
  have wf: "upper_wf (s_upper (ms_Session sample_mount))"
    by (simp add: sample_mount_def sample_session_def upper_wf_New)
  have "\<not> isl (mnt_resolve sample_mounter sample_mount ''x'')" by code_simp
  then obtain e where e: "mnt_resolve sample_mounter sample_mount ''x'' = Inr e" by (metis isl_def sum.exhaust)
  have "case mnt_resolve sample_mounter sample_mount ''x'' of Inr e \<Rightarrow> e_size e = 5 \<and> e_upper e = None \<and> present e"
    by code_simp
  then have sz: "e_size e = 5" "e_upper e = None" "present e" using e by auto
  have lp: "lowerPath (s_upper (ms_Session sample_mount)) ''x'' = ''x''"
    "tree_contents sample_tree ''x'' = ''hello''" by code_simp+
  have "\<not> isl (HandleRead sample_mounter sample_mount ''x'' 10 1)" by code_simp
  then obtain d where d: "HandleRead sample_mounter sample_mount ''x'' 10 1 = Inr d" by (metis isl_def sum.exhaust)
  from handle_read_correct [OF low wf e, of 10 1] d sz
  have len: "int (length d) = 4" and b: "\<forall>j < length d. has_byte (tree_contents sample_tree)
      (blob_get sample_mounter sample_mount)
      (file_src (s_upper (ms_Session sample_mount)) e ''x'' (1 + int j)) (d ! j)" by simp_all
  have "has_byte (tree_contents sample_tree) (blob_get sample_mounter sample_mount)
      (file_src (s_upper (ms_Session sample_mount)) e ''x'' (1 + int 0)) (d ! 0)"
    using b len by (metis of_nat_0_less_iff zero_less_numeral)
  then show ?thesis using d len sz lp by (simp add: file_src_def)
qed

end
