(* ===== verification/Handles_Write.thy ===== *)
theory Handles_Write
  imports Handles_Props
begin

text \<open>
  Writes through a file handle, in terms of the file's size and byte sources: \<^verbatim>\<open>pwrite\<close>, and a read after a
  write. Sizes of lower-backed files are never overridden in a reachable overlay, which the size argument
  needs.
\<close>

section \<open>No size overrides\<close>

definition size_free :: "upper \<Rightarrow> bool" where
  "size_free u \<longleftrightarrow> (\<forall>p ov. fmlookup (overrides u) p = Some ov \<longrightarrow> ov_Size ov = None)"

lemma size_free_fields [simp]:
  "size_free (u\<lparr>nodes := m\<rparr>) = size_free u" "size_free (u\<lparr>whiteouts := w\<rparr>) = size_free u"
  "size_free (u\<lparr>redirects := r\<rparr>) = size_free u" "size_free (u\<lparr>lowerID := l\<rparr>) = size_free u"
  "size_free (u\<lparr>seqLast := s\<rparr>) = size_free u"
  by (simp_all add: size_free_def)

lemma size_free_move: "size_free u \<Longrightarrow> size_free (moveOverrides from to u)"
  unfolding size_free_def moveOverrides_def using move_keys_values by fastforce

lemma size_free_delete: "size_free u \<Longrightarrow> size_free (deleteSubtree to u)"
  unfolding size_free_def deleteSubtree_def using delete_keys_values by fastforce

lemma size_free_absorb: "size_free u \<Longrightarrow> size_free (fst (absorbOverride u p n))"
  by (auto simp: size_free_def absorbOverride_def split: option.splits)

lemma size_free_rename: "size_free u \<Longrightarrow> size_free (rename_paths from to fl u)"
  by (simp add: rename_paths_def Let_def moveSubtree_def moveNodes_def moveRedirects_def moveWhiteouts_def
      size_free_move size_free_delete)

lemma size_free_write: "size_free u \<Longrightarrow> size_free (apply_write w p u)"
  using size_free_absorb [of u p]
  by (auto simp: apply_write_def write_target_def put_node_def Let_def split: option.splits prod.splits)
    (metis fst_conv)

lemma size_free_setattr: "size_free u \<Longrightarrow> applySetattr sa u = Inr u' \<Longrightarrow> size_free u'"
  using size_free_absorb [of u "sa_Path sa"]
  by (auto simp: applySetattr_def mustNormalize_def NormalizePath_def put_node_def Let_def set_override_def or_else_def
      zero_override_def size_free_def split: option.splits prod.splits sum.splits if_splits) (metis fst_conv)+

lemma with_path_size_free:
  "with_path p f = Inr x \<Longrightarrow> \<forall>q. size_free (f q) \<Longrightarrow> size_free x"
  by (auto simp: with_path_def split: sum.splits)

lemma apply_op_size_free:
  assumes "apply_op op v = Inr x" and "size_free v"
  shows "size_free x"
proof (cases op)
  case (Some e)
  have put: "size_free (put_node q n v)" "size_free (remove_entry q v)" for q n
    using assms(2) by (simp_all add: put_node_def remove_entry_def)
  have r: "size_free x" if "applyRename r v = Inr x" for r
    using that size_free_rename [OF assms(2)] by (auto simp: applyRename_def split: sum.splits if_splits)
  note frees = put r size_free_setattr [OF assms(2)] size_free_write [OF assms(2)]
  show ?thesis
    using assms Some by (cases e) (auto simp: apply_op_def frees elim!: with_path_size_free)
qed (use assms in \<open>simp add: apply_op_def\<close>)

lemma Apply_size_free:
  assumes "size_free u" and "Apply u ev = Inr u'"
  shows "size_free u'"
  using assms by (auto elim!: Apply_Inr dest!: apply_op_size_free split: if_splits)

lemma size_free_New: "size_free New"
  by (simp add: size_free_def New_def)

lemma reachable_size_free: "reachable u \<Longrightarrow> size_free u"
  by (induction rule: reachable.induct) (auto intro: Apply_size_free size_free_New)

section \<open>Sizes\<close>

lemma extents_end_le:
  "\<forall>e\<in>set es. ext_ok e \<Longrightarrow> sint (extents_end es f) \<le> s \<longleftrightarrow> sint f \<le> s \<and> (\<forall>e\<in>set es. ext_stop e \<le> s)"
proof (induction es arbitrary: f)
  case Nil
  then show ?case by simp
next
  case (Cons e es)
  then have "sint (End e) = ext_stop e" by (simp add: sint_End)
  with Cons show ?case by (auto simp: word_sless_alt)
qed

lemma extentEnd_le:
  assumes "exts_wf (n_Extents n)"
  shows "sint (extentEnd n) \<le> s \<longleftrightarrow> 0 \<le> s \<and> (\<forall>i\<ge>s. src_at (n_Extents n) i = None)"
  using assms extents_end_le [of "n_Extents n" 0 s] stops_iff_src [OF assms, of s]
  by (simp add: extentEnd_def exts_wf_def)

text \<open>The lower side of the view depends on the redirects only.\<close>

lemma lower_cong:
  assumes "redirects u' = redirects u"
  shows "lowerPath u' = lowerPath u" "statLower os u' = statLower os u" "sizeOfNode os u' = sizeOfNode os u"
proof -
  show lp: "lowerPath u' = lowerPath u" unfolding fun_eq_iff lowerPath_def LowerPath_def assms by simp
  then show sl: "statLower os u' = statLower os u" by (simp add: fun_eq_iff statLower_def)
  then have ls: "lowerSize os u' = lowerSize os u" by (simp add: fun_eq_iff lowerSize_def)
  show "sizeOfNode os u' = sizeOfNode os u" by (intro ext, unfold sizeOfNode_def ls, rule refl)
qed

text \<open>A write that reaches the end sets the size; one that does not leaves it as it was.\<close>

lemma write_size_eof:
  assumes "wr_Eof w" and "write_ok w" and "n_Kind n = KindFile"
  shows "sizeOfNode os u p (Some (write_size w (write_extents w n))) = Inr (wr_Offset w + wr_Length w)"
proof -
  have "0 \<le> sint (wr_Offset w + wr_Length w)"
    using write_fin [OF assms(2)] assms(2) uint_range [of "wr_Length w"] by (simp add: write_ok_def)
  then show ?thesis using assms
    by (simp add: sizeOfNode_def write_size_def write_extents_def Let_def word_sle_eq)
qed

lemma write_size_inner:
  assumes "\<not> wr_Eof w" and w: "write_ok w" and n: "node_ok n" "n_Kind n = KindFile"
    and sz: "sizeOfNode os u p (Some n) = Inr sz" and gt: "wr_stop w < sint sz"
  shows "sizeOfNode os u p (Some (write_size w (write_extents w n))) = Inr sz"
proof -
  let ?m = "write_size w (write_extents w n)"
  have keep: "n_Kind ?m = KindFile" "n_Fallthrough ?m = n_Fallthrough n" "n_LowerRel ?m = n_LowerRel n"
    using n(2) by (simp_all add: write_size_def write_extents_def Let_def)
  have size: "n_Size ?m = n_Size n"
  proof (cases "n_Fallthrough n")
    case True
    then show ?thesis using assms(1) by (simp add: write_size_def write_extents_def Let_def)
  next
    case False
    then have "n_Size n = sz" using sz n by (simp add: sizeOfNode_def node_ok_def sizes_ok_def word_sle_eq)
    then show ?thesis using gt assms(1) write_fin [OF w]
      by (simp add: write_size_def write_extents_def Let_def word_sless_alt)
  qed
  have wf: "exts_wf (n_Extents n)" using n(1) by (simp add: node_ok_def)
  note src = write_node_src [OF w wf]
  have stop: "0 \<le> wr_stop w" using w uint_range [of "wr_Length w"] by (simp add: write_ok_def)
  have far: "sint (extentEnd ?m) \<le> s \<longleftrightarrow> sint (extentEnd n) \<le> s" if "wr_stop w \<le> s" for s
    unfolding extentEnd_le [OF wf] extentEnd_le [OF src(1)] src(2) using that assms(1) by (auto simp: spec_write_def)
  have same: "extentEnd ?m = extentEnd n" if "wr_stop w < sint (extentEnd n)"
    using that far [of "sint (extentEnd n) - 1"] far [of "sint (extentEnd n)"]
    by (intro signed_word_eqI) simp
  show ?thesis
  proof (cases "0 \<le>s n_Size n \<or> \<not> n_Fallthrough n")
    case True
    have "\<not> n_Fallthrough n \<Longrightarrow> 0 \<le>s n_Size n" using n(1) by (simp add: node_ok_def sizes_ok_def word_sle_eq)
    with True show ?thesis using sz keep size n(2) by (auto simp: sizeOfNode_def)
  next
    case False
    have src: "fallthroughSrc p (Some ?m) = fallthroughSrc p (Some n)"
      using keep by (simp add: fallthroughSrc_def)
    obtain ls where ls: "lowerSize os u (fallthroughSrc p (Some n)) = Inr ls"
      "sz = (if extentEnd n <s ls then ls else extentEnd n)"
      using sz n(2) False by (auto simp: sizeOfNode_def Let_def split: sum.splits)
    have "sint (extentEnd ?m) < sint ls \<longleftrightarrow> sint (extentEnd n) < sint ls"
      using far [of "sint ls - 1"] far [of "sint ls"] same gt ls(2)
      by (cases "sint (extentEnd n) < sint ls") (auto simp: word_sless_alt)
    then show ?thesis using ls False keep size src same gt
      by (auto simp: sizeOfNode_def Let_def word_sless_alt)
  qed
qed

section \<open>One write\<close>

text \<open>The node a write event leaves, and what it started from: the old node, or a fresh sparse one.\<close>

lemma Apply_write_node:
  assumes wf: "upper_wf u" and op: "Op ev = Some (Write w)" and ap: "Apply u ev = Inr u'"
  obtains n where "fmlookup (nodes u') (wr_Path w) = Some (write_size w (write_extents w n))"
    and "redirects u' = redirects u" and "node_ok n" and "n_Kind n = KindFile" and "norm_path (wr_Path w)"
    and "\<forall>m. fmlookup (nodes u) (wr_Path w) = Some m \<longrightarrow> n = m"
    and "fmlookup (nodes u) (wr_Path w) = None \<longrightarrow> n_Extents n = [] \<and> n_Fallthrough n = wr_Fallthrough w \<and>
      (wr_Fallthrough w \<longrightarrow> n_Size n = - 1 \<and> n_LowerRel n = wr_Path w)"
    and "\<forall>q. q \<noteq> wr_Path w \<longrightarrow> fmlookup (nodes u') q = fmlookup (nodes u) q"
proof -
  let ?v = "if LowerId ev \<noteq> [] then u\<lparr>lowerID := LowerId ev\<rparr> else u" and ?p = "wr_Path w"
  note st = Apply_write_step [OF op ap]
  obtain x n where t: "write_target ?v w ?p = (x, n)" by fastforce
  have "upper_wf ?v" and p: "norm_path ?p" and k: "\<And>m. fmlookup (nodes ?v) ?p = Some m \<Longrightarrow> n_Kind m = KindFile"
    using wf st(1) by (auto simp: check_write_None split: if_splits)
  note ok = write_target_ok [OF this(1) p t k]
  have red: "redirects x = redirects u" using t
    by (auto simp: write_target_def absorbOverride_def Let_def split: option.splits if_splits)
  have u': "nodes u' = fmupd ?p (write_size w (write_extents w n)) (nodes u)" "redirects u' = redirects u"
    using st(2) t ok(4) red by (simp_all add: apply_write_def put_node_def)
  show thesis
  proof (rule that [OF _ u'(2) ok(2,3) p])
    show "fmlookup (nodes u') ?p = Some (write_size w (write_extents w n))" by (simp add: u')
    show "\<forall>m. fmlookup (nodes u) ?p = Some m \<longrightarrow> n = m" using t by (auto simp: write_target_def split: if_splits)
    show "fmlookup (nodes u) ?p = None \<longrightarrow> n_Extents n = [] \<and> n_Fallthrough n = wr_Fallthrough w \<and>
        (wr_Fallthrough w \<longrightarrow> n_Size n = - 1 \<and> n_LowerRel n = wr_Path w)"
      using t by (auto simp: write_target_def absorbOverride_def zero_node_def Let_def
          split: option.splits if_splits)
    show "\<forall>q. q \<noteq> ?p \<longrightarrow> fmlookup (nodes u') q = fmlookup (nodes u) q" by (simp add: u')
  qed
qed

text \<open>What the lower tree says about a path that is present, and the size the view reports.\<close>

lemma resolve_present:
  assumes "resolve os u p = Inr e" and "present e" and "size_free u"
  shows "\<exists>low. (case statLower os u p of Inr st \<Rightarrow> Inr (Some st)
      | Inl err \<Rightarrow> if isAbsent err then Inr None else Inl err) = Inr low"
    and "fmlookup (nodes u) p = Some n \<Longrightarrow> n_Kind n = KindFile \<Longrightarrow> sizeOfNode os u p (Some n) = Inr (e_size e)"
    and "fmlookup (nodes u) p = None \<Longrightarrow> e_size e = 0 \<or> lowerSize os u p = Inr (e_size e)"
proof -
  have split: "e = absent_entry p \<or> (\<exists>low. (case statLower os u p of Inr st \<Rightarrow> Inr (Some st)
      | Inl err \<Rightarrow> if isAbsent err then Inr None else Inl err) = Inr low \<and>
      (case fmlookup (nodes u) p of
         Some n \<Rightarrow> resolve_upper os u p n low = Inr e
       | None \<Rightarrow> \<exists>st. low = Some st \<and> resolve_lower u p st = Inr e))"
    using assms(1) by (auto simp: resolve_def Lookup_def Let_def split: if_splits option.splits sum.splits)
  then obtain low where low: "(case statLower os u p of Inr st \<Rightarrow> Inr (Some st)
      | Inl err \<Rightarrow> if isAbsent err then Inr None else Inl err) = Inr low"
    "case fmlookup (nodes u) p of Some n \<Rightarrow> resolve_upper os u p n low = Inr e
       | None \<Rightarrow> \<exists>st. low = Some st \<and> resolve_lower u p st = Inr e"
    using assms(2) by (auto simp: present_def absent_entry_def)
  from low(1) show "\<exists>low. (case statLower os u p of Inr st \<Rightarrow> Inr (Some st)
      | Inl err \<Rightarrow> if isAbsent err then Inr None else Inl err) = Inr low" by blast
  show "sizeOfNode os u p (Some n) = Inr (e_size e)" if "fmlookup (nodes u) p = Some n" "n_Kind n = KindFile"
    using low(2) that by (auto simp: resolve_upper_def Let_def split: sum.splits)
  show "e_size e = 0 \<or> lowerSize os u p = Inr (e_size e)" if none: "fmlookup (nodes u) p = None"
  proof -
    obtain st where st: "low = Some st" "resolve_lower u p st = Inr e" using low(2) none by auto
    have "lowerSize os u p = Inr (st_Size st)" using low(1) st(1)
      by (auto simp: lowerSize_def split: sum.splits if_splits)
    moreover have "la_size (applyOverride (Override u p) (attrsFromStat st)) = st_Size st"
      using assms(3) by (auto simp: applyOverride_def attrsFromStat_def Override_def size_free_def or_else_def
          split: option.splits)
    ultimately show ?thesis using st(2)
      by (auto simp: resolve_lower_def statAttr_def Let_def S_IFDIR_def S_IFREG_def zero_attr_def split: if_splits)
  qed
qed

lemma resolve_upper_file:
  assumes "(case statLower os u p of Inr st \<Rightarrow> Inr (Some st)
      | Inl err \<Rightarrow> if isAbsent err then Inr None else Inl err) = Inr low"
    and "fmlookup (nodes u) p = Some n" and "n_Kind n = KindFile" and "sizeOfNode os u p (Some n) = Inr sz"
  shows "\<exists>e. resolve os u p = Inr e \<and> e_kind e = S_IFREG \<and> e_size e = sz \<and> e_upper e = Some n"
  using assms by (simp add: resolve_def Lookup_def resolve_upper_def Let_def)

lemma Apply_write_view:
  assumes wf: "upper_wf u" "size_free u" and op: "Op ev = Some (Write w)" and w: "write_ok w"
    and ap: "Apply u ev = Inr u'" and res: "resolve os u (wr_Path w) = Inr e" and pr: "present e"
    and fall: "wr_Fallthrough w \<longleftrightarrow> e_upper e = None" and eof: "wr_Eof w \<longleftrightarrow> sint (e_size e) \<le> wr_stop w"
  shows "\<exists>e'. resolve os u' (wr_Path w) = Inr e' \<and> e_kind e' = S_IFREG \<and>
    sint (e_size e') = max (sint (e_size e)) (wr_stop w) \<and>
    (\<forall>i. 0 \<le> i \<and> i < sint (e_size e') \<longrightarrow> file_src u' e' (wr_Path w) i =
       (if sint (wr_Offset w) \<le> i \<and> i < wr_stop w
        then FromBlob (wr_BlobId w) (uint (wr_BlobOffset w) + (i - sint (wr_Offset w)))
        else file_src u e (wr_Path w) i))"
proof -
  let ?p = "wr_Path w"
  obtain n where look: "fmlookup (nodes u') ?p = Some (write_size w (write_extents w n))"
    and red: "redirects u' = redirects u" and n: "node_ok n" "n_Kind n = KindFile" and p: "norm_path ?p"
    and old: "\<forall>m. fmlookup (nodes u) ?p = Some m \<longrightarrow> n = m"
    and new: "fmlookup (nodes u) ?p = None \<longrightarrow> n_Extents n = [] \<and> n_Fallthrough n = wr_Fallthrough w \<and>
      (wr_Fallthrough w \<longrightarrow> n_Size n = - 1 \<and> n_LowerRel n = ?p)"
    by (rule Apply_write_node [OF wf(1) op ap]) (rule that)
  let ?m = "write_size w (write_extents w n)"
  note low = lower_cong [OF red]
  have up: "e_upper e = fmlookup (nodes u) ?p" using resolve_node [OF res] .
  have keep: "n_Kind ?m = KindFile" "n_Fallthrough ?m = n_Fallthrough n" "n_LowerRel ?m = n_LowerRel n"
    using n(2) by (simp_all add: write_size_def write_extents_def Let_def)
  obtain sz where sz: "sizeOfNode os u ?p (Some ?m) = Inr sz" "sint sz = max (sint (e_size e)) (wr_stop w)"
  proof (cases "wr_Eof w")
    case True
    then show ?thesis using that write_size_eof [OF True w n(2)] eof write_fin [OF w] by simp
  next
    case False
    then have gt: "wr_stop w < sint (e_size e)" "0 \<le> wr_stop w"
      using eof w uint_range [of "wr_Length w"] by (simp_all add: write_ok_def)
    have "sizeOfNode os u ?p (Some n) = Inr (e_size e)"
    proof (cases "fmlookup (nodes u) ?p")
      case (Some m)
      then show ?thesis using resolve_present(2) [OF res pr wf(2)] old n(2) by blast
    next
      case None
      then have "lowerSize os u ?p = Inr (e_size e)" using resolve_present(3) [OF res pr wf(2)] gt by auto
      then show ?thesis using new None up fall gt n(2)
        by (auto simp: sizeOfNode_def extentEnd_def fallthroughSrc_def word_sless_alt word_sle_eq Let_def)
    qed
    then show ?thesis using that write_size_inner [OF False w n] gt(1) by simp
  qed
  obtain e' where e': "resolve os u' ?p = Inr e'" "e_kind e' = S_IFREG" "e_size e' = sz" "e_upper e' = Some ?m"
    using resolve_present(1) [OF res pr wf(2)] resolve_upper_file [of os u' ?p _ ?m sz] look keep sz(1)
    by (auto simp: low)
  have base: "base_src u' e' ?p i = base_src u e ?p i" for i
  proof (cases "fmlookup (nodes u) ?p")
    case (Some m)
    then show ?thesis using old up e'(4) keep by (simp add: base_src_def falls_through_def fallthroughSrc_def low)
  next
    case None
    then show ?thesis using new up e'(4) keep fall
      by (simp add: base_src_def falls_through_def fallthroughSrc_def low)
  qed
  have oldsrc: "file_src u e ?p i =
      (case src_at (n_Extents n) i of Some (b, k) \<Rightarrow> FromBlob b k | None \<Rightarrow> base_src u e ?p i)" for i
  proof (cases "fmlookup (nodes u) ?p")
    case (Some m)
    then show ?thesis using old up by (simp add: file_src_node)
  next
    case None
    then show ?thesis using new up pr by (simp add: file_src_lower src_at_def)
  qed
  have wfx: "exts_wf (n_Extents n)" using n(1) by (simp add: node_ok_def)
  have "file_src u' e' ?p i = (if sint (wr_Offset w) \<le> i \<and> i < wr_stop w
        then FromBlob (wr_BlobId w) (uint (wr_BlobOffset w) + (i - sint (wr_Offset w)))
        else file_src u e ?p i)" if "i < sint (e_size e')" for i
  proof -
    have "wr_Eof w \<Longrightarrow> i < wr_stop w" using that e'(3) sz(2) eof by auto
    then show ?thesis
      unfolding file_src_node [OF e'(4)] oldsrc base write_node_src(2) [OF w wfx] by (auto simp: spec_write_def)
  qed
  with e' sz(2) show ?thesis by auto
qed

section \<open>Writes\<close>

definition write_event :: "path \<Rightarrow> i64 \<Rightarrow> bytes \<Rightarrow> bool \<Rightarrow> u32 \<Rightarrow> bool \<Rightarrow> u32 \<Rightarrow> u32 \<Rightarrow> write_msg" where
  "write_event rel off data eof mode sparse uid gid =
     \<lparr>wr_Path = rel, wr_Offset = off, wr_Length = word_of_nat (length data), wr_BlobId = sha256_hex data,
      wr_BlobOffset = 0, wr_Eof = eof, wr_Mode = mode, wr_Fallthrough = sparse, wr_Uid = uid, wr_Gid = gid\<rparr>"

lemma write_event_fields [simp]:
  "wr_Path (write_event rel off data eof mode sparse uid gid) = rel"
  "wr_Offset (write_event rel off data eof mode sparse uid gid) = off"
  "wr_Length (write_event rel off data eof mode sparse uid gid) = word_of_nat (length data)"
  "wr_BlobId (write_event rel off data eof mode sparse uid gid) = sha256_hex data"
  "wr_BlobOffset (write_event rel off data eof mode sparse uid gid) = 0"
  "wr_Eof (write_event rel off data eof mode sparse uid gid) = eof"
  "wr_Fallthrough (write_event rel off data eof mode sparse uid gid) = sparse"
  by (simp_all add: write_event_def)

lemma CommitSparseWrite_ok:
  assumes "CommitSparseWrite elog (s3_blobs bs) now rel off data eof mode uid gid sparse ss l b = (None, ck, ss', l', b')"
    and "seq_ok ss"
  obtains ev where "Op ev = Some (Write (write_event rel off data eof mode sparse uid gid))"
    and "Apply (s_upper ss) ev = Inr (s_upper ss')" and "BlobPut bs data b = (Inr (sha256_hex data), b')"
proof -
  let ?w = "Write (write_event rel off data eof mode sparse uid gid)"
  let ?ev = "NewEnvelope now (sm_ID (Meta ss)) (s_lowerID ss) ?w"
  obtain r b1 where put: "BlobPut bs data b = (r, b1)" by fastforce
  then have r: "\<And>i. r = Inr i \<Longrightarrow> i = sha256_hex data"
    by (auto simp: BlobPut_outcome split: prod.splits option.splits)
  have "b1 = b'" "r = Inr (sha256_hex data)" and c: "commit elog ?ev ss l = (None, ck, ss', l')"
    using assms(1) put r
    by (auto simp: CommitSparseWrite_def s3_blobs_def commitOp_def write_event_def
        split: option.splits prod.splits sum.splits)
  from c assms(2) have "Apply (s_upper ss) (?ev\<lparr>Seq := s_seq ss + 1\<rparr>) = Inr (s_upper ss')"
    by (cases rule: commit_cases) auto
  then show thesis using that [of "?ev\<lparr>Seq := s_seq ss + 1\<rparr>"] put \<open>b1 = b'\<close> \<open>r = Inr (sha256_hex data)\<close>
    by (simp add: NewEnvelope_def)
qed

lemma commitErrno_None [simp]: "commitErrno merr = None \<longleftrightarrow> merr = None"
  by (cases merr) (use mapErrno_Some in \<open>auto simp: commitErrno_def\<close>)

lemma HandleWrite_ok:
  assumes "HandleWrite m now rel data off st = (Inr k, st')" and "seq_ok (ms_Session st)"
    and "mnt_resolve m st rel = Inr e"
  obtains ev mode uid gid where "k = word_of_nat (length data)"
    and "Op ev = Some (Write (write_event rel off data (e_size e \<le>s off + word_of_nat (length data)) mode
      (e_upper e = None \<and> present e) uid gid))"
    and "Apply (s_upper (ms_Session st)) ev = Inr (s_upper (ms_Session st'))"
    and "BlobPut (m_Blobs m) data (ms_store st) = (Inr (sha256_hex data), ms_store st')"
proof -
  let ?sparse = "e_upper e = None \<and> present e" and ?eof = "e_size e \<le>s off + word_of_nat (length data)"
  define mode where "mode = (if ?sparse then st_Mode (the (e_lower e)) AND 4095 else 0)"
  define uid where "uid = (if ?sparse then st_Uid (the (e_lower e)) else 0)"
  define gid where "gid = (if ?sparse then st_Gid (the (e_lower e)) else 0)"
  obtain err ck s' l' b' where c: "CommitSparseWrite (m_log m) (s3_blobs (m_Blobs m)) now rel off data ?eof mode
      uid gid ?sparse (ms_Session st) (ms_log st) (ms_store st) = (err, ck, s', l', b')" by (metis prod_cases5)
  have "err = None \<and> k = word_of_nat (length data) \<and> st' = \<lparr>ms_Session = s', ms_log = l', ms_store = b'\<rparr>"
  proof -
    have "HandleWrite m now rel data off st = (case commitErrno err of
        Some errno \<Rightarrow> (Inl errno, \<lparr>ms_Session = s', ms_log = l', ms_store = b'\<rparr>)
      | None \<Rightarrow> (Inr (word_of_nat (length data)), \<lparr>ms_Session = s', ms_log = l', ms_store = b'\<rparr>))"
      using c by (simp add: HandleWrite_def assms(3) mode_def uid_def gid_def Let_def)
    then show ?thesis using assms(1) by (auto split: option.splits)
  qed
  then have k: "k = word_of_nat (length data)" and st': "st' = \<lparr>ms_Session = s', ms_log = l', ms_store = b'\<rparr>"
    and "CommitSparseWrite (m_log m) (s3_blobs (m_Blobs m)) now rel off data ?eof mode
      uid gid ?sparse (ms_Session st) (ms_log st) (ms_store st) = (None, ck, s', l', b')" using c by auto
  from this(3) assms(2) show thesis
    by (rule CommitSparseWrite_ok) (rule that [OF k], simp_all add: st')
qed

lemma write_event_ok:
  assumes "window_ok off (length data)"
  shows "write_ok (write_event rel off data eof mode sparse uid gid)"
    and "uint (word_of_nat (length data) :: u64) = int (length data)"
proof -
  have "int (length data) < 2 ^ 63" using assms by (simp add: window_ok_def)
  then show "uint (word_of_nat (length data) :: u64) = int (length data)" by (intro uint_word_of_nat) simp
  with assms show "write_ok (write_event rel off data eof mode sparse uid gid)"
    by (simp add: write_ok_def window_ok_def)
qed

lemma HandleWrite_view:
  assumes wf: "upper_wf (s_upper (ms_Session st))" "size_free (s_upper (ms_Session st))"
    and sq: "seq_ok (ms_Session st)" and win: "window_ok off (length data)"
    and res: "mnt_resolve m st rel = Inr e" "present e"
    and wr: "HandleWrite m now rel data off st = (Inr k, st')"
  shows "k = word_of_nat (length data) \<and>
    (\<exists>e'. mnt_resolve m st' rel = Inr e' \<and> e_kind e' = S_IFREG \<and>
       sint (e_size e') = max (sint (e_size e)) (sint off + int (length data)) \<and>
       (\<forall>i. 0 \<le> i \<and> i < sint (e_size e') \<longrightarrow> file_src (s_upper (ms_Session st')) e' rel i =
          (if sint off \<le> i \<and> i < sint off + int (length data) then FromBlob (sha256_hex data) (i - sint off)
           else file_src (s_upper (ms_Session st)) e rel i))) \<and>
    (\<forall>q. q \<noteq> rel \<longrightarrow>
       fmlookup (nodes (s_upper (ms_Session st'))) q = fmlookup (nodes (s_upper (ms_Session st))) q)"
proof -
  let ?u = "s_upper (ms_Session st)" and ?u' = "s_upper (ms_Session st')"
  let ?eof = "e_size e \<le>s off + word_of_nat (length data)"
  obtain ev mode uid gid where k: "k = word_of_nat (length data)"
    and op: "Op ev = Some (Write (write_event rel off data ?eof mode (e_upper e = None \<and> present e) uid gid))"
    and ap: "Apply ?u ev = Inr ?u'"
    using HandleWrite_ok [OF wr sq res(1)] by metis
  let ?w = "write_event rel off data ?eof mode (e_upper e = None \<and> present e) uid gid"
  note ok = write_event_ok [OF win]
  have eof: "?eof \<longleftrightarrow> sint (e_size e) \<le> sint off + int (length data)"
    by (simp add: word_sle_eq window_end [OF win])
  have "\<forall>q. q \<noteq> rel \<longrightarrow> fmlookup (nodes ?u') q = fmlookup (nodes ?u) q"
    by (rule Apply_write_node [OF wf(1) op ap]) simp
  moreover note Apply_write_view [OF wf op ok(1) ap, of "m_lower m" e, unfolded write_event_fields ok(2)
    unsigned_0 add_0]
  ultimately show ?thesis using k res eof unfolding mnt_resolve_def by blast
qed

text \<open>
  C5. A write through a file handle is \<^verbatim>\<open>pwrite\<close> on the mounted file. After an acknowledged write to an existing
  file, in any reachable overlay, the file is a regular file whose size is the old size or the end of the
  write, whichever is larger; the written range comes from the new blob, byte by byte, and every other
  position keeps its source (an older blob, the lower file, or a hole). This holds for the first write to
  a lower file, which turns it into a sparse overlay file, as for later ones. No other path's node changes.
\<close>

theorem handle_write_is_pwrite:
  assumes "reachable (s_upper (ms_Session st))" and "seq_ok (ms_Session st)" and "window_ok off (length data)"
    and "mnt_resolve m st rel = Inr e" and "present e"
    and "HandleWrite m now rel data off st = (Inr k, st')"
  shows "k = word_of_nat (length data) \<and>
    (\<exists>e'. mnt_resolve m st' rel = Inr e' \<and> e_kind e' = S_IFREG \<and>
       sint (e_size e') = max (sint (e_size e)) (sint off + int (length data)) \<and>
       (\<forall>i. 0 \<le> i \<and> i < sint (e_size e') \<longrightarrow> file_src (s_upper (ms_Session st')) e' rel i =
          (if sint off \<le> i \<and> i < sint off + int (length data) then FromBlob (sha256_hex data) (i - sint off)
           else file_src (s_upper (ms_Session st)) e rel i))) \<and>
    (\<forall>q. q \<noteq> rel \<longrightarrow>
       fmlookup (nodes (s_upper (ms_Session st'))) q = fmlookup (nodes (s_upper (ms_Session st))) q)"
  using HandleWrite_view [OF reachable_wf [OF assms(1)] reachable_size_free [OF assms(1)] assms(2-6)] .

lemma sample_seq_ok: "seq_ok sample_session"
  by code_simp

lemma sample_write_ok: "\<exists>k st'. HandleWrite sample_mounter 0 ''x'' ''!'' 3 sample_mount = (Inr k, st')"
proof -
  let ?ev = "\<lambda>w. NewEnvelope 0 ''s1'' ''low'' (Write w)"
  have n: "norm_path ''x''" "norm_errors [''x''] = None" by code_simp+
  have c: "\<exists>ck s' l'. commitOp sample_log 0 (Write w) sample_session [] = (None, ck, s', l')"
    if "wr_Path w = ''x''" for w
  proof -
    have ck: "Check New ((?ev w)\<lparr>Seq := q\<rparr>) = None" for q using n that
      by (simp add: Check_def checkLocked_def NewEnvelope_def check_write_None New_def)
    have "seqLast New = 0" by (simp add: New_def)
    then have "\<exists>u. Apply New ((?ev w)\<lparr>Seq := 1\<rparr>) = Inr u" using ck [of 1]
      unfolding Apply_outcome by (simp del: Check_Seq)
    moreover have "Check New (?ev w) = None" using ck [of 0] by simp
    ultimately show ?thesis using n that
      by (auto simp: commitOp_def commit_def commitLocked_def validateEventPaths_def sample_session_def sample_meta_def
          refuseIfFenced_def sample_log_def Let_def NewEnvelope_def)
  qed
  have put: "\<exists>s1. bp_Put (s3_blobs sample_blobs) sample_fake d = (Inr (sha256_hex d), s1)" for d
    by (simp add: s3_blobs_def BlobPut_outcome sample_blobs_def fake_store_def fake_put_def sample_fake_def)
  have pre: "preflightWrite sample_session ''x'' = None" by code_simp
  have "fst (CommitSparseWrite sample_log (s3_blobs sample_blobs) 0 ''x'' off d eof mode uid gid sparse
      sample_session [] sample_fake) = None" for off d eof mode uid gid sparse
    using put [of d] pre c [of "write_event ''x'' off d eof mode sparse uid gid"]
    by (auto simp: CommitSparseWrite_def write_event_def)
  moreover have "\<not> isl (mnt_resolve sample_mounter sample_mount ''x'')" by code_simp
  ultimately show ?thesis
    by (cases "mnt_resolve sample_mounter sample_mount ''x''")
      (simp_all add: HandleWrite_def sample_mounter_def sample_mount_def Let_def case_prod_beta commitErrno_def)
qed

theorem handle_write_is_pwrite_witness:
  "\<exists>st' e'. mnt_resolve sample_mounter st' ''x'' = Inr e' \<and> sint (e_size e') = 5 \<and>
     file_src (s_upper (ms_Session st')) e' ''x'' 3 = FromBlob (sha256_hex ''!'') 0 \<and>
     file_src (s_upper (ms_Session st')) e' ''x'' 4 = FromLower ''x'' 4"
proof -
  obtain k st' where wr: "HandleWrite sample_mounter 0 ''x'' ''!'' 3 sample_mount = (Inr k, st')"
    using sample_write_ok by blast
  have st: "s_upper (ms_Session sample_mount) = New" by (simp add: sample_mount_def sample_session_def)
  have ok: "reachable (s_upper (ms_Session sample_mount))" "seq_ok (ms_Session sample_mount)"
    "window_ok 3 (length ''!'')"
    using sample_seq_ok by (simp_all add: st reachable.start window_ok_def) (simp add: sample_mount_def)
  have "case mnt_resolve sample_mounter sample_mount ''x'' of
      Inr e \<Rightarrow> sint (e_size e) = 5 \<and> e_upper e = None \<and> present e | Inl _ \<Rightarrow> False" by code_simp
  then obtain e where e: "mnt_resolve sample_mounter sample_mount ''x'' = Inr e" "sint (e_size e) = 5"
    "e_upper e = None" "present e" by (auto split: sum.splits)
  have lp: "lowerPath New ''x'' = ''x''" by code_simp
  obtain e' where e': "mnt_resolve sample_mounter st' ''x'' = Inr e'" "sint (e_size e') = 5"
    "\<And>i. 0 \<le> i \<Longrightarrow> i < 5 \<Longrightarrow> file_src (s_upper (ms_Session st')) e' ''x'' i =
       (if 3 \<le> i \<and> i < 4 then FromBlob (sha256_hex ''!'') (i - 3) else file_src New e ''x'' i)"
    using handle_write_is_pwrite [OF ok e(1,4) wr] e(2) st by auto
  have "file_src New e ''x'' 4 = FromLower ''x'' 4" using e lp by (simp add: file_src_def)
  then show ?thesis using e' by (intro exI [of _ st'] exI [of _ e']) simp
qed

section \<open>Reading back\<close>

lemma BlobGet_put:
  assumes "kv_store (bs_client b) content healthy" and "healthy s"
    and "BlobPut b data s = (Inr (sha256_hex data), s1)" and "fst (BlobGet b (sha256_hex data) s1) = Inr d"
  shows "d = data"
proof -
  have p: "st_Put (bs_client b) s (blob_path b (sha256_hex data)) (Raw data) = (None, s1)"
    using assms(3) by (auto simp: BlobPut_outcome split: prod.splits option.splits)
  note c = kv_store.put_ok [OF assms(1,2) p]
  obtain g s2 where g: "GetBytes (bs_client b) s1 (blob_path b (sha256_hex data)) = (g, s2)" by fastforce
  have key: "blob_key b (sha256_hex data) = Inr (blob_path b (sha256_hex data))" by (simp add: sha256_hex_def)
  have "g = Inr (Raw d)" using assms(4) g by (auto simp: BlobGet_def key split: sum.splits body.splits if_splits)
  then have "content s1 (blob_path b (sha256_hex data)) = Some (Raw d)"
    using kv_store.GetBytes_Inr(1) [OF assms(1) conjunct1 [OF c]] g by blast
  then show ?thesis using c by simp
qed

text \<open>The extents of a freshly written range all belong to the new blob, and lie inside it.\<close>

lemma written_extent:
  assumes "write_ok w" and "exts_wf (n_Extents n)" and "wr_BlobOffset w = 0" and "0 < uint (wr_Length w)"
    and own: "\<forall>y\<in>set (n_Extents n). BlobID y = wr_BlobId w \<longrightarrow> uint (BlobOffset y) + uint (Length y) \<le> uint (wr_Length w)"
    and x: "x \<in> set (n_Extents (write_size w (write_extents w n)))"
    and meet: "ext_start x < wr_stop w" "sint (wr_Offset w) < ext_stop x"
  shows "BlobID x = wr_BlobId w" and "uint (BlobOffset x) + uint (Length x) \<le> uint (wr_Length w)"
proof -
  note src = write_node_src [OF assms(1,2)]
  have ok: "ext_ok x" using src(1) x by (simp add: exts_wf_def)
  have at: "covers x i \<Longrightarrow> spec_write w (src_at (n_Extents n)) i = Some (ext_src x i)" for i
    using src_at_iff [OF src(1)] x src(2) by metis
  let ?i = "max (sint (wr_Offset w)) (ext_start x)"
  have "covers x ?i" "sint (wr_Offset w) \<le> ?i" "?i < wr_stop w"
    using meet ext_okD(2) [OF ok] assms(4) by (auto simp: covers_def)
  with at [of ?i] show id: "BlobID x = wr_BlobId w" by (simp add: spec_write_def ext_src_def)
  let ?l = "ext_stop x - 1"
  have "covers x ?l" using ext_okD(2) [OF ok] by (simp add: covers_def)
  then have l: "spec_write w (src_at (n_Extents n)) ?l = Some (wr_BlobId w, uint (BlobOffset x) + uint (Length x) - 1)"
    using at [of ?l] id by (simp add: ext_src_def algebra_simps)
  show "uint (BlobOffset x) + uint (Length x) \<le> uint (wr_Length w)"
  proof (cases "sint (wr_Offset w) \<le> ?l \<and> ?l < wr_stop w")
    case True
    then show ?thesis using l assms(3) by (simp add: spec_write_def)
  next
    case False
    then have "src_at (n_Extents n) ?l = Some (wr_BlobId w, uint (BlobOffset x) + uint (Length x) - 1)"
      using l by (simp add: spec_write_def split: if_splits)
    then obtain y where "y \<in> set (n_Extents n)" "covers y ?l" "BlobID y = wr_BlobId w"
      "uint (BlobOffset x) + uint (Length x) - 1 = uint (BlobOffset y) + (?l - ext_start y)"
      unfolding src_at_iff [OF assms(2)] by (auto simp: ext_src_def)
    with own show ?thesis by (fastforce simp: covers_def)
  qed
qed

text \<open>
  The extents of the file that already refer to the blob lie inside it, as those of earlier writes of the
  same bytes do.
\<close>

definition blob_extents_inside :: "upper \<Rightarrow> path \<Rightarrow> bytes \<Rightarrow> bool" where
  "blob_extents_inside u rel data \<longleftrightarrow>
     (\<forall>n. fmlookup (nodes u) rel = Some n \<longrightarrow> (\<forall>y\<in>set (n_Extents n). BlobID y = sha256_hex data \<longrightarrow>
        uint (BlobOffset y) + uint (Length y) \<le> int (length data)))"

lemma HandleWrite_extents:
  assumes wf: "upper_wf (s_upper (ms_Session st))" and sq: "seq_ok (ms_Session st)"
    and win: "window_ok off (length data)" "data \<noteq> []"
    and own: "blob_extents_inside (s_upper (ms_Session st)) rel data"
    and res: "mnt_resolve m st rel = Inr e" and wr: "HandleWrite m now rel data off st = (Inr k, st')"
  shows "upper_wf (s_upper (ms_Session st'))"
    and "BlobPut (m_Blobs m) data (ms_store st) = (Inr (sha256_hex data), ms_store st')"
    and "\<exists>n. fmlookup (nodes (s_upper (ms_Session st'))) rel = Some n \<and> n_Kind n = KindFile \<and>
      (\<forall>x\<in>set (n_Extents n). ext_start x < sint off + int (length data) \<and> sint off < ext_stop x \<longrightarrow>
         BlobID x = sha256_hex data \<and> uint (BlobOffset x) + uint (Length x) \<le> int (length data))"
proof -
  let ?u = "s_upper (ms_Session st)" and ?u' = "s_upper (ms_Session st')"
  let ?eof = "e_size e \<le>s off + word_of_nat (length data)"
  obtain ev mode uid gid where
    op: "Op ev = Some (Write (write_event rel off data ?eof mode (e_upper e = None \<and> present e) uid gid))"
    and ap: "Apply ?u ev = Inr ?u'"
    and put: "BlobPut (m_Blobs m) data (ms_store st) = (Inr (sha256_hex data), ms_store st')"
    using HandleWrite_ok [OF wr sq res] by metis
  define w where "w = write_event rel off data ?eof mode (e_upper e = None \<and> present e) uid gid"
  note we = write_event_ok(1) [OF win(1), of rel ?eof mode "e_upper e = None \<and> present e" uid gid, folded w_def]
    write_event_ok(2) [OF win(1)]
  have w [simp]: "wr_Path w = rel" "wr_Offset w = off" "wr_Length w = word_of_nat (length data)"
    "wr_BlobId w = sha256_hex data" "wr_BlobOffset w = 0" by (simp_all add: w_def)
  from put show "BlobPut (m_Blobs m) data (ms_store st) = (Inr (sha256_hex data), ms_store st')" .
  show "upper_wf ?u'" using Apply_wf [OF wf _ ap] op we(1) by (simp add: in_range_def w_def)
  show "\<exists>n. fmlookup (nodes ?u') rel = Some n \<and> n_Kind n = KindFile \<and>
      (\<forall>x\<in>set (n_Extents n). ext_start x < sint off + int (length data) \<and> sint off < ext_stop x \<longrightarrow>
         BlobID x = sha256_hex data \<and> uint (BlobOffset x) + uint (Length x) \<le> int (length data))"
  proof (rule Apply_write_node [OF wf op [folded w_def] ap], unfold w)
    fix n
    assume n: "fmlookup (nodes ?u') rel = Some (write_size w (write_extents w n))" "node_ok n"
      "n_Kind n = KindFile" "\<forall>m. fmlookup (nodes ?u) rel = Some m \<longrightarrow> n = m"
      "fmlookup (nodes ?u) rel = None \<longrightarrow> n_Extents n = [] \<and> n_Fallthrough n = wr_Fallthrough w \<and>
        (wr_Fallthrough w \<longrightarrow> n_Size n = - 1 \<and> n_LowerRel n = rel)"
    have wfx: "exts_wf (n_Extents n)" using n(2) by (simp add: node_ok_def)
    have own': "\<forall>y\<in>set (n_Extents n). BlobID y = wr_BlobId w \<longrightarrow>
        uint (BlobOffset y) + uint (Length y) \<le> uint (wr_Length w)"
      using own n(4,5) we(2) by (cases "fmlookup (nodes ?u) rel") (auto simp: blob_extents_inside_def)
    have "0 < uint (wr_Length w)" using we(2) win(2) by simp
    note in_blob = written_extent [OF we(1) wfx w(5) this own']
    have "n_Kind (write_size w (write_extents w n)) = KindFile"
      using n(3) by (simp add: write_size_def write_extents_def Let_def)
    with n(1) in_blob we(2) show ?thesis by auto
  qed
qed

text \<open>
  C4. A read after a write returns what was written, end to end: overlay, change log, blob store and object
  store together. After an acknowledged write of up to 1 GiB to an existing file, reading the range returns
  exactly those bytes. The only other outcomes are errors: the lower tree cannot be read, or the object
  store fails to deliver the new blob (then \<^verbatim>\<open>EIO\<close>).
\<close>

theorem read_after_write:
  assumes low: "lower_files (m_lower m) contents"
    and kv: "kv_store (bs_client (m_Blobs m)) content healthy" "healthy (ms_store st)"
    and ok: "reachable (s_upper (ms_Session st))" "seq_ok (ms_Session st)"
    and win: "window_ok off (length data)" "data \<noteq> []" "length data \<le> 2 ^ 30"
    and own: "blob_extents_inside (s_upper (ms_Session st)) rel data"
    and res: "mnt_resolve m st rel = Inr e" "present e"
    and wr: "HandleWrite m now rel data off st = (Inr k, st')"
  shows "case HandleRead m st' rel (length data) off of
      Inr d \<Rightarrow> d = data
    | Inl err \<Rightarrow> lower_error (m_lower m) (s_upper (ms_Session st'))
        (fallthroughSrc rel (fmlookup (nodes (s_upper (ms_Session st'))) rel)) off err \<or>
        err = EIO \<and> isl (blob_get m st' (sha256_hex data))"
proof -
  let ?u' = "s_upper (ms_Session st')" and ?get = "blob_get m st'"
  note wf = reachable_wf [OF ok(1)] reachable_size_free [OF ok(1)]
  note ex = HandleWrite_extents [OF wf(1) ok(2) win(1,2) own res(1) wr]
  obtain e' where e': "mnt_resolve m st' rel = Inr e'"
    "sint (e_size e') = max (sint (e_size e)) (sint off + int (length data))"
    "\<And>i. 0 \<le> i \<Longrightarrow> i < sint (e_size e') \<Longrightarrow> sint off \<le> i \<Longrightarrow> i < sint off + int (length data) \<Longrightarrow>
       file_src ?u' e' rel i = FromBlob (sha256_hex data) (i - sint off)"
    using HandleWrite_view [OF wf ok(2) win(1) res wr] by auto
  have off: "0 \<le> sint off" and small: "length data < 2 ^ 63" using win(1) by (simp_all add: window_ok_def)
  have len: "read_len (length data) off (e_size e') = int (length data)" "0 \<le> sint (e_size e')"
    using e'(2) off by (auto simp: read_len_def)
  have get: "?get (sha256_hex data) = Inr d \<Longrightarrow> d = data" for d
    using BlobGet_put [OF kv ex(2)] by (simp add: blob_get_def)
  note out = HandleRead_outcome [OF low ex(1) e'(1) small, of off]
  show ?thesis
  proof (cases "HandleRead m st' rel (length data) off")
    case (Inl err)
    have up: "e_upper e' = fmlookup (nodes ?u') rel" using resolve_node e'(1) by (simp add: mnt_resolve_def)
    then obtain n where n: "e_upper e' = Some n" "n_Kind n = KindFile"
      "\<forall>x\<in>set (n_Extents n). ext_start x < sint off + int (length data) \<and> sint off < ext_stop x \<longrightarrow>
         BlobID x = sha256_hex data \<and> uint (BlobOffset x) + uint (Length x) \<le> int (length data)"
      using ex(3) by auto
    have "window_blobs_ok ?get (n_Extents n) off (length data)" if "\<not> isl (?get (sha256_hex data))"
      using that n(3) get by (auto simp: window_blobs_ok_def blob_ok_def isl_def split: sum.splits)
    then show ?thesis using out Inl n(1,2) len off win(3) up by (auto simp: read_failure_def)
  next
    case (Inr d)
    then have d: "length d = length data" "\<And>j. j < length data \<Longrightarrow> has_byte contents ?get
        (file_src ?u' e' rel (sint off + int j)) (d ! j)" using out len by auto
    have "d ! j = data ! j" if "j < length data" for j
      using d(2) [OF that] that e'(2) off get by (auto simp: e'(3))
    then show ?thesis using Inr d(1) by (auto intro: nth_equalityI)
  qed
qed

lemma nodes_New: "nodes New = fmempty"
  by (simp add: New_def)

lemma sample_write_effect:
  assumes "HandleWrite sample_mounter 0 ''x'' ''!'' 3 sample_mount = (Inr k, st')"
  defines "u \<equiv> s_upper (ms_Session st')"
  shows "lowerPath u (fallthroughSrc ''x'' (fmlookup (nodes u) ''x'')) = ''x''"
    and "BlobPut sample_blobs ''!'' sample_fake = (Inr (sha256_hex ''!''), ms_store st')"
proof -
  have st: "ms_Session sample_mount = sample_session" "s_upper sample_session = New"
    "m_Blobs sample_mounter = sample_blobs" "ms_store sample_mount = sample_fake"
    by (simp_all add: sample_mount_def sample_session_def sample_mounter_def)
  have "case mnt_resolve sample_mounter sample_mount ''x'' of
      Inr e \<Rightarrow> e_upper e = None \<and> present e | Inl _ \<Rightarrow> False" by code_simp
  then obtain e where e: "mnt_resolve sample_mounter sample_mount ''x'' = Inr e" "e_upper e = None \<and> present e"
    by (auto split: sum.splits)
  have sq: "seq_ok (ms_Session sample_mount)" using sample_seq_ok st by simp
  let ?eof = "e_size e \<le>s 3 + word_of_nat (length ''!'')" and ?sp = "e_upper e = None \<and> present e"
  obtain ev mode uid gid where k: "k = word_of_nat (length ''!'')"
    and op: "Op ev = Some (Write (write_event ''x'' 3 ''!'' ?eof mode ?sp uid gid))"
    and ap: "Apply (s_upper (ms_Session sample_mount)) ev = Inr (s_upper (ms_Session st'))"
    and put: "BlobPut (m_Blobs sample_mounter) ''!'' (ms_store sample_mount) = (Inr (sha256_hex ''!''), ms_store st')"
    by (rule HandleWrite_ok [OF assms(1) sq e(1)]) (rule that)
  show "lowerPath u (fallthroughSrc ''x'' (fmlookup (nodes u) ''x'')) = ''x''"
  proof (rule Apply_write_node [OF upper_wf_New op ap [unfolded st, folded u_def]], unfold write_event_fields)
    fix n
    let ?w = "write_event ''x'' 3 ''!'' ?eof mode ?sp uid gid"
    assume "fmlookup (nodes u) ''x'' = Some (write_size ?w (write_extents ?w n))" "redirects u = redirects New"
      "fmlookup (nodes New) ''x'' = None \<longrightarrow> n_Extents n = [] \<and> n_Fallthrough n = ?sp \<and>
        (?sp \<longrightarrow> n_Size n = - 1 \<and> n_LowerRel n = ''x'')"
    moreover have "lowerPath New ''x'' = ''x''" "fmlookup (nodes New) ''x'' = None" by code_simp+
    ultimately show ?thesis using e(2)
      by (simp add: fallthroughSrc_def write_size_def write_extents_def Let_def lower_cong(1) [of u New])
  qed
  from put show "BlobPut sample_blobs ''!'' sample_fake = (Inr (sha256_hex ''!''), ms_store st')" unfolding st .
qed

theorem read_after_write_witness:
  "\<exists>k st'. HandleWrite sample_mounter 0 ''x'' ''!'' 3 sample_mount = (Inr k, st') \<and>
     HandleRead sample_mounter st' ''x'' 1 3 = Inr ''!''"
proof -
  obtain k st' where wr: "HandleWrite sample_mounter 0 ''x'' ''!'' 3 sample_mount = (Inr k, st')"
    using sample_write_ok by blast
  note eff = sample_write_effect [OF wr]
  have st: "s_upper sample_session = New" "ms_Session sample_mount = sample_session"
    by (simp_all add: sample_mount_def sample_session_def)
  have low: "lower_files (m_lower sample_mounter) (tree_contents sample_tree)"
    using trf.lower_files_axioms by (simp add: sample_mounter_def)
  have kv: "kv_store (bs_client (m_Blobs sample_mounter)) (\<lambda>s. fmlookup (fk_objects s)) (\<lambda>s. fk_corrupt s = fmempty)"
    using fk.kv_store_axioms by (simp add: sample_mounter_def sample_blobs_def)
  have ok: "fk_corrupt (ms_store sample_mount) = fmempty" "reachable (s_upper (ms_Session sample_mount))"
    "seq_ok (ms_Session sample_mount)" "window_ok 3 (length ''!'')"
    "blob_extents_inside (s_upper (ms_Session sample_mount)) ''x'' ''!''"
    using sample_seq_ok by (simp_all add: st reachable.start window_ok_def blob_extents_inside_def nodes_New)
      (simp add: sample_mount_def sample_fake_def)
  have "case mnt_resolve sample_mounter sample_mount ''x'' of Inr e \<Rightarrow> present e | Inl _ \<Rightarrow> False" by code_simp
  then obtain e where e: "mnt_resolve sample_mounter sample_mount ''x'' = Inr e" "present e"
    by (auto split: sum.splits)
  have "os_open (tree_os sample_tree) ''x'' = None" by code_simp
  moreover have "ltree_at sample_tree ''x'' = Inr (LFile (sample_stat 33188 5) ''hello'')" by code_simp
  ultimately have nolow: "\<not> lower_error (tree_os sample_tree) u p 3 err" if "lowerPath u p = ''x''" for u p err
    using that by (simp add: lower_error_def tree_os_def)
  have store: "ms_store st' = sample_fake\<lparr>fk_objects := fmupd (blob_path sample_blobs (sha256_hex ''!'')) (Raw ''!'') fmempty\<rparr>"
    using eff(2) by (simp add: BlobPut_outcome sample_blobs_def fake_store_def fake_put_def sample_fake_def)
  have "fst (GetBytes fake_store (ms_store st') (blob_path sample_blobs (sha256_hex ''!''))) = Inr (Raw ''!'')"
    by (simp add: store GetBytes_def s3_maxAttempts_def numeral_eq_Suc fake_store_def fake_get_def sample_fake_def
        sleepBackoff_def)
  then have "\<not> isl (blob_get sample_mounter st' (sha256_hex ''!''))"
    using blob_key_sha256 [of sample_blobs "''!''"]
    by (auto simp: blob_get_def sample_mounter_def BlobGet_def sha256_hex_def sample_blobs_def split: prod.splits)
  with read_after_write [OF low kv ok(1-4) _ _ ok(5) e wr] nolow [OF eff(1)] wr show ?thesis
    by (auto simp: sample_mounter_def split: sum.splits)
qed

end
