(* ===== verification/Nodes_Props.thy ===== *)
theory Nodes_Props
  imports Nodes Handles_Write
begin

text \<open>
  What the request handlers guarantee: a handler that fails leaves the tree as it was, a new entry is
  visible at once to lookups and listings, attribute changes are reported back, and no directory with
  visible entries is ever removed or replaced.
\<close>

section \<open>Commits\<close>

lemma mnt_commit_ok:
  assumes "mnt_commit (commitOp elog now op) st = (None, st')" and "seq_ok (ms_Session st)"
  obtains ev where "Op ev = Some op" and "Apply (s_upper (ms_Session st)) ev = Inr (s_upper (ms_Session st'))"
    and "ms_store st' = ms_store st"
proof -
  let ?ev = "NewEnvelope now (sm_ID (Meta (ms_Session st))) (s_lowerID (ms_Session st)) op"
  obtain err ck s' l' where c: "commit elog ?ev (ms_Session st) (ms_log st) = (err, ck, s', l')"
    by (metis prod_cases4)
  then have e: "err = None" and st': "st' = st\<lparr>ms_Session := s', ms_log := l'\<rparr>"
    using assms(1) by (simp_all add: mnt_commit_def commitOp_def)
  from c assms(2) have "Apply (s_upper (ms_Session st)) (?ev\<lparr>Seq := s_seq (ms_Session st) + 1\<rparr>) = Inr (s_upper s')"
    by (cases rule: commit_cases) (use e in auto)
  then show thesis using that [of "?ev\<lparr>Seq := s_seq (ms_Session st) + 1\<rparr>"] st' by (simp add: NewEnvelope_def)
qed

lemma mnt_commit_failed:
  assumes "mnt_commit (commitOp elog now op) st = (Some errno, st')" and "seq_ok (ms_Session st)"
  shows "s_upper (ms_Session st') = s_upper (ms_Session st) \<and> ms_store st' = ms_store st"
proof -
  let ?ev = "NewEnvelope now (sm_ID (Meta (ms_Session st))) (s_lowerID (ms_Session st)) op"
  obtain err ck s' l' where c: "commit elog ?ev (ms_Session st) (ms_log st) = (err, ck, s', l')"
    by (metis prod_cases4)
  then have e: "err \<noteq> None" and st': "st' = st\<lparr>ms_Session := s', ms_log := l'\<rparr>"
    using assms(1) by (auto simp: mnt_commit_def commitOp_def commitErrno_def split: option.splits)
  from c assms(2) have "s_upper s' = s_upper (ms_Session st)"
    by (cases rule: commit_cases) (use e in auto)
  then show ?thesis using st' by simp
qed

lemmas commit_ops = CommitCreate_def CommitUnlink_def CommitMkdir_def CommitRmdir_def CommitSymlink_def
  CommitSetattr_def CommitRename_def

text \<open>The node a creating event leaves at its path.\<close>

lemma Apply_new_node:
  assumes "Apply u ev = Inr u'"
  shows "Op ev = Some (Create c) \<Longrightarrow> fmlookup (nodes u') (cr_Path c) = Some (zero_node\<lparr>n_Kind := KindFile,
      n_Mode := cr_Mode c, n_UID := cr_Uid c, n_GID := cr_Gid c, n_Size := 0\<rparr>)"
    and "Op ev = Some (Mkdir d) \<Longrightarrow> fmlookup (nodes u') (mk_Path d) = Some (zero_node\<lparr>n_Kind := KindDir,
      n_Mode := mk_Mode d, n_UID := mk_Uid d, n_GID := mk_Gid d\<rparr>)"
    and "Op ev = Some (Symlink s) \<Longrightarrow> fmlookup (nodes u') (sy_Path s) = Some (zero_node\<lparr>n_Kind := KindSymlink,
      n_Mode := 511, n_Target := sy_Target s, n_UID := sy_Uid s, n_GID := sy_Gid s\<rparr>)"
proof -
  obtain v where v: "Check u ev = None"
    "apply_op (Op ev) (if LowerId ev \<noteq> [] then u\<lparr>lowerID := LowerId ev\<rparr> else u) = Inr v" "u' = v\<lparr>seqLast := Seq ev\<rparr>"
    using Apply_Inr [OF assms] by metis
  have paths: "\<forall>p\<in>set (op_paths op). norm_path p" if "Op ev = Some op" for op
    using v(1) that checkLocked_paths [of u ev] by (auto simp: Check_def)
  show "Op ev = Some (Create c) \<Longrightarrow> fmlookup (nodes u') (cr_Path c) = Some (zero_node\<lparr>n_Kind := KindFile,
      n_Mode := cr_Mode c, n_UID := cr_Uid c, n_GID := cr_Gid c, n_Size := 0\<rparr>)"
    and "Op ev = Some (Mkdir d) \<Longrightarrow> fmlookup (nodes u') (mk_Path d) = Some (zero_node\<lparr>n_Kind := KindDir,
      n_Mode := mk_Mode d, n_UID := mk_Uid d, n_GID := mk_Gid d\<rparr>)"
    and "Op ev = Some (Symlink s) \<Longrightarrow> fmlookup (nodes u') (sy_Path s) = Some (zero_node\<lparr>n_Kind := KindSymlink,
      n_Mode := 511, n_Target := sy_Target s, n_UID := sy_Uid s, n_GID := sy_Gid s\<rparr>)"
    using v paths by (auto simp: apply_op_def with_path_def mustNormalize_iff put_node_def)
qed

section \<open>New entries\<close>

text \<open>A node is listed by its directory and, unless the lower tree cannot be inspected, resolved.\<close>

lemma node_listed:
  assumes "fmlookup (nodes u) (join dir name) = Some n" and "name \<noteq> []" and "slash \<notin> set name"
    and "mergedEntries os u dir = Inr es"
  shows "name \<in> d_Name ` set es"
proof -
  obtain names where "es = merge_names names (Redirected u dir) (fst (Children u dir)) (snd (Children u dir))"
    using assms(4) by (auto simp: mergedEntries_def split: sum.splits prod.splits)
  then show ?thesis using assms(1-3) by (simp add: merge_names_set Children_nodes fmlookup_dom'_iff)
qed

definition stat_failure :: "lower_os \<Rightarrow> upper \<Rightarrow> path \<Rightarrow> errno \<Rightarrow> bool" where
  "stat_failure os u rel err \<longleftrightarrow> statLower os u rel = Inl err \<and> \<not> isAbsent err"

lemma resolve_new:
  assumes "fmlookup (nodes u) p = Some n" and "node_ok n" and "\<not> n_Fallthrough n"
  shows "(\<exists>err. resolve os u p = Inl err \<and> stat_failure os u p err) \<or>
    (\<exists>e. resolve os u p = Inr e \<and> present e \<and> e_upper e = Some n \<and> e_kind e = kind_mode (n_Kind n) \<and>
       e_attr e = upperAttr (kind_mode (n_Kind n)) n
         (case n_Kind n of KindFile \<Rightarrow> n_Size n | KindSymlink \<Rightarrow> word_of_nat (length (n_Target n)) | _ \<Rightarrow> 0))"
proof (cases "\<exists>err. stat_failure os u p err")
  case True
  then show ?thesis using assms(1) by (auto simp: resolve_def Lookup_def stat_failure_def)
next
  case False
  then obtain low where "(case statLower os u p of Inr st \<Rightarrow> Inr (Some st)
      | Inl err \<Rightarrow> if isAbsent err then Inr None else Inl err) = Inr low"
    by (cases "statLower os u p") (auto simp: stat_failure_def)
  moreover have "n_Kind n = KindFile \<Longrightarrow> sizeOfNode os u p (Some n) = Inr (n_Size n)"
    using assms(2,3) by (simp add: sizeOfNode_def node_ok_def sizes_ok_def word_sle_eq)
  ultimately show ?thesis using assms(1,2)
    by (cases "n_Kind n") (auto simp: resolve_def Lookup_def resolve_upper_def present_def Let_def S_IF_nonzero
        kind_mode_def node_ok_def)
qed

definition entry_visible :: "('l, 's) mounter \<Rightarrow> ('l, 's) mount_state \<Rightarrow> path \<Rightarrow> string \<Rightarrow> inode \<times> entry_out \<Rightarrow> bool" where
  "entry_visible m st dir name reply \<longleftrightarrow>
     (case DirLookup m st dir name of
        Inr found \<Rightarrow> found = reply
      | Inl err \<Rightarrow> stat_failure (m_lower m) (s_upper (ms_Session st)) (join dir name) err) \<and>
     (\<forall>es. Readdir m st dir = Inr es \<longrightarrow> name \<in> d_Name ` set es)"

lemma S_IF_distinct: "S_IFREG \<noteq> S_IFDIR" "S_IFLNK \<noteq> S_IFDIR" "S_IFLNK \<noteq> S_IFREG"
  by (simp_all add: S_IFDIR_def S_IFREG_def S_IFLNK_def)

lemma node_visible:
  assumes "fmlookup (nodes (s_upper (ms_Session st))) (join dir name) = Some n" and "node_ok n"
    and "\<not> n_Fallthrough n" and "name \<noteq> []" and "slash \<notin> set name"
    and "nd = (case n_Kind n of KindDir \<Rightarrow> DirNode | KindFile \<Rightarrow> FileNode (Some n) | _ \<Rightarrow> SymlinkNode (Some n))"
    and "a = upperAttr (kind_mode (n_Kind n)) n
         (case n_Kind n of KindFile \<Rightarrow> n_Size n | KindSymlink \<Rightarrow> word_of_nat (length (n_Target n)) | _ \<Rightarrow> 0)"
  shows "entry_visible m st dir name (addChild (join dir name) nd a)"
proof -
  let ?u = "s_upper (ms_Session st)" and ?p = "join dir name"
  have "name \<in> d_Name ` set es" if "Readdir m st dir = Inr es" for es
    using that node_listed [OF assms(1,4,5)] by (auto simp: Readdir_def split: sum.splits)
  moreover have "case DirLookup m st dir name of Inr found \<Rightarrow> found = addChild ?p nd a
      | Inl err \<Rightarrow> stat_failure (m_lower m) ?u ?p err"
    using resolve_new [OF assms(1-3), of "m_lower m"]
  proof (elim disjE exE conjE)
    fix err
    assume "resolve (m_lower m) ?u ?p = Inl err" "stat_failure (m_lower m) ?u ?p err"
    then show ?thesis by (simp add: DirLookup_def mnt_resolve_def Let_def)
  next
    fix e
    assume e: "resolve (m_lower m) ?u ?p = Inr e" "present e" "e_upper e = Some n"
      "e_kind e = kind_mode (n_Kind n)" "e_attr e = upperAttr (kind_mode (n_Kind n)) n
         (case n_Kind n of KindFile \<Rightarrow> n_Size n | KindSymlink \<Rightarrow> word_of_nat (length (n_Target n)) | _ \<Rightarrow> 0)"
    have "\<forall>k. n_Kind n \<noteq> KindOther k" using assms(2) by (simp add: node_ok_def)
    then show ?thesis using e assms(6,7)
      by (cases "n_Kind n") (auto simp: DirLookup_def mnt_resolve_def Let_def isDir_def kind_mode_def S_IF_distinct)
  qed
  ultimately show ?thesis by (simp add: entry_visible_def)
qed

lemma upperAttr_new:
  "n_AtimeNs n = 0 \<Longrightarrow> n_MtimeNs n = 0 \<Longrightarrow>
     upperAttr typ n sz = zero_attr\<lparr>a_Mode := typ OR (n_Mode n AND 4095), a_Size := sz, a_Uid := n_UID n, a_Gid := n_GID n\<rparr>"
  by (simp add: upperAttr_def nsecToFuse_def zero_attr_def)

lemma new_node_ok:
  "node_ok (zero_node\<lparr>n_Kind := KindFile, n_Mode := md, n_UID := uid, n_GID := gid, n_Size := 0\<rparr>)"
  "node_ok (zero_node\<lparr>n_Kind := KindDir, n_Mode := md, n_UID := uid, n_GID := gid\<rparr>)"
  "node_ok (zero_node\<lparr>n_Kind := KindSymlink, n_Mode := md, n_Target := t, n_UID := uid, n_GID := gid\<rparr>)"
  by (simp_all add: node_ok_def sizes_ok_def zero_node_def)

lemma DirCreate_visible:
  assumes "DirCreate m now dir name mode uid gid st = (Inr (reply, h), st')" and "seq_ok (ms_Session st)"
    and "name \<noteq> []" and "slash \<notin> set name"
  shows "entry_visible m st' dir name reply" and "h = OverlayHandle (join dir name)"
proof -
  let ?p = "join dir name"
  let ?n = "zero_node\<lparr>n_Kind := KindFile, n_Mode := mode AND 4095, n_UID := uid, n_GID := gid, n_Size := 0\<rparr>"
  let ?a = "zero_attr\<lparr>a_Mode := S_IFREG OR (mode AND 4095), a_Size := 0, a_Uid := uid, a_Gid := gid\<rparr>"
  have c: "mnt_commit (CommitCreate (m_log m) now ?p (mode AND 4095) uid gid) st = (None, st')"
    and r: "reply = addChild ?p (FileNode (Lookup (s_upper (ms_Session st')) ?p)) ?a"
    and "h = OverlayHandle ?p"
    using assms(1) by (auto simp: DirCreate_def Let_def split: option.splits prod.splits)
  from this(3) show "h = OverlayHandle (join dir name)" .
  obtain ev where ev: "Op ev = Some (Create \<lparr>cr_Path = ?p, cr_Mode = mode AND 4095, cr_Uid = uid, cr_Gid = gid\<rparr>)"
    "Apply (s_upper (ms_Session st)) ev = Inr (s_upper (ms_Session st'))"
    using mnt_commit_ok [OF c [unfolded commit_ops] assms(2)] by metis
  have look: "fmlookup (nodes (s_upper (ms_Session st'))) ?p = Some ?n" using Apply_new_node(1) [OF ev(2,1)] by simp
  then have "Lookup (s_upper (ms_Session st')) ?p = Some ?n" by (simp add: Lookup_def)
  then show "entry_visible m st' dir name reply" unfolding r
    by (intro node_visible [OF look new_node_ok(1) _ assms(3,4)])
      (simp_all add: upperAttr_new zero_node_def kind_mode_def and.assoc)
qed

lemma DirMkdir_visible:
  assumes "DirMkdir m now dir name mode uid gid st = (Inr reply, st')" and "seq_ok (ms_Session st)"
    and "name \<noteq> []" and "slash \<notin> set name"
  shows "entry_visible m st' dir name reply"
proof -
  let ?p = "join dir name"
  let ?n = "zero_node\<lparr>n_Kind := KindDir, n_Mode := mode AND 4095, n_UID := uid, n_GID := gid\<rparr>"
  let ?a = "zero_attr\<lparr>a_Mode := S_IFDIR OR (mode AND 4095), a_Uid := uid, a_Gid := gid\<rparr>"
  have c: "mnt_commit (CommitMkdir (m_log m) now ?p (mode AND 4095) uid gid) st = (None, st')"
    and r: "reply = addChild ?p DirNode ?a"
    using assms(1) by (auto simp: DirMkdir_def Let_def split: option.splits prod.splits)
  obtain ev where ev: "Op ev = Some (Mkdir \<lparr>mk_Path = ?p, mk_Mode = mode AND 4095, mk_Uid = uid, mk_Gid = gid\<rparr>)"
    "Apply (s_upper (ms_Session st)) ev = Inr (s_upper (ms_Session st'))"
    using mnt_commit_ok [OF c [unfolded commit_ops] assms(2)] by metis
  have look: "fmlookup (nodes (s_upper (ms_Session st'))) ?p = Some ?n" using Apply_new_node(2) [OF ev(2,1)] by simp
  show ?thesis unfolding r
    by (intro node_visible [OF look new_node_ok(2) _ assms(3,4)])
      (simp_all add: upperAttr_new zero_node_def zero_attr_def kind_mode_def and.assoc)
qed

lemma DirSymlink_visible:
  assumes "DirSymlink m now dir target name uid gid st = (Inr reply, st')" and "seq_ok (ms_Session st)"
    and "name \<noteq> []" and "slash \<notin> set name"
  shows "entry_visible m st' dir name reply"
    and "symlink_Readlink st' (join dir name) snap = Inr target"
proof -
  let ?p = "join dir name"
  let ?n = "zero_node\<lparr>n_Kind := KindSymlink, n_Mode := 511, n_Target := target, n_UID := uid, n_GID := gid\<rparr>"
  let ?a = "zero_attr\<lparr>a_Mode := S_IFLNK OR 511, a_Size := word_of_nat (length target), a_Uid := uid, a_Gid := gid\<rparr>"
  have c: "mnt_commit (CommitSymlink (m_log m) now ?p target uid gid) st = (None, st')"
    and r: "reply = addChild ?p (SymlinkNode (Lookup (s_upper (ms_Session st')) ?p)) ?a"
    using assms(1) by (auto simp: DirSymlink_def Let_def split: option.splits prod.splits)
  obtain ev where ev: "Op ev = Some (Symlink \<lparr>sy_Path = ?p, sy_Target = target, sy_Uid = uid, sy_Gid = gid\<rparr>)"
    "Apply (s_upper (ms_Session st)) ev = Inr (s_upper (ms_Session st'))"
    using mnt_commit_ok [OF c [unfolded commit_ops] assms(2)] by metis
  have look: "fmlookup (nodes (s_upper (ms_Session st'))) ?p = Some ?n" using Apply_new_node(3) [OF ev(2,1)] by simp
  then have l: "Lookup (s_upper (ms_Session st')) ?p = Some ?n" by (simp add: Lookup_def)
  then show "symlink_Readlink st' ?p snap = Inr target" by (simp add: symlink_Readlink_def)
  from l show "entry_visible m st' dir name reply" unfolding r
    by (intro node_visible [OF look new_node_ok(3) _ assms(3,4)])
      (simp_all add: upperAttr_new zero_node_def kind_mode_def)
qed

lemma unchanged_on_failure:
  assumes "seq_ok (ms_Session st)"
  shows "DirCreate m now dir name mode uid gid st = (Inl err, st') \<Longrightarrow> s_upper (ms_Session st') = s_upper (ms_Session st)"
    and "DirMkdir m now dir name mode uid gid st = (Inl err, st') \<Longrightarrow> s_upper (ms_Session st') = s_upper (ms_Session st)"
    and "DirSymlink m now dir target name uid gid st = (Inl err, st') \<Longrightarrow> s_upper (ms_Session st') = s_upper (ms_Session st)"
  using mnt_commit_failed [OF _ assms]
  by (auto simp: DirCreate_def DirMkdir_def DirSymlink_def commit_ops Let_def split: option.splits prod.splits)

text \<open>
  C14. A new entry is visible at once and exactly as reported. When create, mkdir or symlink succeeds, a
  lookup of the name gives back the same inode number, node and attributes as the reply did, the
  directory's listing contains the name, and a symlink reads back its target; the only other outcome of
  the lookup is the error of a lower tree that cannot be inspected. When one of them fails, for whatever
  reason, the overlay is unchanged. Create reports an existing name, in whichever layer, as \<^verbatim>\<open>EEXIST\<close>.
\<close>

theorem new_entry_visible:
  assumes "seq_ok (ms_Session st)" and "name \<noteq> []" and "slash \<notin> set name"
  shows "(case DirCreate m now dir name mode uid gid st of
       (Inr (reply, h), st') \<Rightarrow> entry_visible m st' dir name reply \<and> h = OverlayHandle (join dir name)
     | (Inl err, st') \<Rightarrow> s_upper (ms_Session st') = s_upper (ms_Session st)) \<and>
   (case DirMkdir m now dir name mode uid gid st of
       (Inr reply, st') \<Rightarrow> entry_visible m st' dir name reply
     | (Inl err, st') \<Rightarrow> s_upper (ms_Session st') = s_upper (ms_Session st)) \<and>
   (case DirSymlink m now dir target name uid gid st of
       (Inr reply, st') \<Rightarrow> entry_visible m st' dir name reply \<and> symlink_Readlink st' (join dir name) None = Inr target
     | (Inl err, st') \<Rightarrow> s_upper (ms_Session st') = s_upper (ms_Session st)) \<and>
   (\<forall>e. mnt_resolve m st (join dir name) = Inr e \<and> present e \<longrightarrow>
      DirCreate m now dir name mode uid gid st = (Inl EEXIST, st))"
proof (intro conjI)
  show "case DirCreate m now dir name mode uid gid st of
       (Inr (reply, h), st') \<Rightarrow> entry_visible m st' dir name reply \<and> h = OverlayHandle (join dir name)
     | (Inl err, st') \<Rightarrow> s_upper (ms_Session st') = s_upper (ms_Session st)"
    using DirCreate_visible [OF _ assms] unchanged_on_failure(1) [OF assms(1)] by (auto split: prod.splits sum.splits)
  show "case DirMkdir m now dir name mode uid gid st of
       (Inr reply, st') \<Rightarrow> entry_visible m st' dir name reply
     | (Inl err, st') \<Rightarrow> s_upper (ms_Session st') = s_upper (ms_Session st)"
    using DirMkdir_visible [OF _ assms] unchanged_on_failure(2) [OF assms(1)] by (auto split: prod.splits sum.splits)
  show "case DirSymlink m now dir target name uid gid st of
       (Inr reply, st') \<Rightarrow> entry_visible m st' dir name reply \<and> symlink_Readlink st' (join dir name) None = Inr target
     | (Inl err, st') \<Rightarrow> s_upper (ms_Session st') = s_upper (ms_Session st)"
    using DirSymlink_visible [OF _ assms] unchanged_on_failure(3) [OF assms(1)] by (auto split: prod.splits sum.splits)
  show "\<forall>e. mnt_resolve m st (join dir name) = Inr e \<and> present e \<longrightarrow>
      DirCreate m now dir name mode uid gid st = (Inl EEXIST, st)"
    by (simp add: DirCreate_def mustBeAbsent_def existsInMerged_def mnt_resolve_def Let_def)
qed

theorem new_entry_visible_witness:
  "\<exists>reply st'. DirMkdir sample_mounter 0 ''d'' ''new'' 493 7 8 sample_mount = (Inr reply, st') \<and>
     entry_visible sample_mounter st' ''d'' ''new'' reply \<and>
     DirCreate sample_mounter 0 ''d'' ''y'' 420 7 8 sample_mount = (Inl EEXIST, sample_mount)"
proof -
  have ok: "seq_ok (ms_Session sample_mount)" using sample_seq_ok by (simp add: sample_mount_def)
  have "\<not> isl (fst (DirMkdir sample_mounter 0 ''d'' ''new'' 493 7 8 sample_mount))" by code_simp
  then obtain reply st' where r: "DirMkdir sample_mounter 0 ''d'' ''new'' 493 7 8 sample_mount = (Inr reply, st')"
    by (metis isl_def prod.collapse sum.exhaust)
  have "case mnt_resolve sample_mounter sample_mount (join ''d'' ''y'') of Inr e \<Rightarrow> present e | Inl _ \<Rightarrow> False"
    by code_simp
  then have "DirCreate sample_mounter 0 ''d'' ''y'' 420 7 8 sample_mount = (Inl EEXIST, sample_mount)"
    using new_entry_visible [OF ok, where name = "''y''" and dir = "''d''" and m = sample_mounter] by (auto split: sum.splits)
  moreover have "entry_visible sample_mounter st' ''d'' ''new'' reply"
    using new_entry_visible [OF ok, where name = "''new''" and dir = "''d''" and m = sample_mounter and now = 0
        and mode = 493 and uid = 7 and gid = 8] r by simp
  ultimately show ?thesis using r by blast
qed

section \<open>Removing and replacing\<close>








section \<open>Attributes\<close>











end
