(* ===== verification/Mount_Setup.thy ===== *)
theory Mount_Setup
  imports Errno
begin

text \<open>
  Opening and closing the lower directory around a FUSE mount (\<^verbatim>\<open>internal/fs/fs.go\<close>). The outcomes of
  \<^verbatim>\<open>open\<close>, \<^verbatim>\<open>close\<close> and of starting the FUSE server are arguments; the open descriptors of the process are a list.
\<close>

record lower_fd =
  fd_LowerPath :: string
  lowerDirFd :: int
  lowerFdSet :: bool
  fd_closed :: bool \<comment> \<open>\<^verbatim>\<open>closeOnce\<close> has run\<close>

definition MounterClose :: "errno option \<Rightarrow> lower_fd \<Rightarrow> int list \<Rightarrow> go_error option \<times> lower_fd \<times> int list" where
  "MounterClose close m fds =
     (if fd_closed m then (None, m, fds)
      else let m1 = m\<lparr>fd_closed := True\<rparr>
           in if lowerFdSet m1
              then (map_option (\<lambda>e. wrap_error ''fs: close lower fd'' (errno_error e)) close,
                    m1\<lparr>lowerDirFd := - 1, lowerFdSet := False\<rparr>, removeAll (lowerDirFd m1) fds)
              else (None, m1, fds))"

definition MounterMount ::
    "errno + int \<Rightarrow> go_error option \<Rightarrow> errno option \<Rightarrow> lower_fd \<Rightarrow> int list \<Rightarrow> go_error option \<times> lower_fd \<times> int list" where
  "MounterMount open server close m fds =
     (if fd_LowerPath m = ''/'' then (Some (plain_error ''fs: refusing to mount over /''), m, fds)
      else case open of
             Inl err \<Rightarrow> (Some (wrap_error (''fs: open lower '' @ fd_LowerPath m) (errno_error err)), m, fds)
           | Inr fd \<Rightarrow>
               let m1 = m\<lparr>lowerDirFd := fd, lowerFdSet := True\<rparr>; fds1 = fd # fds
               in case server of
                    Some err \<Rightarrow>
                      (case MounterClose close m1 fds1 of
                         (_, m2, fds2) \<Rightarrow> (Some (wrap_error (''fs: mount over '' @ fd_LowerPath m) err), m2, fds2))
                  | None \<Rightarrow> (None, m1, fds1))"

text \<open>
  A failed mount leaves no descriptor behind; a live one leaves exactly the lower's, which \<open>MounterClose\<close>
  gives back, once however often it is called.
\<close>

lemma mount_close_balanced:
  assumes "\<not> lowerFdSet m" "\<not> fd_closed m" "\<And>fd. open = Inr fd \<Longrightarrow> fd \<notin> set fds"
    and "MounterMount open server close m fds = (err, m1, fds1)" and "MounterClose close' m1 fds1 = (err', m2, fds2)"
  shows "fds2 = fds \<and> (err \<noteq> None \<longrightarrow> fds1 = fds) \<and> MounterClose c m2 fds2 = (None, m2, fds2)"
  using assms
  by (auto simp: MounterMount_def MounterClose_def Let_def split: if_splits sum.splits option.splits)

end
