(* ===== verification/S3_Http.thy ===== *)
theory S3_Http
  imports Registry
begin

text \<open>
  The HTTP front end of the in-memory S3 (\<^verbatim>\<open>internal/s3fake/s3fake.go\<close>): routing of requests, the replies, and
  the set-up calls of tests. Objects are keyed by bucket and key together, as in the source. The lemmas say
  that a client behind this server sees the store operations of \<open>Object_Store\<close>. The hook before a put and
  the XML text of replies are left out.
\<close>

section \<open>Set-up\<close>

definition FailPuts :: "bool \<Rightarrow> s3fake \<Rightarrow> s3fake" where
  "FailPuts fail s = s\<lparr>fk_failPut := fail\<rparr>"

definition TruncateGets :: "nat \<Rightarrow> s3fake \<Rightarrow> s3fake" where
  "TruncateGets n s = s\<lparr>fk_truncateGets := n\<rparr>"

definition Corrupt :: "string \<Rightarrow> string \<Rightarrow> body \<Rightarrow> s3fake \<Rightarrow> s3fake" where
  "Corrupt bucket key data s = s\<lparr>fk_corrupt := fmupd (bucket @ ''/'' @ key) data (fk_corrupt s)\<rparr>"

definition FakePut :: "string \<Rightarrow> string \<Rightarrow> body \<Rightarrow> s3fake \<Rightarrow> s3fake" where
  "FakePut bucket key data s = s\<lparr>fk_objects := fmupd (bucket @ ''/'' @ key) data (fk_objects s)\<rparr>"

definition FakeGet :: "string \<Rightarrow> string \<Rightarrow> s3fake \<Rightarrow> body option" where
  "FakeGet bucket key s = fmlookup (fk_objects s) (bucket @ ''/'' @ key)"

text \<open>\<^verbatim>\<open>strings.Cut(s, "/")\<close>\<close>

definition cut_slash :: "string \<Rightarrow> string \<times> string \<times> bool" where
  "cut_slash s = (takeWhile (\<lambda>c. c \<noteq> slash) s, drop 1 (dropWhile (\<lambda>c. c \<noteq> slash) s), slash \<in> set s)"

definition Keys :: "string \<Rightarrow> s3fake \<Rightarrow> string list" where
  "Keys bucket s =
     sort (List.map_filter (\<lambda>k. case cut_slash k of (b, key, ok) \<Rightarrow> if ok \<and> b = bucket then Some key else None)
       (keys_of (fk_objects s)))"

section \<open>Requests\<close>

datatype http_method = MethodPut | MethodGet | MethodDelete | MethodOther

datatype http_reply =
    Status nat
  | ErrorReply nat string
  | ObjectReply body
  | AbortedReply body \<comment> \<open>headers promise the object, the connection ends early\<close>
  | ListReply string "string list" \<comment> \<open>prefix and keys\<close>

record http_request =
  rq_method :: http_method
  rq_path :: string
  rq_list :: bool \<comment> \<open>\<^verbatim>\<open>list-type=2\<close>\<close>
  rq_prefix :: string
  rq_body :: "body option" \<comment> \<open>\<open>None\<close>: the body broke off\<close>

definition splitPath :: "string \<Rightarrow> (string \<times> string) option" where
  "splitPath p =
     (let trimmed = trim_prefix p ''/''
      in if trimmed = [] then None
         else case cut_slash trimmed of (bucket, key, _) \<Rightarrow> if bucket \<noteq> [] then Some (bucket, key) else None)"

definition http_put :: "http_request \<Rightarrow> string \<Rightarrow> string \<Rightarrow> s3fake \<Rightarrow> http_reply \<times> s3fake" where
  "http_put r bucket key s =
     (case rq_body r of
        None \<Rightarrow> (ErrorReply 400 ''IncompleteBody'', s)
      | Some data \<Rightarrow>
          (case fake_put s (bucket @ ''/'' @ key) data of
             (Some _, s') \<Rightarrow> (ErrorReply 500 ''InternalError'', s')
           | (None, s') \<Rightarrow> (Status 200, s')))"

definition http_get :: "string \<Rightarrow> string \<Rightarrow> s3fake \<Rightarrow> http_reply \<times> s3fake" where
  "http_get bucket key s =
     (let k = bucket @ ''/'' @ key;
          data = (case fmlookup (fk_corrupt s) k of Some bad \<Rightarrow> Some bad | None \<Rightarrow> fmlookup (fk_objects s) k);
          cut = 0 < fk_truncateGets s;
          s' = (if cut then s\<lparr>fk_truncateGets := fk_truncateGets s - 1\<rparr> else s)
      in case data of
           None \<Rightarrow> (ErrorReply 404 ''NoSuchKey'', s')
         | Some d \<Rightarrow> (if cut then AbortedReply d else ObjectReply d, s'))"

definition ServeHTTP :: "http_request \<Rightarrow> s3fake \<Rightarrow> http_reply \<times> s3fake" where
  "ServeHTTP r s =
     (case splitPath (rq_path r) of
        None \<Rightarrow> (ErrorReply 400 ''InvalidRequest'', s)
      | Some (bucket, key) \<Rightarrow>
          (case rq_method r of
             MethodPut \<Rightarrow> http_put r bucket key s
           | MethodGet \<Rightarrow>
               if key = [] \<or> rq_list r
               then (ListReply (rq_prefix r) (filter (\<lambda>k. HasPrefix k (rq_prefix r)) (Keys bucket s)), s)
               else http_get bucket key s
           | MethodDelete \<Rightarrow> (Status 204, snd (fake_delete s (bucket @ ''/'' @ key)))
           | MethodOther \<Rightarrow> (ErrorReply 405 ''MethodNotAllowed'', s)))"

section \<open>What a client sees\<close>

text \<open>The SDK's reading of a reply to a get.\<close>

definition get_outcome :: "http_reply \<Rightarrow> s3_error + (go_error + body)" where
  "get_outcome r =
     (case r of
        ObjectReply d \<Rightarrow> Inr (Inr d)
      | AbortedReply _ \<Rightarrow> Inr (Inl (plain_error ''unexpected EOF''))
      | _ \<Rightarrow> Inl fake_no_such_key)"

lemma cut_slash_join: "slash \<notin> set b \<Longrightarrow> cut_slash (b @ slash # k) = (b, k, True)"
  by (induction b) (auto simp: cut_slash_def)

lemma splitPath_join:
  assumes "slash \<notin> set bucket" and "bucket \<noteq> []"
  shows "splitPath (''/'' @ bucket @ ''/'' @ key) = Some (bucket, key)"
  using assms by (simp add: splitPath_def trim_prefix_def cut_slash_join)

text \<open>
  Getting an object over HTTP is \<open>fake_get\<close>, storing it \<open>fake_put\<close>; what was put over HTTP is what a get
  returns while no fault is injected, and it is in the bucket's keys.
\<close>

lemma http_is_fake_store:
  assumes "slash \<notin> set bucket" and "bucket \<noteq> []" and "key \<noteq> []" and "rq_path r = ''/'' @ bucket @ ''/'' @ key"
  shows "rq_method r = MethodGet \<Longrightarrow> \<not> rq_list r \<Longrightarrow>
      map_prod get_outcome id (ServeHTTP r s) = fake_get s (bucket @ ''/'' @ key)"
    and "rq_method r = MethodPut \<Longrightarrow> rq_body r = Some d \<Longrightarrow> \<not> fk_failPut s \<Longrightarrow>
      ServeHTTP r s = (Status 200, FakePut bucket key d s) \<and> FakeGet bucket key (FakePut bucket key d s) = Some d \<and>
      key \<in> set (Keys bucket (FakePut bucket key d s))"
proof -
  note path = splitPath_join [OF assms(1,2), of key] assms(4)
  show "rq_method r = MethodGet \<Longrightarrow> \<not> rq_list r \<Longrightarrow>
      map_prod get_outcome id (ServeHTTP r s) = fake_get s (bucket @ ''/'' @ key)"
    using path assms(3) by (simp add: ServeHTTP_def http_get_def fake_get_def get_outcome_def Let_def split: option.split)
  have "key \<in> set (Keys bucket (FakePut bucket key d s))"
    using cut_slash_join [OF assms(1), of key]
    by (auto simp: Keys_def FakePut_def set_map_filter_iff intro!: bexI [of _ "bucket @ slash # key"] fmdomI)
  then show "rq_method r = MethodPut \<Longrightarrow> rq_body r = Some d \<Longrightarrow> \<not> fk_failPut s \<Longrightarrow>
      ServeHTTP r s = (Status 200, FakePut bucket key d s) \<and> FakeGet bucket key (FakePut bucket key d s) = Some d \<and>
      key \<in> set (Keys bucket (FakePut bucket key d s))"
    using path by (simp add: ServeHTTP_def http_put_def fake_put_def FakePut_def FakeGet_def)
qed

end
