(* ===== verification/Lifecycle.thy ===== *)
theory Lifecycle
  imports Session_Open
begin

text \<open>
  One run of a mount (\<^verbatim>\<open>internal/daemon/lifecycle.go\<close>): acquiring the lease, the background goroutines, the
  FUSE mount, pidfile, control socket and signal handler, and releasing them. The run is a function of
  the outcomes of the calls it makes (\<open>lc_env\<close>) and records what it does as a list of actions; lease calls
  go to the registry. The handler of SIGINT and SIGTERM runs in a goroutine of its own: \<open>en_signal\<close> says
  between which actions of the main goroutine its call of \<open>unmount\<close> falls. Only runs whose \<^verbatim>\<open>Wait\<close> returns are
  described.
\<close>

section \<open>Actions and environment\<close>

datatype action =
    AClaim | AStartBg | AMount | AWritePid | AStartCtl | AInstallSig | AReady | AUnmount | AWait
  | AStopSig | AStopCtl | AStopBg | AWaitCkpt | AClose | ARemovePid | AReleaseLease | AFlush

datatype sig_point = NoSignal | BeforeReady | WhileServing | AfterWait | AfterServed

record 's lc_env =
  en_rand :: "go_error + bytes" \<comment> \<open>the random bytes of the token\<close>
  en_hostname :: "go_error + string"
  en_now :: int
  en_now' :: int
  en_mount :: "go_error option"
  en_pidFile :: string
  en_WritePid :: "go_error option"
  en_control :: "go_error option option" \<comment> \<open>\<open>None\<close>: no control socket asked for\<close>
  en_onReady :: "go_error option option" \<comment> \<open>\<open>None\<close>: no callback\<close>
  en_signal :: sig_point
  en_serving :: "'s \<Rightarrow> 's" \<comment> \<open>what serving the mount does to the object store\<close>

record 's lifecycle =
  lc_token :: string
  lc_host :: string
  lc_bg :: bool \<comment> \<open>\<^verbatim>\<open>bgCancel != nil\<close>\<close>
  lc_handle :: bool
  lc_pidWritten :: bool
  lc_stopCtl :: bool
  lc_stopSig :: bool
  lc_served :: bool
  lc_unmounted :: bool \<comment> \<open>\<^verbatim>\<open>unmountOnce\<close> has run\<close>
  lc_released :: bool \<comment> \<open>\<^verbatim>\<open>releaseOnce\<close> has run\<close>
  lc_trace :: "action list"
  lc_store :: 's

definition new_lifecycle :: "'s \<Rightarrow> 's lifecycle" where
  "new_lifecycle s = \<lparr>lc_token = [], lc_host = [], lc_bg = False, lc_handle = False, lc_pidWritten = False,
     lc_stopCtl = False, lc_stopSig = False, lc_served = False, lc_unmounted = False, lc_released = False,
     lc_trace = [], lc_store = s\<rparr>"

definition act :: "action \<Rightarrow> 's lifecycle \<Rightarrow> 's lifecycle" where
  "act a lc = lc\<lparr>lc_trace := lc_trace lc @ [a]\<rparr>"

section \<open>Unmount, abort, release\<close>

definition lc_unmount :: "'s lifecycle \<Rightarrow> 's lifecycle" where
  "lc_unmount lc =
     (if lc_unmounted lc then lc
      else let lc1 = lc\<lparr>lc_unmounted := True\<rparr>
           in if lc_served lc1 then lc1 else act AUnmount lc1)"

text \<open>The signal handler's part at a point of the main goroutine.\<close>

definition signal_at :: "sig_point \<Rightarrow> 's lc_env \<Rightarrow> 's lifecycle \<Rightarrow> 's lifecycle" where
  "signal_at p env lc = (if lc_stopSig lc \<and> en_signal env = p then lc_unmount lc else lc)"

definition wait_served :: "'s lc_env \<Rightarrow> 's lifecycle \<Rightarrow> 's lifecycle" where
  "wait_served env lc = act AWait ((signal_at WhileServing env lc)\<lparr>lc_store := en_serving env (lc_store lc)\<rparr>)"

definition abort :: "'s lc_env \<Rightarrow> 's lifecycle \<Rightarrow> 's lifecycle" where
  "abort env lc = wait_served env (lc_unmount lc)"

definition release :: "'s registry \<Rightarrow> string \<Rightarrow> 's lifecycle \<Rightarrow> 's lifecycle" where
  "release reg sid lc =
     (if lc_released lc then lc
      else
        let lc = lc\<lparr>lc_released := True\<rparr>;
            lc = (if lc_stopSig lc then act AStopSig lc else lc);
            lc = (if lc_stopCtl lc then act AStopCtl lc else lc);
            lc = (if lc_bg lc then act AStopBg lc else lc);
            lc = act AWaitCkpt lc;
            lc = (if lc_handle lc then act AClose lc else lc);
            lc = (if lc_pidWritten lc then act ARemovePid lc else lc);
            lc = (if lc_token lc \<noteq> []
                  then act AReleaseLease (lc\<lparr>lc_store := snd (ReleaseLease reg sid (lc_token lc) (lc_store lc))\<rparr>)
                  else lc)
        in act AFlush lc)"

section \<open>The run\<close>

text \<open>From the live mount on.\<close>

definition run_ready :: "'s lc_env \<Rightarrow> 's lifecycle \<Rightarrow> go_error option \<times> 's lifecycle" where
  "run_ready env lc =
     (let lc = signal_at BeforeReady env lc
      in case en_onReady env of
           Some (Some err) \<Rightarrow> (Some err, abort env lc)
         | onReady \<Rightarrow>
             let lc = (if onReady = None then lc else act AReady lc);
                 lc = wait_served env lc;
                 lc = signal_at AfterWait env lc;
                 lc = lc\<lparr>lc_served := True\<rparr>
             in (None, signal_at AfterServed env lc))"

definition run_mounted :: "'s lc_env \<Rightarrow> 's lifecycle \<Rightarrow> go_error option \<times> 's lifecycle" where
  "run_mounted env lc =
     (case (if en_pidFile env \<noteq> [] then Some (en_WritePid env) else None) of
        Some (Some err) \<Rightarrow> (Some err, abort env lc)
      | pid \<Rightarrow>
          let lc = (if pid = None then lc else act AWritePid (lc\<lparr>lc_pidWritten := True\<rparr>));
              lc = (if en_control env = Some None then act AStartCtl (lc\<lparr>lc_stopCtl := True\<rparr>) else lc);
              lc = act AInstallSig (lc\<lparr>lc_stopSig := True\<rparr>)
          in run_ready env lc)"

definition run_body :: "'s registry \<Rightarrow> string \<Rightarrow> 's lc_env \<Rightarrow> 's lifecycle \<Rightarrow> go_error option \<times> 's lifecycle" where
  "run_body reg sid env lc =
     (case NewID (en_rand env) of
        Inl err \<Rightarrow> (Some err, lc)
      | Inr token \<Rightarrow>
          let host = (case en_hostname env of Inl _ \<Rightarrow> ''unknown-host'' | Inr h \<Rightarrow> h);
              lc = lc\<lparr>lc_token := token, lc_host := host\<rparr>
          in case ClaimLease reg (en_now env) (en_now' env) sid token host (lc_store lc) of
               (Some err, s') \<Rightarrow> (Some (wrap_error ''kfuse'' err), lc\<lparr>lc_token := [], lc_store := s'\<rparr>)
             | (None, s') \<Rightarrow>
                 let lc = act AStartBg (act AClaim (lc\<lparr>lc_store := s'\<rparr>)\<lparr>lc_bg := True\<rparr>)
                 in case en_mount env of
                      Some err \<Rightarrow> (Some err, lc)
                    | None \<Rightarrow> run_mounted env (act AMount (lc\<lparr>lc_handle := True\<rparr>)))"

definition run :: "'s registry \<Rightarrow> string \<Rightarrow> 's lc_env \<Rightarrow> 's lifecycle \<Rightarrow> go_error option \<times> 's lifecycle" where
  "run reg sid env lc = (case run_body reg sid env lc of (err, lc') \<Rightarrow> (err, release reg sid lc'))"

section \<open>Background work\<close>

text \<open>
  One tick of the heartbeat; \<open>ctxDone\<close> is the context's state after the call. A lease taken over by another
  writer fences the session, any other failure is only logged.
\<close>

definition heartbeat ::
    "'s registry \<Rightarrow> int \<Rightarrow> int \<Rightarrow> bool \<Rightarrow> string \<Rightarrow> string \<Rightarrow> session \<Rightarrow> 's \<Rightarrow> session \<times> 's" where
  "heartbeat reg now now' ctxDone token host ss s =
     (case RenewLease reg now now' (sm_ID (Meta ss)) token host s of
        (None, s') \<Rightarrow> (ss, s')
      | (Some err, s') \<Rightarrow>
          if ctxDone then (ss, s')
          else if CLocked \<in> set (ge_causes err) then (MarkLeaseLost ss, s')
          else (ss, s'))"

text \<open>One tick of the materializer.\<close>

definition materialize :: "'s registry \<Rightarrow> bool \<Rightarrow> i64 \<Rightarrow> session \<Rightarrow> 's \<Rightarrow> session \<times> 's" where
  "materialize reg isDiverged known ss s =
     (case Checkpoint reg isDiverged known ss s of (_, ss', s') \<Rightarrow> (ss', s'))"

end
