(* ===== verification/Go_Strings.thy ===== *)
theory Go_Strings
  imports Registry_Props
begin

text \<open>
  What the daemon and the command line use of Go's \<^verbatim>\<open>strings\<close>, \<^verbatim>\<open>strconv\<close> and \<^verbatim>\<open>path/filepath\<close> (on Unix), on byte
  strings.
\<close>

section \<open>Numbers\<close>

fun dec_digits :: "nat \<Rightarrow> string" where
  "dec_digits n = (if n < 10 then [digit_char n] else dec_digits (n div 10) @ [digit_char (n mod 10)])"

declare dec_digits.simps [simp del]

text \<open>\<^verbatim>\<open>strconv.Itoa\<close>, and the verb \<^verbatim>\<open>%d\<close> for \<^verbatim>\<open>int64\<close>.\<close>

definition Itoa :: "i64 \<Rightarrow> string" where
  "Itoa w = (if sint w < 0 then CHR ''-'' # dec_digits (nat (- sint w)) else dec_digits (nat (sint w)))"

text \<open>The verb \<^verbatim>\<open>%d\<close> for \<^verbatim>\<open>uint64\<close>.\<close>

definition fmt_u64 :: "u64 \<Rightarrow> string" where
  "fmt_u64 w = dec_digits (unat w)"

text \<open>\<^verbatim>\<open>strconv.Atoi\<close>: \<^verbatim>\<open>int\<close> has 64 bits.\<close>

definition Atoi :: "string \<Rightarrow> go_error + i64" where
  "Atoi s = (case ParseInt s of None \<Rightarrow> Inl (plain_error (''strconv.Atoi: parsing '' @ s)) | Some w \<Rightarrow> Inr w)"

definition ParseBool :: "string \<Rightarrow> bool option" where
  "ParseBool s =
     (if s \<in> {''1'', ''t'', ''T'', ''true'', ''TRUE'', ''True''} then Some True
      else if s \<in> {''0'', ''f'', ''F'', ''false'', ''FALSE'', ''False''} then Some False
      else None)"

section \<open>White space\<close>

text \<open>
  The UTF-8 encodings of the runes \<^verbatim>\<open>unicode.IsSpace\<close> accepts. No encoding starts inside another rune, so
  looking for them byte by byte finds what decoding rune by rune finds, in malformed text too.
\<close>

definition space_runes :: "string list" where
  "space_runes = map (map char_of)
     ([[9], [10], [11], [12], [13], [32], [194, 133], [194, 160], [225, 154, 128 :: nat]] @
      map (\<lambda>b. [226, 128, b]) ([128 ..< 139] @ [168, 169, 175]) @ [[226, 129, 159], [227, 128, 128]])"

definition leading :: "string list \<Rightarrow> string \<Rightarrow> string option" where
  "leading rs s = find (\<lambda>r. r \<noteq> [] \<and> prefix r s) rs"

lemma leading_Some: "leading rs s = Some r \<Longrightarrow> r \<noteq> [] \<and> prefix r s \<and> r \<in> set rs"
  by (auto simp: leading_def find_Some_iff)

lemma leading_drop: "leading rs s = Some r \<Longrightarrow> length (drop (length r) s) < length s"
  using leading_Some [of rs s r] by (cases r; cases s) auto

text \<open>The loop of \<^verbatim>\<open>strings.TrimLeftFunc\<close>.\<close>

function trim_runes :: "string list \<Rightarrow> string \<Rightarrow> string" where
  "trim_runes rs s = (case leading rs s of None \<Rightarrow> s | Some r \<Rightarrow> trim_runes rs (drop (length r) s))"
  by pat_completeness auto
termination
  by (relation "measure (\<lambda>(rs, s). length s)") (use leading_drop in auto)

declare trim_runes.simps [simp del]

definition TrimSpace :: "string \<Rightarrow> string" where
  "TrimSpace s = rev (trim_runes (map rev space_runes) (rev (trim_runes space_runes s)))"

text \<open>\<^verbatim>\<open>strings.Fields\<close>; \<open>acc\<close> is the field being read, reversed.\<close>

definition flush :: "string \<Rightarrow> string list" where
  "flush acc = (if acc = [] then [] else [rev acc])"

function fields_from :: "string \<Rightarrow> string \<Rightarrow> string list" where
  "fields_from acc s =
     (case s of
        [] \<Rightarrow> flush acc
      | c # cs \<Rightarrow>
          (case leading space_runes s of
             Some r \<Rightarrow> flush acc @ fields_from [] (drop (length r) s)
           | None \<Rightarrow> fields_from (c # acc) cs))"
  by pat_completeness auto
termination
  by (relation "measure (\<lambda>(acc, s). length s)") (use leading_drop in fastforce)+

declare fields_from.simps [simp del]

definition Fields :: "string \<Rightarrow> string list" where
  "Fields s = fields_from [] s"

section \<open>Splitting and joining\<close>

text \<open>\<^verbatim>\<open>strings.Split\<close> at a one-byte separator.\<close>

fun split_at :: "char \<Rightarrow> string \<Rightarrow> string list" where
  "split_at d [] = [[]]"
| "split_at d (c # cs) =
     (if c = d then [] # split_at d cs else case split_at d cs of [] \<Rightarrow> [[c]] | p # ps \<Rightarrow> (c # p) # ps)"

text \<open>\<^verbatim>\<open>strings.Join\<close>\<close>

fun join_with :: "string \<Rightarrow> string list \<Rightarrow> string" where
  "join_with sep [] = []"
| "join_with sep [x] = x"
| "join_with sep (x # y # xs) = x @ sep @ join_with sep (y # xs)"

text \<open>\<^verbatim>\<open>strings.TrimRight(s, "/")\<close>\<close>

definition trim_right_slash :: "string \<Rightarrow> string" where
  "trim_right_slash s = rev (dropWhile (\<lambda>c. c = slash) (rev s))"

section \<open>Paths\<close>

text \<open>\<^verbatim>\<open>filepath.Clean\<close>: one component, on the reversed list of those kept so far.\<close>

fun clean_step :: "bool \<Rightarrow> string list \<Rightarrow> string \<Rightarrow> string list" where
  "clean_step rooted st c =
     (if c = [] \<or> c = ''.'' then st
      else if c = ''..''
      then (case st of
              [] \<Rightarrow> if rooted then [] else [''..'']
            | t # ts \<Rightarrow> if t = ''..'' then ''..'' # st else ts)
      else c # st)"

definition path_Clean :: "string \<Rightarrow> string" where
  "path_Clean s =
     (let rooted = (s \<noteq> [] \<and> hd s = slash);
          body = join_with ''/'' (rev (foldl (clean_step rooted) [] (split_slash s)))
      in if rooted then slash # body else if body = [] then ''.'' else body)"

definition path_Join :: "string list \<Rightarrow> string" where
  "path_Join es = (case dropWhile (\<lambda>e. e = []) es of [] \<Rightarrow> [] | es' \<Rightarrow> path_Clean (join_with ''/'' es'))"

definition path_Dir :: "string \<Rightarrow> string" where
  "path_Dir p = path_Clean (take (nat (last_index_slash p + 1)) p)"

section \<open>Facts\<close>

lemma digits_val_dec_digits: "digits_val (dec_digits n) m = Some (m * 10 ^ length (dec_digits n) + n)"
proof (induction n arbitrary: m rule: dec_digits.induct)
  case (1 n)
  show ?case
  proof (cases "n < 10")
    case False
    then show ?thesis using 1 [OF False]
      by (subst (1 2) dec_digits.simps) (simp add: digits_val_append digit_val_digit_char algebra_simps)
  qed (subst (1 2) dec_digits.simps, simp add: digit_val_digit_char)
qed

lemma dec_digits_digit: "c \<in> set (dec_digits n) \<Longrightarrow> byte_in c 48 57"
proof (induction n rule: dec_digits.induct)
  case (1 n)
  have d: "byte_in (digit_char (k mod 10)) 48 57" "k < 10 \<Longrightarrow> byte_in (digit_char k) 48 57" for k
    by (simp_all add: byte_in_def digit_char_def)
  show ?case using 1 d [of n] by (subst (asm) (2) dec_digits.simps) (auto split: if_splits)
qed

lemma dec_digits_nonempty [simp]: "dec_digits n \<noteq> []"
  by (subst dec_digits.simps) simp

lemma ParseInt_Itoa: "ParseInt (Itoa w) = Some w"
proof -
  have hd: "hd (dec_digits n) \<noteq> CHR ''-'' \<and> hd (dec_digits n) \<noteq> CHR ''+''" for n
    using dec_digits_digit [of "hd (dec_digits n)" n] by (auto simp: byte_in_def)
  have r: "- (2 ^ 63) \<le> sint w" "sint w < 2 ^ 63" using sint_range [of w] by simp_all
  show ?thesis using hd r
    by (cases "sint w < 0") (simp_all add: ParseInt_def Itoa_def digits_val_dec_digits Let_def)
qed

lemma Atoi_Itoa [simp]: "Atoi (Itoa w) = Inr w"
  by (simp add: Atoi_def ParseInt_Itoa)

text \<open>Text of printable ASCII bytes has no white space at all.\<close>

definition graphic :: "char \<Rightarrow> bool" where
  "graphic c \<longleftrightarrow> byte_in c 33 126"

lemma space_codes:
  "space_runes = map (map char_of) [[9], [10], [11], [12], [13], [32], [194, 133], [194, 160], [225, 154, 128 :: nat],
     [226, 128, 128], [226, 128, 129], [226, 128, 130], [226, 128, 131], [226, 128, 132], [226, 128, 133], [226, 128, 134],
     [226, 128, 135], [226, 128, 136], [226, 128, 137], [226, 128, 138], [226, 128, 168], [226, 128, 169], [226, 128, 175],
     [226, 129, 159], [227, 128, 128]]"
  by (simp add: space_runes_def upt_rec)

lemma space_runes_not_graphic: "\<forall>r\<in>set space_runes. r \<noteq> [] \<and> \<not> graphic (hd r) \<and> \<not> graphic (last r)"
  by (simp add: space_codes graphic_def byte_in_def)

lemma leading_graphic:
  assumes "s = [] \<or> graphic (hd s)"
  shows "leading space_runes s = None"
  using space_runes_not_graphic assms by (fastforce simp: leading_def find_None_iff prefix_def)

lemma leading_rev_graphic:
  assumes "s = [] \<or> graphic (hd s)"
  shows "leading (map rev space_runes) s = None"
proof -
  have "\<not> prefix (rev r) s" if "r \<in> set space_runes" for r
    using assms bspec [OF space_runes_not_graphic that] by (auto simp: prefix_def hd_rev [symmetric])
  then show ?thesis by (auto simp: leading_def find_None_iff)
qed

lemma trim_runes_None: "leading rs s = None \<Longrightarrow> trim_runes rs s = s"
  by (subst trim_runes.simps) simp

lemma trim_runes_Some: "leading rs s = Some r \<Longrightarrow> trim_runes rs s = trim_runes rs (drop (length r) s)"
  by (subst trim_runes.simps) simp

lemma leading_single:
  assumes "[c] \<in> set rs" and "\<forall>r\<in>set rs. r = [] \<or> r = [c] \<or> hd r \<noteq> c"
  shows "leading rs (c # s) = Some [c]"
  using assms
proof (induction rs)
  case (Cons r rs)
  show ?case
  proof (cases "r = [c]")
    case False
    then have "\<not> (r \<noteq> [] \<and> prefix r (c # s))" using Cons.prems(2) by (cases r) auto
    moreover have "leading rs (c # s) = Some [c]" using Cons False by simp
    ultimately show ?thesis by (simp only: leading_def find.simps if_False)
  qed (simp add: leading_def)
qed simp

lemma char_eq_codes: "CHR ''\<newline>'' = char_of (10 :: nat)" "CHR '' '' = char_of (32 :: nat)"
  by code_simp+

lemma leading_newline:
  "leading (map rev space_runes) (CHR ''\<newline>'' # s) = Some ''\<newline>''"
  "leading space_runes (CHR '' '' # s) = Some '' ''"
  by (rule leading_single; simp add: space_codes char_of_eq_iff char_eq_codes)+

lemma TrimSpace_graphic: "s = [] \<or> graphic (hd s) \<and> graphic (last s) \<Longrightarrow> TrimSpace s = s"
  by (auto simp: TrimSpace_def trim_runes_None leading_graphic leading_rev_graphic hd_rev)

lemma TrimSpace_line: "s \<noteq> [] \<Longrightarrow> graphic (hd s) \<Longrightarrow> graphic (last s) \<Longrightarrow> TrimSpace (s @ ''\<newline>'') = s"
  by (simp add: TrimSpace_def trim_runes_None trim_runes_Some leading_newline leading_graphic leading_rev_graphic hd_rev)

lemma fields_word:
  "\<forall>c\<in>set w. graphic c \<Longrightarrow> fields_from acc w = flush (rev w @ acc)"
  "\<forall>c\<in>set w. graphic c \<Longrightarrow> fields_from acc (w @ CHR '' '' # s) = flush (rev w @ acc) @ fields_from [] s"
proof (induction w arbitrary: acc)
  case Nil
  {
    case 1
    show ?case by (subst fields_from.simps) simp
  next
    case 2
    show ?case by (subst fields_from.simps) (simp add: leading_newline)
  }
next
  case (Cons c w)
  {
    case 1
    then show ?case using Cons.IH(1) [of "c # acc"] by (subst fields_from.simps) (simp add: leading_graphic)
  next
    case 2
    then show ?case using Cons.IH(2) [of "c # acc"] by (subst fields_from.simps) (simp add: leading_graphic)
  }
qed

lemma Fields_three:
  assumes "\<forall>c\<in>set a \<union> set b \<union> set d. graphic c" and "a \<noteq> []" "b \<noteq> []" "d \<noteq> []"
  shows "Fields (a @ CHR '' '' # b @ CHR '' '' # d) = [a, b, d]"
  using assms by (simp add: Fields_def fields_word flush_def)

lemma graphic_digits: "c \<in> set (dec_digits n) \<Longrightarrow> graphic c"
  using dec_digits_digit [of c n] by (auto simp: graphic_def byte_in_def)

lemma graphic_Itoa: "c \<in> set (Itoa w) \<Longrightarrow> graphic c"
  using graphic_digits by (auto simp: Itoa_def graphic_def byte_in_def split: if_splits)

lemma graphic_id: "valid_id i \<Longrightarrow> c \<in> set i \<Longrightarrow> graphic c"
  by (auto simp: valid_id_def id_char_def graphic_def byte_in_def)

lemma Itoa_nonempty [simp]: "Itoa w \<noteq> []"
  by (simp add: Itoa_def)

lemma TrimSpace_words: "s \<noteq> [] \<Longrightarrow> \<forall>c\<in>set s. graphic c \<Longrightarrow> TrimSpace s = s \<and> TrimSpace (s @ ''\<newline>'') = s"
  by (simp add: TrimSpace_graphic TrimSpace_line)

end
