(* ===== verification/Config.thy ===== *)
theory Config
  imports Go_Strings
begin

text \<open>
  Configuration from the environment (\<^verbatim>\<open>internal/config/config.go\<close>). The environment is a function that
  gives the empty string for an unset variable, as \<^verbatim>\<open>os.Getenv\<close> does; \<^verbatim>\<open>url.Parse\<close> is a parameter that gives
  scheme and host. In messages \<^verbatim>\<open>%q\<close> only adds the quotes.
\<close>

type_synonym environ = "string \<Rightarrow> string"
type_synonym url_parser = "string \<Rightarrow> go_error + string \<times> string"

record config =
  KafkaBrokers :: string
  KafkaSASLUsername :: string
  KafkaSASLPassword :: string
  KafkaTLS :: bool
  KafkaTopic :: string
  KafkaPartitions :: i64
  S3Region :: string
  S3AccessKey :: string
  S3SecretKey :: string
  S3Endpoint :: string
  S3UsePathStyle :: bool
  S3Bucket :: string
  S3Prefix :: string
  LowerID :: string
  StateDir :: string

definition quoted :: "string \<Rightarrow> string" where
  "quoted s = CHR 0x22 # s @ [CHR 0x22]"

text \<open>\<^verbatim>\<open>errors.Join\<close>\<close>

definition errors_Join :: "go_error option list \<Rightarrow> go_error option" where
  "errors_Join es =
     (case List.map_filter id es of
        [] \<Rightarrow> None
      | errs \<Rightarrow> Some \<lparr>ge_causes = concat (map ge_causes errs), ge_msg = join_with ''\<newline>'' (map ge_msg errs)\<rparr>)"

section \<open>Validation\<close>

definition missingErr :: "string list \<Rightarrow> go_error option" where
  "missingErr missing =
     (if missing = [] then None
      else Some (plain_error (''config: missing required env: '' @ join_with '', '' missing)))"

definition missingStorage :: "config \<Rightarrow> string list" where
  "missingStorage cfg =
     (if S3AccessKey cfg = [] then [''S3_ACCESS_KEY''] else []) @
     (if S3SecretKey cfg = [] then [''S3_SECRET_KEY''] else []) @
     (if S3Bucket cfg = [] then [''S3_BUCKET''] else [])"

definition ValidateStorage :: "config \<Rightarrow> go_error option" where
  "ValidateStorage cfg = missingErr (missingStorage cfg)"

definition Validate :: "config \<Rightarrow> go_error option" where
  "Validate cfg = missingErr (
     (if KafkaBrokers cfg = [] then [''BOOTSTRAP_SERVER''] else []) @
     (if KafkaSASLUsername cfg = [] \<and> KafkaSASLPassword cfg \<noteq> [] then [''KAFKA_SASL_USERNAME''] else []) @
     (if KafkaSASLPassword cfg = [] \<and> KafkaSASLUsername cfg \<noteq> [] then [''KAFKA_SASL_PASSWORD''] else []) @
     missingStorage cfg @
     (if KafkaPartitions cfg \<le>s 0 then [''KAFKA_PARTITIONS (>0)''] else []))"

section \<open>Reading the environment\<close>

definition defaultTopic :: string where "defaultTopic = ''kfuse.events''"
definition defaultPartitions :: i64 where "defaultPartitions = 8"
definition defaultRegion :: string where "defaultRegion = ''us-east-1''"
definition defaultPrefix :: string where "defaultPrefix = ''kfuse/''"

definition envOr :: "environ \<Rightarrow> string \<Rightarrow> string \<Rightarrow> string" where
  "envOr env k def = (if env k \<noteq> [] then env k else def)"

definition envBool :: "environ \<Rightarrow> string \<Rightarrow> bool \<Rightarrow> bool \<times> go_error option" where
  "envBool env k def =
     (if env k = [] then (def, None)
      else case ParseBool (env k) of
             None \<Rightarrow> (def, Some (plain_error (''config: '' @ k @ ''='' @ quoted (env k) @ '' is not a boolean'')))
           | Some b \<Rightarrow> (b, None))"

definition envInt :: "environ \<Rightarrow> string \<Rightarrow> i64 \<Rightarrow> i64 \<times> go_error option" where
  "envInt env k def =
     (if env k = [] then (def, None)
      else case Atoi (env k) of
             Inl _ \<Rightarrow> (def, Some (plain_error (''config: '' @ k @ ''='' @ quoted (env k) @ '' is not an integer'')))
           | Inr n \<Rightarrow> (n, None))"

definition validateS3Endpoint :: "url_parser \<Rightarrow> string \<Rightarrow> go_error option" where
  "validateS3Endpoint parse raw =
     (if raw = [] then None
      else let bad = Some (plain_error (''config: S3_ENDPOINT='' @ quoted raw @ '' must be an http:// or https:// URL''))
           in case parse raw of
                Inl _ \<Rightarrow> bad
              | Inr (scheme, host) \<Rightarrow>
                  if host = [] \<or> scheme \<noteq> ''http'' \<and> scheme \<noteq> ''https'' then bad else None)"

text \<open>\<^verbatim>\<open>os.UserHomeDir\<close> on Unix.\<close>

definition UserHomeDir :: "environ \<Rightarrow> go_error + string" where
  "UserHomeDir env = (if env ''HOME'' \<noteq> [] then Inr (env ''HOME'') else Inl (plain_error ''$HOME is not defined''))"

definition stateDirFromEnv :: "environ \<Rightarrow> string \<times> go_error option" where
  "stateDirFromEnv env =
     (if env ''KF_STATE_DIR'' \<noteq> [] then (env ''KF_STATE_DIR'', None)
      else if env ''XDG_STATE_HOME'' \<noteq> [] then (path_Join [env ''XDG_STATE_HOME'', ''kfuse''], None)
      else case UserHomeDir env of
             Inl err \<Rightarrow> ([], Some (wrap_error ''config: resolve state dir, set KF_STATE_DIR'' err))
           | Inr h \<Rightarrow> (path_Join [h, ''.kfuse''], None))"

definition ConfigLoad :: "url_parser \<Rightarrow> environ \<Rightarrow> config \<times> go_error option" where
  "ConfigLoad parse env =
     (let (kafkaTLS, e1) = envBool env ''KAFKA_TLS'' True;
          (kafkaPartitions, e2) = envInt env ''KAFKA_PARTITIONS'' defaultPartitions;
          (s3UsePathStyle, e3) = envBool env ''S3_PATH_STYLE'' False;
          s3Endpoint = trim_right_slash (env ''S3_ENDPOINT'');
          e4 = validateS3Endpoint parse s3Endpoint;
          (stateDir, e5) = stateDirFromEnv env;
          cfg = \<lparr>KafkaBrokers = env ''BOOTSTRAP_SERVER'', KafkaSASLUsername = env ''KAFKA_SASL_USERNAME'',
                 KafkaSASLPassword = env ''KAFKA_SASL_PASSWORD'', KafkaTLS = kafkaTLS,
                 KafkaTopic = envOr env ''KAFKA_TOPIC'' defaultTopic, KafkaPartitions = kafkaPartitions,
                 S3Region = envOr env ''S3_REGION'' defaultRegion, S3AccessKey = env ''S3_ACCESS_KEY'',
                 S3SecretKey = env ''S3_SECRET_KEY'', S3Endpoint = s3Endpoint, S3UsePathStyle = s3UsePathStyle,
                 S3Bucket = env ''S3_BUCKET'', S3Prefix = envOr env ''S3_PREFIX'' defaultPrefix,
                 LowerID = env ''KF_LOWER_ID'', StateDir = stateDir\<rparr>;
          e6 = (if LowerID cfg \<noteq> [] then ValidateID ''KF_LOWER_ID'' (LowerID cfg) else None)
      in (cfg, errors_Join [e1, e2, e3, e4, e5, e6]))"

definition FromEnv :: "url_parser \<Rightarrow> environ \<Rightarrow> config \<times> go_error option" where
  "FromEnv parse env =
     (case ConfigLoad parse env of (cfg, loadErr) \<Rightarrow> (cfg, errors_Join [loadErr, Validate cfg]))"

section \<open>What is accepted\<close>

text \<open>The environments a remote command accepts, stated on the variables.\<close>

definition local_env_ok :: "url_parser \<Rightarrow> environ \<Rightarrow> bool" where
  "local_env_ok parse env \<longleftrightarrow>
     (\<forall>k\<in>{''KAFKA_TLS'', ''S3_PATH_STYLE''}. env k = [] \<or> ParseBool (env k) \<noteq> None) \<and>
     (env ''KAFKA_PARTITIONS'' = [] \<or> ParseInt (env ''KAFKA_PARTITIONS'') \<noteq> None) \<and>
     (env ''KF_LOWER_ID'' = [] \<or> valid_id (env ''KF_LOWER_ID'')) \<and>
     (\<exists>k\<in>{''KF_STATE_DIR'', ''XDG_STATE_HOME'', ''HOME''}. env k \<noteq> []) \<and>
     (let raw = trim_right_slash (env ''S3_ENDPOINT'')
      in raw = [] \<or> (\<exists>scheme host. parse raw = Inr (scheme, host) \<and> host \<noteq> [] \<and> scheme \<in> {''http'', ''https''}))"

definition remote_env_ok :: "environ \<Rightarrow> bool" where
  "remote_env_ok env \<longleftrightarrow>
     (\<forall>k\<in>{''BOOTSTRAP_SERVER'', ''S3_ACCESS_KEY'', ''S3_SECRET_KEY'', ''S3_BUCKET''}. env k \<noteq> []) \<and>
     (env ''KAFKA_SASL_USERNAME'' = [] \<longleftrightarrow> env ''KAFKA_SASL_PASSWORD'' = []) \<and>
     (env ''KAFKA_PARTITIONS'' \<noteq> [] \<longrightarrow> (\<exists>n. ParseInt (env ''KAFKA_PARTITIONS'') = Some n \<and> 0 < sint n))"

lemma map_filter_id_Nil: "List.map_filter id es = [] \<longleftrightarrow> (\<forall>e\<in>set es. e = None)"
  by (induction es) (auto simp: List.map_filter_simps split: option.splits)

lemma errors_Join_None [simp]: "errors_Join es = None \<longleftrightarrow> (\<forall>e\<in>set es. e = None)"
  unfolding map_filter_id_Nil [symmetric] by (auto simp: errors_Join_def split: list.splits)

lemma missingErr_None [simp]: "missingErr m = None \<longleftrightarrow> m = []"
  by (simp add: missingErr_def)

lemma envBool_None: "snd (envBool env k def) = None \<longleftrightarrow> env k = [] \<or> ParseBool (env k) \<noteq> None"
  by (auto simp: envBool_def split: option.splits)

lemma envInt_None: "snd (envInt env k def) = None \<longleftrightarrow> env k = [] \<or> ParseInt (env k) \<noteq> None"
  by (auto simp: envInt_def Atoi_def split: option.splits)

lemma envInt_value:
  "snd (envInt env k def) = None \<Longrightarrow>
     fst (envInt env k def) = (if env k = [] then def else the (ParseInt (env k)))"
  by (auto simp: envInt_def Atoi_def split: option.splits)

lemma validateS3Endpoint_None: "validateS3Endpoint parse raw = None \<longleftrightarrow>
    raw = [] \<or> (\<exists>scheme host. parse raw = Inr (scheme, host) \<and> host \<noteq> [] \<and> scheme \<in> {''http'', ''https''})"
  by (auto simp: validateS3Endpoint_def Let_def split: sum.splits)

lemma stateDirFromEnv_None: "snd (stateDirFromEnv env) = None \<longleftrightarrow>
    (\<exists>k\<in>{''KF_STATE_DIR'', ''XDG_STATE_HOME'', ''HOME''}. env k \<noteq> [])"
  by (auto simp: stateDirFromEnv_def UserHomeDir_def split: sum.splits)

lemma ConfigLoad_None: "snd (ConfigLoad parse env) = None \<longleftrightarrow> local_env_ok parse env"
  unfolding ConfigLoad_def local_env_ok_def
  by (simp add: case_prod_beta Let_def envBool_None envInt_None validateS3Endpoint_None stateDirFromEnv_None
      ValidateID_None cong: conj_cong) blast

lemma path_Clean_nonempty [simp]: "path_Clean p \<noteq> []"
  by (simp add: path_Clean_def Let_def)

lemma path_Join_nonempty [simp]: "e \<noteq> [] \<Longrightarrow> path_Join (e # es) \<noteq> []"
  by (simp add: path_Join_def)

lemma stateDirFromEnv_nonempty: "snd (stateDirFromEnv env) = None \<Longrightarrow> fst (stateDirFromEnv env) \<noteq> []"
  by (cases "env ''KF_STATE_DIR'' = []"; cases "env ''XDG_STATE_HOME'' = []"; cases "env ''HOME'' = []")
    (simp_all add: stateDirFromEnv_def UserHomeDir_def)

lemma Validate_None: "Validate cfg = None \<longleftrightarrow>
    KafkaBrokers cfg \<noteq> [] \<and> (KafkaSASLUsername cfg = [] \<longleftrightarrow> KafkaSASLPassword cfg = []) \<and> S3AccessKey cfg \<noteq> [] \<and>
    S3SecretKey cfg \<noteq> [] \<and> S3Bucket cfg \<noteq> [] \<and> 0 < sint (KafkaPartitions cfg)"
proof -
  have one: "(if P then [x] else []) = [] \<longleftrightarrow> \<not> P" for P and x :: string by simp
  show ?thesis
    unfolding Validate_def missingStorage_def missingErr_None append_is_Nil_conv one word_sle_eq by auto
qed

lemma ConfigLoad_fields:
  "KafkaBrokers (fst (ConfigLoad parse env)) = env ''BOOTSTRAP_SERVER''"
  "KafkaSASLUsername (fst (ConfigLoad parse env)) = env ''KAFKA_SASL_USERNAME''"
  "KafkaSASLPassword (fst (ConfigLoad parse env)) = env ''KAFKA_SASL_PASSWORD''"
  "S3AccessKey (fst (ConfigLoad parse env)) = env ''S3_ACCESS_KEY''"
  "S3SecretKey (fst (ConfigLoad parse env)) = env ''S3_SECRET_KEY''"
  "S3Bucket (fst (ConfigLoad parse env)) = env ''S3_BUCKET''"
  "LowerID (fst (ConfigLoad parse env)) = env ''KF_LOWER_ID''"
  "KafkaPartitions (fst (ConfigLoad parse env)) = fst (envInt env ''KAFKA_PARTITIONS'' defaultPartitions)"
  "StateDir (fst (ConfigLoad parse env)) = fst (stateDirFromEnv env)"
  by (simp_all add: ConfigLoad_def case_prod_beta Let_def)

text \<open>
  C21. Exactly the good environments are accepted. A remote command gets its configuration if and only if
  every variable that is set is well-formed, the state directory can be found, brokers, keys and bucket
  are given, the SASL pair is complete or absent, and the partition count is positive. A malformed value is
  never replaced by its default, and the accepted configuration has a non-empty state directory, a
  checked lower id and the partition count that was asked for.
\<close>

theorem configuration_accepted_exactly:
  "(snd (FromEnv parse env) = None \<longleftrightarrow> local_env_ok parse env \<and> remote_env_ok env) \<and>
   (snd (ConfigLoad parse env) = None \<longleftrightarrow> local_env_ok parse env) \<and>
   (snd (ConfigLoad parse env) = None \<longrightarrow>
     (let cfg = fst (ConfigLoad parse env)
      in fst (FromEnv parse env) = cfg \<and> StateDir cfg \<noteq> [] \<and> (LowerID cfg = [] \<or> valid_id (LowerID cfg)) \<and>
         KafkaPartitions cfg = (if env ''KAFKA_PARTITIONS'' = [] then 8 else the (ParseInt (env ''KAFKA_PARTITIONS'')))))"
proof (intro conjI impI)
  let ?cfg = "fst (ConfigLoad parse env)"
  have parts: "KafkaPartitions ?cfg = (if env ''KAFKA_PARTITIONS'' = [] then 8 else the (ParseInt (env ''KAFKA_PARTITIONS'')))"
    if "local_env_ok parse env"
    unfolding ConfigLoad_fields using that
    by (subst envInt_value) (auto simp: envInt_None local_env_ok_def defaultPartitions_def)
  have "Validate ?cfg = None \<longleftrightarrow> remote_env_ok env" if "local_env_ok parse env"
  proof -
    note ok = that
    have all: "(\<forall>k\<in>{''BOOTSTRAP_SERVER'', ''S3_ACCESS_KEY'', ''S3_SECRET_KEY'', ''S3_BUCKET''}. env k \<noteq> []) \<longleftrightarrow>
        env ''BOOTSTRAP_SERVER'' \<noteq> [] \<and> env ''S3_ACCESS_KEY'' \<noteq> [] \<and> env ''S3_SECRET_KEY'' \<noteq> [] \<and> env ''S3_BUCKET'' \<noteq> []"
      by simp
    have count: "0 < sint (KafkaPartitions ?cfg) \<longleftrightarrow>
        (env ''KAFKA_PARTITIONS'' \<noteq> [] \<longrightarrow> (\<exists>n. ParseInt (env ''KAFKA_PARTITIONS'') = Some n \<and> 0 < sint n))"
    proof (cases "env ''KAFKA_PARTITIONS'' = []")
      case False
      then obtain n where "ParseInt (env ''KAFKA_PARTITIONS'') = Some n" using ok unfolding local_env_ok_def by blast
      with False show ?thesis unfolding parts [OF ok] by simp
    qed (simp add: parts [OF ok])
    show ?thesis unfolding Validate_None count unfolding ConfigLoad_fields(1-7) remote_env_ok_def all by blast
  qed
  then show "snd (FromEnv parse env) = None \<longleftrightarrow> local_env_ok parse env \<and> remote_env_ok env"
    by (auto simp: FromEnv_def case_prod_beta ConfigLoad_None)
  show "snd (ConfigLoad parse env) = None \<longleftrightarrow> local_env_ok parse env" by (rule ConfigLoad_None)
  assume "snd (ConfigLoad parse env) = None"
  then have ok: "local_env_ok parse env" by (simp add: ConfigLoad_None)
  then have "snd (stateDirFromEnv env) = None" by (auto simp: local_env_ok_def stateDirFromEnv_None)
  with ok parts [OF ok] show "let cfg = ?cfg
      in fst (FromEnv parse env) = cfg \<and> StateDir cfg \<noteq> [] \<and> (LowerID cfg = [] \<or> valid_id (LowerID cfg)) \<and>
         KafkaPartitions cfg = (if env ''KAFKA_PARTITIONS'' = [] then 8 else the (ParseInt (env ''KAFKA_PARTITIONS'')))"
    using stateDirFromEnv_nonempty
    by (simp add: FromEnv_def case_prod_beta ConfigLoad_fields(7,9) local_env_ok_def)
qed

definition sample_environ :: environ where
  "sample_environ k =
     (case map_of [(''BOOTSTRAP_SERVER'', ''b:9092''), (''S3_ACCESS_KEY'', ''ak''), (''S3_SECRET_KEY'', ''sk''),
        (''S3_BUCKET'', ''bkt''), (''KAFKA_PARTITIONS'', ''12''), (''HOME'', ''/home/u''), (''KF_LOWER_ID'', ''low-1''),
        (''S3_ENDPOINT'', ''http://m:9000/'')] k of
        None \<Rightarrow> [] | Some v \<Rightarrow> v)"

definition sample_parse :: url_parser where
  "sample_parse raw =
     (if HasPrefix raw ''http://'' then Inr (''http'', drop 7 raw) else Inl (plain_error ''url''))"

theorem configuration_accepted_exactly_witness:
  "snd (ConfigLoad sample_parse sample_environ) = None \<and>
   KafkaPartitions (fst (FromEnv sample_parse sample_environ)) = 12 \<and>
   snd (FromEnv sample_parse (sample_environ(''KAFKA_PARTITIONS'' := ''12x''))) \<noteq> None"
proof -
  have load: "snd (ConfigLoad sample_parse sample_environ) = None" by code_simp
  have "sample_environ ''KAFKA_PARTITIONS'' = ''12''" "the (ParseInt ''12'') = 12" by code_simp+
  moreover have "\<not> local_env_ok sample_parse (sample_environ(''KAFKA_PARTITIONS'' := ''12x''))"
  proof -
    have "ParseInt ''12x'' = None" by code_simp
    then show ?thesis by (simp add: local_env_ok_def)
  qed
  ultimately show ?thesis
    using load configuration_accepted_exactly [of sample_parse sample_environ]
      configuration_accepted_exactly [of sample_parse "sample_environ(''KAFKA_PARTITIONS'' := ''12x'')"]
    by (simp add: Let_def)
qed

end
