(* ===== verification/Kafka_Client.thy ===== *)
theory Kafka_Client
  imports Kafkalog Config "HOL-Library.Multiset"
begin

text \<open>
  The client side of the change log (\<^verbatim>\<open>internal/kafkalog/kafkalog.go\<close>): its configuration, the connections a
  \<^verbatim>\<open>Log\<close> holds, topic creation, and the pieces of replay that talk to the client library. The library is a
  parameter: its calls appear by their outcomes, its connections as numbered handles. What the sarama
  library exports as error values appears as named causes.
\<close>

section \<open>Configuration\<close>

datatype required_acks = NoResponse | WaitForLocal | WaitForAll

record sarama_config =
  sc_ClientID :: string
  sc_SASL :: "(string \<times> string) option" \<comment> \<open>user and password of the plain mechanism\<close>
  sc_TLS :: bool
  sc_AllowAutoTopicCreation :: bool
  sc_RequiredAcks :: required_acks
  sc_RetryMax :: nat
  sc_ManualPartitioner :: bool

definition client_config :: "config \<Rightarrow> sarama_config" where
  "client_config cfg = \<lparr>sc_ClientID = ''kfuse'',
     sc_SASL = (if KafkaSASLUsername cfg \<noteq> [] then Some (KafkaSASLUsername cfg, KafkaSASLPassword cfg) else None),
     sc_TLS = KafkaTLS cfg, sc_AllowAutoTopicCreation = False, sc_RequiredAcks = WaitForAll, sc_RetryMax = maxAttempts,
     sc_ManualPartitioner = True\<rparr>"

record kafka_log =
  lo_topic :: string
  lo_parts :: klog
  lo_brokers :: "string list"
  lo_saramaCfg :: sarama_config

text \<open>\<^verbatim>\<open>New\<close>; \<open>validate\<close> is the library's check of the configuration.\<close>

definition kafkalog_New :: "(sarama_config \<Rightarrow> go_error option) \<Rightarrow> config \<Rightarrow> go_error + kafka_log" where
  "kafkalog_New validate cfg =
     (case validate (client_config cfg) of
        Some err \<Rightarrow> Inl (wrap_error ''kafkalog: config'' err)
      | None \<Rightarrow> Inr \<lparr>lo_topic = KafkaTopic cfg,
          lo_parts = \<lparr>kl_partitions = sint (KafkaPartitions cfg), kl_cfgPartitions = sint (KafkaPartitions cfg)\<rparr>,
          lo_brokers = split_at (CHR '','') (KafkaBrokers cfg), lo_saramaCfg = client_config cfg\<rparr>)"

section \<open>Topics\<close>

abbreviation ErrTopicAlreadyExists :: cause where
  "ErrTopicAlreadyExists \<equiv> CPlain ''sarama.ErrTopicAlreadyExists''"

abbreviation ErrTopicAuthorizationFailed :: cause where
  "ErrTopicAuthorizationFailed \<equiv> CPlain ''sarama.ErrTopicAuthorizationFailed''"

abbreviation ErrClusterAuthorizationFailed :: cause where
  "ErrClusterAuthorizationFailed \<equiv> CPlain ''sarama.ErrClusterAuthorizationFailed''"

definition EnsureTopic :: "string \<Rightarrow> go_error option \<Rightarrow> go_error option \<Rightarrow> go_error option" where
  "EnsureTopic topic admin create =
     (case (case admin of Some err \<Rightarrow> Some err | None \<Rightarrow> create) of
        None \<Rightarrow> None
      | Some err \<Rightarrow>
          if ErrTopicAlreadyExists \<in> set (ge_causes err) \<or> ErrTopicAuthorizationFailed \<in> set (ge_causes err) \<or>
             ErrClusterAuthorizationFailed \<in> set (ge_causes err)
          then None
          else Some (wrap_error (''kafkalog: create topic '' @ topic) err))"

section \<open>Waiting\<close>

text \<open>
  \<^verbatim>\<open>awaitCtx\<close>: the result of the call, unless the caller's context ends first (\<open>gaveUp\<close>); the call itself
  runs to its end either way.
\<close>

definition awaitCtx :: "go_error option \<Rightarrow> go_error + 'a \<Rightarrow> go_error + 'a" where
  "awaitCtx gaveUp res = (case gaveUp of Some err \<Rightarrow> Inl err | None \<Rightarrow> res)"

definition baseBackoff :: i64 where
  "baseBackoff = 100000000"

definition maxBackoff :: i64 where
  "maxBackoff = 2000000000"

text \<open>The delay before an attempt, from the second one on.\<close>

definition backoff :: "nat \<Rightarrow> i64" where
  "backoff attempt = (let d = push_bit (attempt - 2) baseBackoff in if maxBackoff <s d then maxBackoff else d)"

lemma backoff_bounds: "attempt \<in> {2 .. maxAttempts} \<Longrightarrow> 0 <s backoff attempt \<and> backoff attempt \<le>s maxBackoff"
proof -
  have "\<forall>n\<in>{2, 3, 4, 5}. 0 <s backoff n \<and> backoff n \<le>s maxBackoff" by code_simp
  moreover assume "attempt \<in> {2 .. maxAttempts}"
  then have "attempt \<in> {2, 3, 4, 5}" by (auto simp: maxAttempts_def)
  ultimately show ?thesis by blast
qed

text \<open>\<^verbatim>\<open>FetchMessage\<close>: what the first ready channel of a partition consumer gives.\<close>

datatype 'v channel_event =
    Message "'v krecord" | MessagesClosed | ConsumerError go_error | ErrorsClosed | ContextDone go_error

definition FetchMessage :: "'v channel_event \<Rightarrow> go_error + 'v krecord" where
  "FetchMessage e =
     (case e of
        Message msg \<Rightarrow> Inr msg
      | MessagesClosed \<Rightarrow> Inl (plain_error ''consumer closed'')
      | ConsumerError err \<Rightarrow> Inl err
      | ErrorsClosed \<Rightarrow> Inl (plain_error ''consumer closed'')
      | ContextDone err \<Rightarrow> Inl err)"

section \<open>Connections\<close>

text \<open>
  The fields \<^verbatim>\<open>client\<close> and \<^verbatim>\<open>producer\<close> of a \<^verbatim>\<open>Log\<close>, with the connections open in the process: \<open>cn_closing\<close> are those
  a running \<^verbatim>\<open>Close\<close> has taken out of the fields and not closed yet.
\<close>

record conns =
  cn_client :: "nat option"
  cn_producer :: "nat option"
  cn_closing :: "nat list"
  cn_open :: "nat list"
  cn_next :: nat


definition clientLocked :: "go_error option \<Rightarrow> conns \<Rightarrow> (go_error + nat) \<times> conns" where
  "clientLocked dial s =
     (case cn_client s of
        Some c \<Rightarrow> (Inr c, s)
      | None \<Rightarrow>
          (case dial of
             Some err \<Rightarrow> (Inl (wrap_error ''kafkalog: connect'' err), s)
           | None \<Rightarrow>
               let c = cn_next s
               in (Inr c, s\<lparr>cn_client := Some c, cn_open := c # cn_open s, cn_next := Suc c\<rparr>)))"

text \<open>\<^verbatim>\<open>getClient\<close> only adds the mutex; here each operation is one step.\<close>

definition appendProducer :: "go_error option \<Rightarrow> go_error option \<Rightarrow> conns \<Rightarrow> (go_error + nat) \<times> conns" where
  "appendProducer dial mk s =
     (case cn_producer s of
        Some p \<Rightarrow> (Inr p, s)
      | None \<Rightarrow>
          (case clientLocked dial s of
             (Inl err, s1) \<Rightarrow> (Inl err, s1)
           | (Inr c, s1) \<Rightarrow>
               (case mk of
                  Some err \<Rightarrow> (Inl (wrap_error ''kafkalog: producer'' err), s1)
                | None \<Rightarrow>
                    let p = cn_next s1
                    in (Inr p, s1\<lparr>cn_producer := Some p, cn_open := p # cn_open s1, cn_next := Suc p\<rparr>))))"

text \<open>
  \<^verbatim>\<open>Close\<close> takes both fields under the mutex and closes what it took after releasing it, so other calls may
  come in between.
\<close>

definition close_take :: "conns \<Rightarrow> conns" where
  "close_take s = s\<lparr>cn_client := None, cn_producer := None,
     cn_closing := cn_closing s @ (case cn_producer s of Some p \<Rightarrow> [p] | None \<Rightarrow> []) @
       (case cn_client s of Some c \<Rightarrow> [c] | None \<Rightarrow> [])\<rparr>"

definition close_one :: "nat \<Rightarrow> conns \<Rightarrow> conns" where
  "close_one x s = s\<lparr>cn_closing := remove1 x (cn_closing s), cn_open := remove1 x (cn_open s)\<rparr>"


text \<open>Any interleaving of calls from any number of goroutines.\<close>

inductive conn_step :: "conns \<Rightarrow> conns \<Rightarrow> bool" where
  client: "clientLocked dial s = (r, s') \<Longrightarrow> conn_step s s'"
| producer: "appendProducer dial mk s = (r, s') \<Longrightarrow> conn_step s s'"
| take: "conn_step s (close_take s)"
| one: "x \<in> set (cn_closing s) \<Longrightarrow> conn_step s (close_one x s)"

inductive_cases conn_stepE: "conn_step s s'"











end
