(* ===== verification/Daemon.thy ===== *)
theory Daemon
  imports Lifecycle Kafka_Client
begin

text \<open>
  The daemon's local state and control socket (\<^verbatim>\<open>internal/daemon/daemon.go\<close>, \<^verbatim>\<open>control.go\<close>). The operating
  system of the host is a parameter: the calls the code makes, on a state \<open>'w\<close> of their own. Permission
  bits are numbers.
\<close>

record 'w host =
  ho_uid :: i64
  ho_Getwd :: "go_error + string"
  ho_ReadFile :: "string \<Rightarrow> 'w \<Rightarrow> go_error + bytes"
  ho_WriteFile :: "string \<Rightarrow> bytes \<Rightarrow> nat \<Rightarrow> 'w \<Rightarrow> go_error option \<times> 'w"
  ho_MkdirAll :: "string \<Rightarrow> nat \<Rightarrow> 'w \<Rightarrow> go_error option \<times> 'w"
  ho_Remove :: "string \<Rightarrow> 'w \<Rightarrow> go_error option \<times> 'w"
  ho_Chmod :: "string \<Rightarrow> nat \<Rightarrow> 'w \<Rightarrow> go_error option \<times> 'w"
  ho_Stat :: "string \<Rightarrow> 'w \<Rightarrow> go_error + i64 \<times> nat" \<comment> \<open>owner and permission bits\<close>
  ho_ReadDir :: "string \<Rightarrow> 'w \<Rightarrow> go_error + (string \<times> bool) list" \<comment> \<open>names, and whether directories\<close>
  ho_Listen :: "string \<Rightarrow> 'w \<Rightarrow> go_error option \<times> 'w"
  ho_Kill :: "i64 \<Rightarrow> nat \<Rightarrow> 'w \<Rightarrow> errno option \<times> 'w"

section \<open>The lower and its id\<close>

text \<open>\<^verbatim>\<open>filepath.Abs\<close>\<close>

definition path_Abs :: "'w host \<Rightarrow> string \<Rightarrow> go_error + string" where
  "path_Abs os p =
     (if HasPrefix p ''/'' then Inr (path_Clean p)
      else case ho_Getwd os of Inl err \<Rightarrow> Inl err | Inr wd \<Rightarrow> Inr (path_Join [wd, p]))"

definition lower_marker :: "string \<Rightarrow> string" where
  "lower_marker root = path_Join [root, ''.kf-lower-id'']"

text \<open>The id recorded in the marker file, if any.\<close>

definition marker_candidate :: "'w host \<Rightarrow> string \<Rightarrow> 'w \<Rightarrow> go_error + string" where
  "marker_candidate os root w =
     (case ho_ReadFile os (lower_marker root) w of
        Inr b \<Rightarrow> Inr (TrimSpace b)
      | Inl err \<Rightarrow>
          if CNotExist \<in> set (ge_causes err) then Inr []
          else Inl (wrap_error ''daemon: read lower id marker'' err))"

definition mint_lower :: "'w host \<Rightarrow> go_error + bytes \<Rightarrow> string \<Rightarrow> 'w \<Rightarrow> (go_error + string \<times> string) \<times> 'w" where
  "mint_lower os rnd root w =
     (case rnd of
        Inl err \<Rightarrow> (Inl err, w)
      | Inr b \<Rightarrow>
          let i = ''lower-'' @ EncodeToString b
          in case ho_WriteFile os (lower_marker root) i 0x1A4 w of
               (Some err, w') \<Rightarrow> (Inl (wrap_error ''daemon: persist lower id'' err), w')
             | (None, w') \<Rightarrow> (Inr (root, i), w'))"

definition ResolveLower ::
    "'w host \<Rightarrow> environ \<Rightarrow> go_error + bytes \<Rightarrow> string \<Rightarrow> string \<Rightarrow> 'w \<Rightarrow> (go_error + string \<times> string) \<times> 'w" where
  "ResolveLower os env rnd lower lowerIDOverride w =
     (case path_Abs os lower of
        Inl err \<Rightarrow> (Inl err, w)
      | Inr root \<Rightarrow>
          let i = (if lowerIDOverride = [] then env ''KF_LOWER_ID'' else lowerIDOverride)
          in if i \<noteq> [] then (Inr (root, i), w)
             else case marker_candidate os root w of
                    Inl err \<Rightarrow> (Inl err, w)
                  | Inr cand \<Rightarrow> if cand \<noteq> [] then (Inr (root, cand), w) else mint_lower os rnd root w)"

section \<open>Selected session and pidfiles\<close>

definition SelectedPath :: "string \<Rightarrow> string \<Rightarrow> string" where
  "SelectedPath stateDir lid = path_Join [stateDir, lid, ''selected'']"

definition ReadSelected :: "'w host \<Rightarrow> string \<Rightarrow> string \<Rightarrow> 'w \<Rightarrow> go_error + string" where
  "ReadSelected os stateDir lid w =
     (case ho_ReadFile os (SelectedPath stateDir lid) w of
        Inl err \<Rightarrow>
          if CNotExist \<in> set (ge_causes err) then Inr []
          else Inl (wrap_error ''daemon: read selected session'' err)
      | Inr b \<Rightarrow> Inr (TrimSpace b))"

definition write_under_dir :: "'w host \<Rightarrow> string \<Rightarrow> bytes \<Rightarrow> 'w \<Rightarrow> go_error option \<times> 'w" where
  "write_under_dir os p b w =
     (case ho_MkdirAll os (path_Dir p) 0x1ED w of
        (Some err, w') \<Rightarrow> (Some err, w')
      | (None, w') \<Rightarrow> ho_WriteFile os p b 0x1A4 w')"

definition WriteSelected :: "'w host \<Rightarrow> string \<Rightarrow> string \<Rightarrow> string \<Rightarrow> 'w \<Rightarrow> go_error option \<times> 'w" where
  "WriteSelected os stateDir lid sid w = write_under_dir os (SelectedPath stateDir lid) (sid @ ''\<newline>'') w"

definition PidFilePath :: "string \<Rightarrow> session \<Rightarrow> string" where
  "PidFilePath stateDir ss = path_Join [stateDir, s_lowerID ss, sm_ID (Meta ss), ''pid'']"

definition WritePidFile :: "'w host \<Rightarrow> string \<Rightarrow> i64 \<Rightarrow> 'w \<Rightarrow> go_error option \<times> 'w" where
  "WritePidFile os p pid w = write_under_dir os p (Itoa pid) w"

definition ReadPidFile :: "'w host \<Rightarrow> string \<Rightarrow> 'w \<Rightarrow> go_error + i64" where
  "ReadPidFile os p w =
     (case ho_ReadFile os p w of Inl err \<Rightarrow> Inl err | Inr b \<Rightarrow> Atoi (TrimSpace b))"

abbreviation EPERM :: errno where
  "EPERM \<equiv> EOther 1"

definition IsAlive :: "'w host \<Rightarrow> i64 \<Rightarrow> 'w \<Rightarrow> bool" where
  "IsAlive os pid w =
     (if pid \<le>s 0 then False
      else case fst (ho_Kill os pid 0 w) of None \<Rightarrow> True | Some err \<Rightarrow> err = EPERM)"

section \<open>The control socket\<close>

definition maxUnixSocketPath :: nat where
  "maxUnixSocketPath = 108"

text \<open>\<^verbatim>\<open>os.TempDir\<close> on Unix.\<close>

definition TempDir :: "environ \<Rightarrow> string" where
  "TempDir env = envOr env ''TMPDIR'' ''/tmp''"

definition ControlSocketPath :: "'w host \<Rightarrow> environ \<Rightarrow> string \<Rightarrow> string \<Rightarrow> string \<Rightarrow> string" where
  "ControlSocketPath os env stateDir lid sid =
     (let path = path_Join [stateDir, lid, sid, ''control.sock'']
      in if length path < maxUnixSocketPath then path
         else
           let sum = Sum256 (stateDir @ [CHR 0x00] @ lid @ [CHR 0x00] @ sid);
               name = EncodeToString (take 8 sum) @ ''.sock'';
               dir = ''kfuse-'' @ Itoa (ho_uid os);
               short = filter (\<lambda>p. length p < maxUnixSocketPath)
                         (map (\<lambda>base. path_Join [base, dir, name]) (filter (\<lambda>base. base \<noteq> []) [TempDir env, ''/tmp'']))
           in case short of p # _ \<Rightarrow> p | [] \<Rightarrow> path_Join [''/tmp'', name])"

definition checkPrivateDir :: "'w host \<Rightarrow> string \<Rightarrow> 'w \<Rightarrow> go_error option" where
  "checkPrivateDir os dir w =
     (case ho_Stat os dir w of
        Inl err \<Rightarrow> Some err
      | Inr (uid, perm) \<Rightarrow>
          if uid \<noteq> ho_uid os then Some (plain_error (''daemon: control socket dir '' @ dir @ '' is owned by uid '' @ Itoa uid))
          else if perm mod 64 \<noteq> 0 then Some (plain_error (''daemon: control socket dir '' @ dir @ '' is accessible to other users''))
          else None)"

text \<open>
  \<^verbatim>\<open>StartControlServer\<close> up to the accept loop. A result \<open>Inr path\<close> stands for a listener that serves each
  connection by \<open>handleControl\<close>; its stop function is an action of the life cycle.
\<close>

definition listen_control :: "'w host \<Rightarrow> string \<Rightarrow> 'w \<Rightarrow> (go_error + string) \<times> 'w" where
  "listen_control os path w =
     (let (err, w) = ho_Remove os path w
      in case err of
           Some err \<Rightarrow>
             if CNotExist \<in> set (ge_causes err)
             then (case ho_Listen os path w of
                     (Some err, w) \<Rightarrow> (Inl err, w)
                   | (None, w) \<Rightarrow> (case ho_Chmod os path 0x180 w of (Some err, w) \<Rightarrow> (Inl err, w) | (None, w) \<Rightarrow> (Inr path, w)))
             else (Inl (wrap_error ''daemon: clear stale control socket'' err), w)
         | None \<Rightarrow>
             (case ho_Listen os path w of
                (Some err, w) \<Rightarrow> (Inl err, w)
              | (None, w) \<Rightarrow> (case ho_Chmod os path 0x180 w of (Some err, w) \<Rightarrow> (Inl err, w) | (None, w) \<Rightarrow> (Inr path, w))))"

definition StartControlServer :: "'w host \<Rightarrow> environ \<Rightarrow> string \<Rightarrow> session \<Rightarrow> 'w \<Rightarrow> (go_error + string) \<times> 'w" where
  "StartControlServer os env stateDir ss w =
     (let path = ControlSocketPath os env stateDir (s_lowerID ss) (sm_ID (Meta ss));
          dir = path_Dir path
      in case ho_MkdirAll os dir 0x1C0 w of
           (Some err, w) \<Rightarrow> (Inl err, w)
         | (None, w) \<Rightarrow>
             (case (if HasPrefix path (path_Clean stateDir @ ''/'') then None else checkPrivateDir os dir w) of
                Some err \<Rightarrow> (Inl err, w)
              | None \<Rightarrow> listen_control os path w))"

definition maxControlLine :: nat where
  "maxControlLine = 4096"

text \<open>\<^verbatim>\<open>ReadString('\n')\<close> on what arrives: the line with its end, or no line.\<close>

definition read_line :: "bytes \<Rightarrow> string option" where
  "read_line bs =
     (if CHR ''\<newline>'' \<in> set bs then Some (takeWhile (\<lambda>c. c \<noteq> CHR ''\<newline>'') bs @ ''\<newline>'') else None)"

text \<open>One connection: \<open>bs\<close> is what the client sends, the result what is sent back.\<close>

definition handleControl ::
    "'s registry \<Rightarrow> bool \<Rightarrow> i64 \<Rightarrow> go_error option \<Rightarrow> bytes \<Rightarrow> session \<Rightarrow> 's \<Rightarrow> bytes \<times> session \<times> 's" where
  "handleControl reg isDiverged known deadline bs ss s =
     (if deadline \<noteq> None then ([], ss, s)
      else case read_line (take maxControlLine bs) of
             None \<Rightarrow> ([], ss, s)
           | Some line \<Rightarrow>
               let command = TrimSpace line
               in if command = ''checkpoint''
                  then (case Checkpoint reg isDiverged known ss s of
                          (Inl err, ss', s') \<Rightarrow> (''error '' @ ge_msg err @ ''\<newline>'', ss', s')
                        | (Inr off, ss', s') \<Rightarrow> (''offset '' @ Itoa off @ ''\<newline>'', ss', s'))
                  else if command = ''status''
                  then (''status '' @ sm_ID (Meta ss) @ '' '' @ fmt_u64 (seqLast (s_upper ss)) @ ''\<newline>'', ss, s)
                  else (''error unknown command '' @ quoted command @ ''\<newline>'', ss, s))"

text \<open>The client: \<open>exchange\<close> stands for writing the request and what comes back.\<close>

definition ControlRequest ::
    "go_error option \<Rightarrow> go_error option \<Rightarrow> (bytes \<Rightarrow> go_error + bytes) \<Rightarrow> string \<Rightarrow> go_error + string" where
  "ControlRequest dial deadline exchange command =
     (case dial of
        Some err \<Rightarrow> Inl err
      | None \<Rightarrow>
          (case deadline of
             Some err \<Rightarrow> Inl (wrap_error ''daemon: control deadline'' err)
           | None \<Rightarrow>
               (case exchange (command @ ''\<newline>'') of
                  Inl err \<Rightarrow> Inl err
                | Inr bs \<Rightarrow>
                    (case read_line bs of
                       None \<Rightarrow> Inl (plain_error ''EOF'')
                     | Some reply \<Rightarrow> Inr (TrimSpace reply)))))"

text \<open>\<^verbatim>\<open>Stack.CheckpointSession\<close>: a checkpoint without a daemon.\<close>

definition CheckpointSession ::
    "'l event_log \<Rightarrow> 's registry \<Rightarrow> string \<Rightarrow> string \<Rightarrow> 'l \<Rightarrow> 's \<Rightarrow> (go_error + i64) \<times> 's" where
  "CheckpointSession elog reg sid lid l s =
     (case OpenSession elog reg sid lid l s of
        (Inl err, s') \<Rightarrow> (Inl err, s')
      | (Inr ss, s') \<Rightarrow> (case Checkpoint reg (diverged ss) (lastOffset ss) ss s' of (res, _, s'') \<Rightarrow> (res, s'')))"

section \<open>Detaching\<close>

text \<open>
  \<^verbatim>\<open>Detach\<close>: the outcomes of finding the executable, opening the log file and starting the child are arguments.
\<close>

definition Detach ::
    "'w host \<Rightarrow> go_error option \<Rightarrow> go_error option \<Rightarrow> go_error + i64 \<Rightarrow> string \<Rightarrow> 'w \<Rightarrow> (go_error + i64) \<times> 'w" where
  "Detach os exe openLog start logPath w =
     (case exe of
        Some err \<Rightarrow> (Inl err, w)
      | None \<Rightarrow>
          if logPath = [] then (start, w)
          else case ho_MkdirAll os (path_Dir logPath) 0x1ED w of
                 (Some err, w') \<Rightarrow> (Inl err, w')
               | (None, w') \<Rightarrow> (case openLog of Some err \<Rightarrow> (Inl err, w') | None \<Rightarrow> (start, w')))"

section \<open>The stack\<close>

text \<open>
  The S3 client's settings (\<^verbatim>\<open>s3util.NewClient\<close>), the constructors of blob store and registry, and
  \<^verbatim>\<open>NewStack\<close>. \<open>dial\<close> is the SDK: it makes an object store of the settings. \<open>se_validate\<close> and \<open>se_parts\<close> are what
  the Kafka library answers; that the topic could not be created is only logged.
\<close>

record s3_config =
  s3_Region :: string
  s3_Credentials :: "string \<times> string"
  s3_MaxAttempts :: nat
  s3_BaseEndpoint :: "string option"
  s3_UsePathStyle :: bool

definition s3_NewClient :: "config \<Rightarrow> s3_config" where
  "s3_NewClient cfg = \<lparr>s3_Region = S3Region cfg, s3_Credentials = (S3AccessKey cfg, S3SecretKey cfg),
     s3_MaxAttempts = s3_maxAttempts,
     s3_BaseEndpoint = (if S3Endpoint cfg \<noteq> [] then Some (S3Endpoint cfg) else None),
     s3_UsePathStyle = S3UsePathStyle cfg\<rparr>"

definition registry_New :: "(s3_config \<Rightarrow> 's object_store) \<Rightarrow> config \<Rightarrow> 's registry" where
  "registry_New dial cfg = \<lparr>rg_prefix = S3Prefix cfg, rg_client = dial (s3_NewClient cfg)\<rparr>"

definition blobstore_New :: "(s3_config \<Rightarrow> 's object_store) \<Rightarrow> config \<Rightarrow> 's blobstore" where
  "blobstore_New dial cfg = \<lparr>bs_prefix = S3Prefix cfg, bs_client = dial (s3_NewClient cfg)\<rparr>"

record 's stack =
  sk_Config :: config
  sk_Blobs :: "'s blobstore"
  sk_Log :: kafka_log
  sk_Reg :: "'s registry"

record stack_env =
  se_validate :: "sarama_config \<Rightarrow> go_error option"
  se_parts :: "go_error + nat list"

definition NewStack :: "(s3_config \<Rightarrow> 's object_store) \<Rightarrow> stack_env \<Rightarrow> config \<Rightarrow> go_error + 's stack" where
  "NewStack dial e cfg =
     (case kafkalog_New (se_validate e) cfg of
        Inl err \<Rightarrow> Inl err
      | Inr lo \<Rightarrow>
          (case RefreshPartitions (se_parts e) (lo_parts lo) of
             Inl err \<Rightarrow> Inl err
           | Inr lg \<Rightarrow> Inr \<lparr>sk_Config = cfg, sk_Blobs = blobstore_New dial cfg, sk_Log = lo\<lparr>lo_parts := lg\<rparr>,
               sk_Reg = registry_New dial cfg\<rparr>))"

text \<open>A stack that came up routes every session to a partition its topic has.\<close>

lemma NewStack_partition:
  assumes "NewStack dial e cfg = Inr st" and "se_parts e = Inr ps" and "length ps < 2 ^ 31"
  shows "PartitionFor (lo_parts (sk_Log st)) sid < length ps"
proof -
  have "ps \<noteq> []" and "kl_partitions (lo_parts (sk_Log st)) = int (length ps)"
    using assms(1,2) by (auto simp: NewStack_def RefreshPartitions_def split: sum.splits if_splits)
  then have "partitionCount (lo_parts (sk_Log st)) = int (length ps)" "0 < length ps" by (auto simp: partitionCount_def)
  moreover have "int (length ps) < 2 ^ 32" using assms(3) by simp
  ultimately have "int (PartitionFor (lo_parts (sk_Log st)) sid) < int (length ps)"
    using PartitionFor_bound [of "lo_parts (sk_Log st)" sid] by simp
  then show ?thesis by simp
qed

end
