(* ===== verification/Cli.thy ===== *)
theory Cli
  imports Daemon
begin

text \<open>
  The commands (\<^verbatim>\<open>cmd/kfuse\<close>), after flag parsing. A command's result is what it prints, or its error; writing
  to standard output does not fail here. \<open>cli\<close> holds what a command is given: the host, the environment,
  the outcomes of opening the remote services, and the peers of the control sockets.
\<close>

record ('w, 'l, 's) cli =
  cl_os :: "'w host"
  cl_env :: environ
  cl_parse :: url_parser
  cl_rnd :: "go_error + bytes"
  cl_stack :: stack_env
  cl_elog :: "klog \<Rightarrow> 'l event_log"
  cl_s3 :: "s3_config \<Rightarrow> 's object_store"
  cl_dial :: "string \<Rightarrow> go_error option"
  cl_deadline :: "string \<Rightarrow> go_error option"
  cl_exchange :: "string \<Rightarrow> bytes \<Rightarrow> go_error + bytes"
  cl_now :: "'w \<Rightarrow> int"
  cl_sleep :: "int \<Rightarrow> 'w \<Rightarrow> 'w"

record sharedFlags =
  sf_lowerPath :: string
  sf_lowerID :: string

record lower =
  lw_cfg :: config
  lw_path :: string
  lw_id :: string

section \<open>Resolving\<close>

definition resolveLocal :: "('w, 'l, 's) cli \<Rightarrow> sharedFlags \<Rightarrow> 'w \<Rightarrow> (go_error + lower) \<times> 'w" where
  "resolveLocal c f w =
     (case ConfigLoad (cl_parse c) (cl_env c) of
        (_, Some err) \<Rightarrow> (Inl err, w)
      | (cfg, None) \<Rightarrow>
          (case ResolveLower (cl_os c) (cl_env c) (cl_rnd c) (sf_lowerPath f) (sf_lowerID f) w of
             (Inl err, w') \<Rightarrow> (Inl err, w')
           | (Inr (p, i), w') \<Rightarrow> (Inr \<lparr>lw_cfg = cfg, lw_path = p, lw_id = i\<rparr>, w')))"

definition resolve_cli :: "('w, 'l, 's) cli \<Rightarrow> sharedFlags \<Rightarrow> 'w \<Rightarrow> (go_error + lower) \<times> 'w" where
  "resolve_cli c f w =
     (case resolveLocal c f w of
        (Inl err, w') \<Rightarrow> (Inl err, w')
      | (Inr lw, w') \<Rightarrow> (case Validate (lw_cfg lw) of Some err \<Rightarrow> (Inl err, w') | None \<Rightarrow> (Inr lw, w')))"

definition resolveStack :: "('w, 'l, 's) cli \<Rightarrow> sharedFlags \<Rightarrow> 'w \<Rightarrow> (go_error + lower \<times> 's stack) \<times> 'w" where
  "resolveStack c f w =
     (case resolve_cli c f w of
        (Inl err, w') \<Rightarrow> (Inl err, w')
      | (Inr lw, w') \<Rightarrow>
          (case NewStack (cl_s3 c) (cl_stack c) (lw_cfg lw) of Inl err \<Rightarrow> (Inl err, w') | Inr st \<Rightarrow> (Inr (lw, st), w')))"

definition resolveRegistry :: "('w, 'l, 's) cli \<Rightarrow> sharedFlags \<Rightarrow> 'w \<Rightarrow> (go_error + lower \<times> 's registry) \<times> 'w" where
  "resolveRegistry c f w =
     (case resolveLocal c f w of
        (Inl err, w') \<Rightarrow> (Inl err, w')
      | (Inr lw, w') \<Rightarrow>
          (case ValidateStorage (lw_cfg lw) of
             Some err \<Rightarrow> (Inl err, w')
           | None \<Rightarrow> (Inr (lw, registry_New (cl_s3 c) (lw_cfg lw)), w')))"

section \<open>Session commands\<close>

definition println :: "string \<Rightarrow> string" where
  "println s = s @ ''\<newline>''"

definition newCmd ::
    "('w, 'l, 's) cli \<Rightarrow> int \<Rightarrow> i64 \<Rightarrow> go_error + bytes \<Rightarrow> sharedFlags \<Rightarrow> 'w \<Rightarrow> 'l \<Rightarrow> 's \<Rightarrow> (go_error + string) \<times> 'w \<times> 'l \<times> 's" where
  "newCmd c now micros rnd f w l s =
     (case resolveStack c f w of
        (Inl err, w') \<Rightarrow> (Inl err, w', l, s)
      | (Inr (lw, st), w') \<Rightarrow>
          (case NewSession (cl_elog c (lo_parts (sk_Log st))) (sk_Reg st) now micros rnd (lw_id lw) l s of
             (Inl err, l', s') \<Rightarrow> (Inl err, w', l', s')
           | (Inr ss, l', s') \<Rightarrow> (Inr (println (sm_ID (Meta ss))), w', l', s')))"

definition branchCmd ::
    "('w, 'l, 's) cli \<Rightarrow> int \<Rightarrow> i64 \<Rightarrow> go_error + bytes \<Rightarrow> sharedFlags \<Rightarrow> string \<Rightarrow> i64 \<Rightarrow> 'w \<Rightarrow> 'l \<Rightarrow> 's \<Rightarrow>
     (go_error + string) \<times> 'w \<times> 'l \<times> 's" where
  "branchCmd c now micros rnd f parentID toOffset w l s =
     (case resolveStack c f w of
        (Inl err, w') \<Rightarrow> (Inl err, w', l, s)
      | (Inr (lw, st), w') \<Rightarrow>
          (case Branch (cl_elog c (lo_parts (sk_Log st))) (sk_Reg st) now micros rnd parentID toOffset (lw_id lw) l s of
             (Inl err, l', s') \<Rightarrow> (Inl err, w', l', s')
           | (Inr child, l', s') \<Rightarrow> (Inr (println (sm_ID (Meta child))), w', l', s')))"

definition lsCmd :: "('w, 'l, 's) cli \<Rightarrow> sharedFlags \<Rightarrow> 'w \<Rightarrow> 's \<Rightarrow> (go_error + string) \<times> 'w \<times> 's" where
  "lsCmd c f w s =
     (case resolveRegistry c f w of
        (Inl err, w') \<Rightarrow> (Inl err, w', s)
      | (Inr (lw, reg), w') \<Rightarrow>
          (case ListByLower reg (lw_id lw) s of
             (Inl err, s') \<Rightarrow> (Inl err, w', s')
           | (Inr ids, s') \<Rightarrow> (Inr (concat (map println ids)), w', s')))"

definition selectCmd :: "('w, 'l, 's) cli \<Rightarrow> sharedFlags \<Rightarrow> string \<Rightarrow> 'w \<Rightarrow> (go_error + string) \<times> 'w" where
  "selectCmd c f sid w =
     (case resolveLocal c f w of
        (Inl err, w') \<Rightarrow> (Inl err, w')
      | (Inr lw, w') \<Rightarrow>
          (case WriteSelected (cl_os c) (StateDir (lw_cfg lw)) (lw_id lw) sid w' of
             (Some err, w'') \<Rightarrow> (Inl err, w'')
           | (None, w'') \<Rightarrow> (Inr (println sid), w'')))"

section \<open>The serving daemon\<close>

fun live_session :: "'w host \<Rightarrow> string \<Rightarrow> (string \<times> bool) list \<Rightarrow> 'w \<Rightarrow> (string \<times> i64) option" where
  "live_session os dir [] w = None"
| "live_session os dir ((name, sub) # es) w =
     (if \<not> sub then live_session os dir es w
      else case ReadPidFile os (path_Join [dir, name, ''pid'']) w of
             Inl _ \<Rightarrow> live_session os dir es w
           | Inr pid \<Rightarrow> if IsAlive os pid w then Some (name, pid) else live_session os dir es w)"

definition currentDaemonSession :: "'w host \<Rightarrow> config \<Rightarrow> string \<Rightarrow> 'w \<Rightarrow> go_error + string \<times> i64" where
  "currentDaemonSession os cfg lid w =
     (let dir = path_Join [StateDir cfg, lid]
      in case ho_ReadDir os dir w of
           Inl err \<Rightarrow>
             if CNotExist \<in> set (ge_causes err)
             then Inl (plain_error (''no mount for lower '' @ quoted lid @ '' (state: '' @ dir @ '')''))
             else Inl (wrap_error (''read state dir '' @ dir) err)
         | Inr es \<Rightarrow>
             (case live_session os dir es w of
                Some r \<Rightarrow> Inr r
              | None \<Rightarrow> Inl (plain_error (''no live mount for lower '' @ quoted lid))))"

definition currentDaemonPid :: "'w host \<Rightarrow> config \<Rightarrow> string \<Rightarrow> 'w \<Rightarrow> go_error + i64" where
  "currentDaemonPid os cfg lid w =
     (case currentDaemonSession os cfg lid w of Inl err \<Rightarrow> Inl err | Inr (_, pid) \<Rightarrow> Inr pid)"

section \<open>umount\<close>

definition daemonShutdownTimeout :: int where
  "daemonShutdownTimeout = 30000000000"

definition daemonPollInterval :: int where
  "daemonPollInterval = 200000000"

text \<open>The wait for the daemon to exit; \<open>None\<close> when it never ends.\<close>

partial_function (option) wait_exit :: "('w, 'l, 's) cli \<Rightarrow> i64 \<Rightarrow> int \<Rightarrow> 'w \<Rightarrow> 'w option" where
  "wait_exit c pid deadline w =
     (if IsAlive (cl_os c) pid w \<and> cl_now c w < deadline
      then wait_exit c pid deadline (cl_sleep c daemonPollInterval w)
      else Some w)"

declare wait_exit.simps [code]

definition umountCmd :: "('w, 'l, 's) cli \<Rightarrow> sharedFlags \<Rightarrow> 'w \<Rightarrow> ((go_error + string) \<times> 'w) option" where
  "umountCmd c f w =
     (case resolveLocal c f w of
        (Inl err, w1) \<Rightarrow> Some (Inl err, w1)
      | (Inr lw, w1) \<Rightarrow>
          (case currentDaemonPid (cl_os c) (lw_cfg lw) (lw_id lw) w1 of
             Inl err \<Rightarrow> Some (Inl err, w1)
           | Inr pid \<Rightarrow>
               (case ho_Kill (cl_os c) pid 15 w1 of
                  (Some err, w2) \<Rightarrow> Some (Inl (wrap_error (''umount: signal '' @ Itoa pid) (errno_error err)), w2)
                | (None, w2) \<Rightarrow>
                    (case wait_exit c pid (cl_now c w2 + daemonShutdownTimeout) w2 of
                       None \<Rightarrow> None
                     | Some w3 \<Rightarrow>
                         if IsAlive (cl_os c) pid w3
                         then Some (Inl (plain_error (''umount: daemon pid '' @ Itoa pid @ '' still running after 30s'')), w3)
                         else Some (Inr (println ''unmounted''), w3)))))"

section \<open>status and checkpoint\<close>

definition ask_daemon :: "('w, 'l, 's) cli \<Rightarrow> lower \<Rightarrow> string \<Rightarrow> string \<Rightarrow> go_error + string" where
  "ask_daemon c lw sid command =
     (let path = ControlSocketPath (cl_os c) (cl_env c) (StateDir (lw_cfg lw)) (lw_id lw) sid
      in ControlRequest (cl_dial c path) (cl_deadline c path) (cl_exchange c path) command)"

definition status_seq :: "go_error + string \<Rightarrow> string" where
  "status_seq reply =
     (case reply of
        Inl _ \<Rightarrow> ''?''
      | Inr r \<Rightarrow>
          let f = Fields r
          in if 3 \<le> length f \<and> f ! 0 = ''status'' then f ! 2 else ''?'')"

definition statusCmd :: "('w, 'l, 's) cli \<Rightarrow> sharedFlags \<Rightarrow> 'w \<Rightarrow> (go_error + string) \<times> 'w" where
  "statusCmd c f w =
     (case resolveLocal c f w of
        (Inl err, w') \<Rightarrow> (Inl err, w')
      | (Inr lw, w') \<Rightarrow>
          (case currentDaemonSession (cl_os c) (lw_cfg lw) (lw_id lw) w' of
             Inl err \<Rightarrow> (Inl err, w')
           | Inr (sid, pid) \<Rightarrow>
               if \<not> IsAlive (cl_os c) pid w'
               then (Inl (plain_error (''status: daemon pid '' @ Itoa pid @ '' not running'')), w')
               else (Inr (println (''mounted: session '' @ sid @ '' pid '' @ Itoa pid @ '' seq '' @
                       status_seq (ask_daemon c lw sid ''status''))), w')))"

text \<open>The session to checkpoint, and what a live daemon answered.\<close>

definition checkpoint_target ::
    "('w, 'l, 's) cli \<Rightarrow> lower \<Rightarrow> string option \<Rightarrow> 'w \<Rightarrow> go_error + string \<times> string option" where
  "checkpoint_target c lw arg w =
     (case arg of
        Some sid \<Rightarrow> Inr (sid, None)
      | None \<Rightarrow>
          (case currentDaemonSession (cl_os c) (lw_cfg lw) (lw_id lw) w of
             Inl err \<Rightarrow> Inl (wrap_error ''checkpoint'' err)
           | Inr (sid, _) \<Rightarrow>
               Inr (sid, case ask_daemon c lw sid ''checkpoint'' of
                           Inl _ \<Rightarrow> None
                         | Inr reply \<Rightarrow> if HasPrefix reply ''offset '' then Some (trim_prefix reply ''offset '') else None)))"

definition checkpointCmd ::
    "('w, 'l, 's) cli \<Rightarrow> sharedFlags \<Rightarrow> string option \<Rightarrow> 'w \<Rightarrow> 'l \<Rightarrow> 's \<Rightarrow> (go_error + string) \<times> 'w \<times> 's" where
  "checkpointCmd c f arg w l s =
     (case resolveLocal c f w of
        (Inl err, w') \<Rightarrow> (Inl err, w', s)
      | (Inr lw, w') \<Rightarrow>
          (case checkpoint_target c lw arg w' of
             Inl err \<Rightarrow> (Inl err, w', s)
           | Inr (_, Some off) \<Rightarrow> (Inr (println off), w', s)
           | Inr (sid, None) \<Rightarrow>
               (case Validate (lw_cfg lw) of
                  Some err \<Rightarrow> (Inl err, w', s)
                | None \<Rightarrow>
                    (case NewStack (cl_s3 c) (cl_stack c) (lw_cfg lw) of
                       Inl err \<Rightarrow> (Inl err, w', s)
                     | Inr st \<Rightarrow>
                         (case CheckpointSession (cl_elog c (lo_parts (sk_Log st))) (sk_Reg st) sid (lw_id lw) l s of
                            (Inl err, s') \<Rightarrow> (Inl err, w', s')
                          | (Inr off, s') \<Rightarrow> (Inr (println (Itoa off)), w', s'))))))"

section \<open>mount\<close>

definition mount_session :: "('w, 'l, 's) cli \<Rightarrow> lower \<Rightarrow> string option \<Rightarrow> 'w \<Rightarrow> go_error + string" where
  "mount_session c lw arg w =
     (case arg of
        Some sid \<Rightarrow> Inr sid
      | None \<Rightarrow> ReadSelected (cl_os c) (StateDir (lw_cfg lw)) (lw_id lw) w)"

text \<open>
  \<^verbatim>\<open>serve\<close>: open or create the session, then run the mount. \<open>lenv\<close> holds the outcomes of the run's calls;
  \<open>ready\<close> is the outcome of writing the session id to the waiting parent (\<open>None\<close>: no file). The control socket
  is always asked for. The result has the actions of the run.
\<close>

definition serve ::
    "'l event_log \<Rightarrow> 's registry \<Rightarrow> int \<Rightarrow> i64 \<Rightarrow> go_error + bytes \<Rightarrow> 's lc_env \<Rightarrow> go_error option option \<Rightarrow> string \<Rightarrow> string \<Rightarrow> string \<Rightarrow>
     'l \<Rightarrow> 's \<Rightarrow> go_error option \<times> action list \<times> 'l \<times> 's" where
  "serve elog reg now micros rnd lenv ready stateDir sid lid l s =
     (case (if sid = [] then NewSession elog reg now micros rnd lid l s
            else case OpenSession elog reg sid lid l s of (res, s') \<Rightarrow> (res, l, s')) of
        (Inl err, l', s') \<Rightarrow> (Some err, [], l', s')
      | (Inr ss, l', s') \<Rightarrow>
          let onReady = (case ready of Some (Some err) \<Rightarrow> Some (Some (wrap_error ''mount: signal readiness'' err)) | _ \<Rightarrow> Some None)
          in case run reg (sm_ID (Meta ss)) (lenv\<lparr>en_pidFile := PidFilePath stateDir ss, en_control := (case en_control lenv of None \<Rightarrow> Some None | r \<Rightarrow> r),
                      en_onReady := onReady\<rparr>)
                    (new_lifecycle s') of
               (err, lc) \<Rightarrow> (err, lc_trace lc, l', lc_store lc))"

text \<open>The serving half of \<^verbatim>\<open>runMount\<close>: the backgrounded child, or \<^verbatim>\<open>--foreground\<close>.\<close>

definition runMount_serve ::
    "('w, 'l, 's) cli \<Rightarrow> int \<Rightarrow> i64 \<Rightarrow> go_error + bytes \<Rightarrow> 's lc_env \<Rightarrow> go_error option option \<Rightarrow> sharedFlags \<Rightarrow> string option \<Rightarrow>
     'w \<Rightarrow> 'l \<Rightarrow> 's \<Rightarrow> go_error option \<times> action list \<times> 'w \<times> 'l \<times> 's" where
  "runMount_serve c now micros rnd lenv ready f arg w l s =
     (case resolveStack c f w of
        (Inl err, w') \<Rightarrow> (Some err, [], w', l, s)
      | (Inr (lw, st), w') \<Rightarrow>
          (case mount_session c lw arg w' of
             Inl err \<Rightarrow> (Some err, [], w', l, s)
           | Inr sid \<Rightarrow>
               (case serve (cl_elog c (lo_parts (sk_Log st))) (sk_Reg st) now micros rnd lenv ready (StateDir (lw_cfg lw)) sid (lw_id lw) l s of
                  (err, acts, l', s') \<Rightarrow> (err, acts, w', l', s'))))"

text \<open>The waiting half: the arguments of the child, and the end of the log of a child that failed.\<close>

definition childArgs :: "string \<Rightarrow> sharedFlags \<Rightarrow> string \<Rightarrow> string list" where
  "childArgs sid f lid =
     [''mount''] @ (if sid \<noteq> [] then [sid] else []) @
     [''--foreground'', ''--lower'', sf_lowerPath f, ''--lower-id'', lid]"

definition tailFile :: "go_error + bytes \<Rightarrow> nat \<Rightarrow> nat \<Rightarrow> string" where
  "tailFile content start n =
     (case content of
        Inl _ \<Rightarrow> []
      | Inr d \<Rightarrow>
          if length d \<le> start then []
          else let nonEmpty = filter (\<lambda>line. TrimSpace line \<noteq> []) (split_at (CHR ''\<newline>'') (drop start d));
                   tail = (if n < length nonEmpty then drop (length nonEmpty - n) nonEmpty else nonEmpty)
               in join_with ''\<newline>'' tail)"

definition fileSize :: "go_error + nat \<Rightarrow> nat" where
  "fileSize st = (case st of Inl _ \<Rightarrow> 0 | Inr n \<Rightarrow> n)"

text \<open>The retries while the log is still empty: \<open>tails i\<close> is the \<open>i\<close>-th reading.\<close>

fun await_tail :: "(nat \<Rightarrow> string) \<Rightarrow> nat \<Rightarrow> nat \<Rightarrow> string" where
  "await_tail tails i 0 = tails i"
| "await_tail tails i (Suc k) = (if tails i \<noteq> [] then tails i else await_tail tails (Suc i) k)"

definition runMount_parent ::
    "go_error option \<Rightarrow> go_error + i64 \<Rightarrow> go_error option \<Rightarrow> go_error + bytes \<Rightarrow> (nat \<Rightarrow> string) \<Rightarrow> go_error + string" where
  "runMount_parent pipe detach deadline ready tails =
     (case pipe of
        Some err \<Rightarrow> Inl err
      | None \<Rightarrow>
          (case detach of
             Inl err \<Rightarrow> Inl err
           | Inr pid \<Rightarrow>
               (case deadline of
                  Some err \<Rightarrow> Inl (wrap_error ''mount: set ready deadline'' err)
                | None \<Rightarrow>
                    (case ready of
                       Inr buf \<Rightarrow> Inr (take 256 buf)
                     | Inl err \<Rightarrow>
                         let tail = await_tail tails 0 20;
                             e = wrap_error (''mount: child failed to start (pid '' @ Itoa pid @ '')'') err
                         in Inl (if tail \<noteq> [] then e\<lparr>ge_msg := ge_msg e @ ''\<newline>'' @ tail\<rparr> else e)))))"

end
