(* ===== verification/Lifecycle_Props.thy ===== *)
theory Lifecycle_Props
  imports Lifecycle Registry_Props Session_Props
begin

text \<open>
  The order of a mount run: acquisition and release, on every exit path; and what the heartbeat does when
  another writer holds the lease.
\<close>

section \<open>Order\<close>






lemma act_fields [simp]:
  "lc_trace (act a lc) = lc_trace lc @ [a]" "lc_token (act a lc) = lc_token lc" "lc_bg (act a lc) = lc_bg lc"
  "lc_handle (act a lc) = lc_handle lc" "lc_pidWritten (act a lc) = lc_pidWritten lc" "lc_stopCtl (act a lc) = lc_stopCtl lc"
  "lc_stopSig (act a lc) = lc_stopSig lc" "lc_released (act a lc) = lc_released lc"
  by (simp_all add: act_def)













section \<open>The heartbeat\<close>





end
