(* ===== verification/Daemon_Props.thy ===== *)
theory Daemon_Props
  imports Daemon Lifecycle_Props
begin

text \<open>
  The daemon's local state: what it writes it reads back, so lower ids, the selected session and pidfiles
  survive from one process to the next; and where the control socket lives.
\<close>

section \<open>The contract of the host\<close>

locale local_host =
  fixes os :: "'w host"
  assumes write_read: "ho_WriteFile os p b perm w = (None, w') \<Longrightarrow> ho_ReadFile os p w' = Inr b"
begin

lemma write_under_dir_read: "write_under_dir os p b w = (None, w') \<Longrightarrow> ho_ReadFile os p w' = Inr b"
  by (auto simp: write_under_dir_def dest: write_read split: prod.splits option.splits)

lemma selected_read_back:
  assumes "WriteSelected os dir lid sid w = (None, w')" and "valid_id sid"
  shows "ReadSelected os dir lid w' = Inr sid"
proof -
  have "sid \<noteq> [] \<and> (\<forall>c\<in>set sid. graphic c)" using assms(2) graphic_id by (auto simp: valid_id_def)
  then show ?thesis using assms(1) TrimSpace_words [of sid]
    by (simp add: WriteSelected_def ReadSelected_def write_under_dir_read)
qed

lemma pid_read_back: "WritePidFile os p pid w = (None, w') \<Longrightarrow> ReadPidFile os p w' = Inr pid"
  using TrimSpace_words [of "Itoa pid"] graphic_Itoa
  by (simp add: WritePidFile_def ReadPidFile_def write_under_dir_read)

lemma minted_read_back:
  assumes "mint_lower os rnd dir w = (Inr (dir', i), w')"
  shows "dir' = dir \<and> i \<noteq> [] \<and> marker_candidate os dir w' = Inr i"
proof -
  obtain b where b: "rnd = Inr b" "i = ''lower-'' @ EncodeToString b" "dir' = dir"
      "ho_WriteFile os (lower_marker dir) i 0x1A4 w = (None, w')"
    using assms by (auto simp: mint_lower_def Let_def split: sum.splits prod.splits option.splits)
  have "graphic c" if "c \<in> set i" for c
    using that EncodeToString_hex(2) by (force simp: b(2) graphic_def hex_char_def byte_in_def)
  then have "TrimSpace i = i" using TrimSpace_words [of i] b(2) by auto
  then show ?thesis using b write_read [OF b(4)] by (simp add: marker_candidate_def)
qed

lemma ResolveLower_again:
  assumes "ResolveLower os env rnd lower flag w = (Inr (dir, i), w')"
  shows "ResolveLower os env rnd' lower flag w' = (Inr (dir, i), w')"
  using assms minted_read_back
  by (fastforce simp: ResolveLower_def Let_def split: sum.splits if_splits)

end

section \<open>A disk in memory\<close>

record disk =
  dk_files :: "(string, bytes) fmap"
  dk_dirs :: "(string, i64 \<times> nat) fmap" \<comment> \<open>owner and permission bits\<close>
  dk_procs :: "i64 list"
  dk_clock :: int

definition not_exist :: go_error where
  "not_exist = \<lparr>ge_causes = [CNotExist, CErrno ENOENT], ge_msg = ''no such file or directory''\<rparr>"

definition disk_mkdirs :: "i64 \<Rightarrow> nat \<Rightarrow> string \<Rightarrow> disk \<Rightarrow> disk" where
  "disk_mkdirs uid perm p d =
     foldl (\<lambda>d q. if fmlookup (dk_dirs d) q = None then d\<lparr>dk_dirs := fmupd q (uid, perm) (dk_dirs d)\<rparr> else d) d
       (map (\<lambda>n. take n p) (filter (\<lambda>n. n = length p \<or> p ! n = slash) [1 ..< length p + 1]))"

definition disk_entries :: "string \<Rightarrow> string list \<Rightarrow> string list" where
  "disk_entries dir ps =
     filter (\<lambda>n. n \<noteq> [] \<and> slash \<notin> set n)
       (map (drop (length dir + 1)) (filter (\<lambda>p. prefix (dir @ ''/'') p) ps))"

definition disk_os :: "i64 \<Rightarrow> string \<Rightarrow> disk host" where
  "disk_os uid wd = \<lparr>ho_uid = uid, ho_Getwd = Inr wd,
     ho_ReadFile = (\<lambda>p d. case fmlookup (dk_files d) p of None \<Rightarrow> Inl not_exist | Some b \<Rightarrow> Inr b),
     ho_WriteFile = (\<lambda>p b perm d.
       if fmlookup (dk_dirs d) (path_Dir p) = None then (Some not_exist, d)
       else (None, d\<lparr>dk_files := fmupd p b (dk_files d)\<rparr>)),
     ho_MkdirAll = (\<lambda>p perm d. (None, disk_mkdirs uid perm p d)),
     ho_Remove = (\<lambda>p d.
       if fmlookup (dk_files d) p = None then (Some not_exist, d) else (None, d\<lparr>dk_files := fmdrop p (dk_files d)\<rparr>)),
     ho_Chmod = (\<lambda>p perm d. (if fmlookup (dk_files d) p = None then Some not_exist else None, d)),
     ho_Stat = (\<lambda>p d. case fmlookup (dk_dirs d) p of None \<Rightarrow> Inl not_exist | Some i \<Rightarrow> Inr i),
     ho_ReadDir = (\<lambda>p d.
       if fmlookup (dk_dirs d) p = None then Inl not_exist
       else Inr (map (\<lambda>n. (n, True)) (disk_entries p (keys_of (dk_dirs d))) @
                 map (\<lambda>n. (n, False)) (disk_entries p (keys_of (dk_files d))))),
     ho_Listen = (\<lambda>p d. if fmlookup (dk_dirs d) (path_Dir p) = None then (Some not_exist, d)
       else (None, d\<lparr>dk_files := fmupd p [] (dk_files d)\<rparr>)),
     ho_Kill = (\<lambda>pid sig d. if pid \<notin> set (dk_procs d) then (Some (EOther 3), d)
       else (None, if sig = 0 then d else d\<lparr>dk_procs := removeAll pid (dk_procs d)\<rparr>))\<rparr>"

interpretation dsk: local_host "disk_os uid wd" for uid wd
  by unfold_locales (auto simp: disk_os_def split: if_splits)

section \<open>What survives a process\<close>


definition sample_disk :: disk where
  "sample_disk = \<lparr>dk_files = fmempty, dk_dirs = fmap_of_list [(''/w'', (1000, 493)), (''/st'', (1000, 448))],
     dk_procs = [42], dk_clock = 0\<rparr>"

abbreviation sample_os :: "disk host" where
  "sample_os \<equiv> disk_os 1000 ''/''"


text \<open>
  Local state reads back as it was written. The session selected last is the one a later mount reads,
  when its id is a well-formed one, and the pid in a pidfile is the pid that was written, for every pid.
\<close>

theorem local_state_roundtrip:
  assumes "local_host os"
  shows "(WriteSelected os dir lid sid w = (None, w') \<and> ValidateID kind sid = None \<longrightarrow>
      ReadSelected os dir lid w' = Inr sid) \<and>
    (WritePidFile os p pid v = (None, v') \<longrightarrow> ReadPidFile os p v' = Inr pid)"
  using local_host.selected_read_back [OF assms] local_host.pid_read_back [OF assms] by (auto simp: ValidateID_None)

theorem local_state_roundtrip_witness:
  "\<exists>w' w''. WriteSelected sample_os ''/st'' ''low'' ''s1'' sample_disk = (None, w') \<and> ReadSelected sample_os ''/st'' ''low'' w' = Inr ''s1'' \<and>
     WritePidFile sample_os ''/st/low/s1/pid'' 42 w' = (None, w'') \<and> ReadPidFile sample_os ''/st/low/s1/pid'' w'' = Inr 42"
proof -
  let ?a = "WriteSelected sample_os ''/st'' ''low'' ''s1'' sample_disk"
  let ?b = "WritePidFile sample_os ''/st/low/s1/pid'' 42 (snd ?a)"
  have ok: "fst ?a = None" "fst ?b = None" "ValidateID [] ''s1'' = None" by code_simp+
  then have w: "?a = (None, snd ?a)" "?b = (None, snd ?b)" by (simp_all add: prod_eq_iff)
  have "ReadSelected sample_os ''/st'' ''low'' (snd ?a) = Inr ''s1'' \<and> ReadPidFile sample_os ''/st/low/s1/pid'' (snd ?b) = Inr 42"
    using local_state_roundtrip [OF dsk.local_host_axioms] w ok(3) by blast
  with w show ?thesis by blast
qed

section \<open>The control socket\<close>






end
