(* ===== verification/Cli_Props.thy ===== *)
theory Cli_Props
  imports Cli Daemon_Props
begin

text \<open>
  What the commands promise: umount ends, status and checkpoint understand the daemon, mount serves the
  session that was selected.
\<close>

section \<open>umount\<close>

definition clock_advances :: "('w, 'l, 's) cli \<Rightarrow> bool" where
  "clock_advances c \<longleftrightarrow> (\<forall>w. cl_now c w + daemonPollInterval \<le> cl_now c (cl_sleep c daemonPollInterval w))"

lemma wait_exit_bound:
  assumes "clock_advances c" and "deadline \<le> cl_now c w + int k * daemonPollInterval"
  shows "\<exists>n\<le>k. wait_exit c pid deadline w = Some ((cl_sleep c daemonPollInterval ^^ n) w) \<and>
    (let w' = (cl_sleep c daemonPollInterval ^^ n) w in \<not> IsAlive (cl_os c) pid w' \<or> deadline \<le> cl_now c w')"
  using assms(2)
proof (induction k arbitrary: w)
  case 0
  then show ?case by (subst wait_exit.simps) auto
next
  case (Suc k)
  let ?w = "cl_sleep c daemonPollInterval w"
  show ?case
  proof (cases "IsAlive (cl_os c) pid w \<and> cl_now c w < deadline")
    case True
    have "cl_now c w + daemonPollInterval \<le> cl_now c ?w" using assms(1) by (simp add: clock_advances_def)
    then have "deadline \<le> cl_now c ?w + int k * daemonPollInterval" using Suc.prems by (simp add: algebra_simps)
    from Suc.IH [OF this] obtain n where "n \<le> k" "wait_exit c pid deadline ?w = Some ((cl_sleep c daemonPollInterval ^^ n) ?w)"
        "let w' = (cl_sleep c daemonPollInterval ^^ n) ?w in \<not> IsAlive (cl_os c) pid w' \<or> deadline \<le> cl_now c w'" by blast
    then show ?thesis using True
      by (intro exI [of _ "Suc n"]) (subst wait_exit.simps, simp add: funpow_swap1)
  next
    case False
    then show ?thesis by (intro exI [of _ 0]) (subst wait_exit.simps, auto)
  qed
qed

text \<open>
  C19. umount always ends. When sleeping advances the clock by at least the time slept, the command returns,
  after at most 150 polls of the daemon it signalled; it reports success only when that daemon is gone.
\<close>

theorem umount_terminates:
  assumes "clock_advances c"
  shows "\<exists>res w'. umountCmd c f w = Some (res, w') \<and>
    (\<forall>out. res = Inr out \<longrightarrow> (\<exists>lw w1 pid w2 n. resolveLocal c f w = (Inr lw, w1) \<and>
      currentDaemonPid (cl_os c) (lw_cfg lw) (lw_id lw) w1 = Inr pid \<and> ho_Kill (cl_os c) pid 15 w1 = (None, w2) \<and>
      n \<le> 150 \<and> w' = (cl_sleep c daemonPollInterval ^^ n) w2 \<and> \<not> IsAlive (cl_os c) pid w'))"
proof (cases "resolveLocal c f w")
  case (Pair r w1)
  show ?thesis
  proof (cases r)
    case (Inr lw)
    note r = Pair [unfolded Inr]
    show ?thesis
    proof (cases "currentDaemonPid (cl_os c) (lw_cfg lw) (lw_id lw) w1")
      case (Inr pid)
      obtain e w2 where k: "ho_Kill (cl_os c) pid 15 w1 = (e, w2)" by fastforce
      show ?thesis
      proof (cases e)
        case None
        have "cl_now c w2 + daemonShutdownTimeout \<le> cl_now c w2 + int 150 * daemonPollInterval"
          by (simp add: daemonShutdownTimeout_def daemonPollInterval_def)
        from wait_exit_bound [OF assms this, of pid] obtain n where n: "n \<le> 150"
            "wait_exit c pid (cl_now c w2 + daemonShutdownTimeout) w2 = Some ((cl_sleep c daemonPollInterval ^^ n) w2)" by blast
        define w3 where "w3 = (cl_sleep c daemonPollInterval ^^ n) w2"
        have u: "umountCmd c f w = Some (if IsAlive (cl_os c) pid w3
            then Inl (plain_error (''umount: daemon pid '' @ Itoa pid @ '' still running after 30s'')) else Inr (println ''unmounted''), w3)"
          unfolding umountCmd_def r prod.case sum.case Inr k None option.case n(2) w3_def by simp
        show ?thesis
        proof (intro exI conjI)
          show "umountCmd c f w = Some (if IsAlive (cl_os c) pid w3
            then Inl (plain_error (''umount: daemon pid '' @ Itoa pid @ '' still running after 30s'')) else Inr (println ''unmounted''), w3)"
            by (rule u)
          show "\<forall>out. (if IsAlive (cl_os c) pid w3
              then Inl (plain_error (''umount: daemon pid '' @ Itoa pid @ '' still running after 30s'')) else Inr (println ''unmounted'')) =
              Inr out \<longrightarrow> (\<exists>lw w1 pid w2 n. resolveLocal c f w = (Inr lw, w1) \<and>
              currentDaemonPid (cl_os c) (lw_cfg lw) (lw_id lw) w1 = Inr pid \<and> ho_Kill (cl_os c) pid 15 w1 = (None, w2) \<and>
              n \<le> 150 \<and> w3 = (cl_sleep c daemonPollInterval ^^ n) w2 \<and> \<not> IsAlive (cl_os c) pid w3)"
            using r Inr k None n(1) w3_def by (metis Inl_Inr_False)
        qed
      qed (simp add: umountCmd_def r Inr k)
    qed (simp add: umountCmd_def r)
  qed (simp add: umountCmd_def Pair)
qed

definition cli_environ :: environ where
  "cli_environ k = (if k = ''KF_STATE_DIR'' then ''/st'' else if k = ''KF_LOWER_ID'' then ''low'' else [])"

definition sample_cli :: "(disk, envelope list, s3fake) cli" where
  "sample_cli = \<lparr>cl_os = sample_os, cl_env = cli_environ, cl_parse = sample_parse, cl_rnd = Inr ''ab'',
     cl_stack = \<lparr>se_validate = (\<lambda>_. None), se_parts = Inr [0]\<rparr>, cl_elog = (\<lambda>_. sample_log),
     cl_s3 = (\<lambda>_. fake_store), cl_dial = (\<lambda>_. None), cl_deadline = (\<lambda>_. None),
     cl_exchange = (\<lambda>_ req. Inr (fst (handleControl sample_registry False (- 1) None req sample_session sample_fake))),
     cl_now = dk_clock, cl_sleep = (\<lambda>t d. d\<lparr>dk_clock := dk_clock d + t\<rparr>)\<rparr>"

definition sample_flags :: sharedFlags where
  "sample_flags = \<lparr>sf_lowerPath = ''/w'', sf_lowerID = []\<rparr>"

text \<open>A disk on which process 42 serves session \<^verbatim>\<open>s1\<close>.\<close>

definition served_disk :: disk where
  "served_disk = sample_disk\<lparr>dk_files := fmap_of_list [(''/st/low/s1/pid'', ''42'')],
     dk_dirs := fmap_of_list [(''/w'', (1000, 493)), (''/st'', (1000, 448)), (''/st/low'', (1000, 493)), (''/st/low/s1'', (1000, 493))]\<rparr>"

abbreviation sample_lower :: lower where
  "sample_lower \<equiv> \<lparr>lw_cfg = fst (ConfigLoad sample_parse cli_environ), lw_path = ''/w'', lw_id = ''low''\<rparr>"

lemma sample_resolved: "resolveLocal sample_cli sample_flags w = (Inr sample_lower, w)"
proof -
  have "local_env_ok sample_parse cli_environ" by (simp add: local_env_ok_def cli_environ_def trim_right_slash_def valid_id_def
      maxIDLen_def id_char_def byte_in_def)
  then obtain cfg where "ConfigLoad sample_parse cli_environ = (cfg, None)"
    by (metis ConfigLoad_None prod.collapse)
  moreover have "path_Clean ''/w'' = ''/w''" by code_simp
  ultimately show ?thesis
    by (simp add: resolveLocal_def sample_cli_def sample_flags_def ResolveLower_def path_Abs_def cli_environ_def [of "''KF_LOWER_ID''"])
qed

lemma sample_state_dir: "StateDir (lw_cfg sample_lower) = ''/st''"
  by (simp add: ConfigLoad_fields stateDirFromEnv_def cli_environ_def)

lemma sample_live: "currentDaemonSession sample_os (lw_cfg sample_lower) ''low'' served_disk = Inr (''s1'', 42)"
proof -
  have "path_Join [''/st'', ''low''] = ''/st/low''" by code_simp
  moreover have "(case ho_ReadDir sample_os ''/st/low'' served_disk of Inr es \<Rightarrow> es | Inl _ \<Rightarrow> []) = [(''s1'', True)]"
    "isl (ho_ReadDir sample_os ''/st/low'' served_disk) = False" by code_simp+
  then have "ho_ReadDir sample_os ''/st/low'' served_disk = Inr [(''s1'', True)]" by (simp split: sum.splits)
  moreover have "live_session sample_os ''/st/low'' [(''s1'', True)] served_disk = Some (''s1'', 42)" by code_simp
  ultimately show ?thesis by (simp add: currentDaemonSession_def sample_state_dir [simplified] Let_def)
qed

theorem umount_terminates_witness:
  "\<exists>w'. umountCmd sample_cli sample_flags served_disk = Some (Inr (println ''unmounted''), w') \<and> \<not> IsAlive sample_os 42 w'"
proof -
  have "clock_advances sample_cli" by (simp add: clock_advances_def sample_cli_def)
  from umount_terminates [OF this, of sample_flags served_disk] obtain res w' where
    u: "umountCmd sample_cli sample_flags served_disk = Some (res, w')" by blast
  have os: "cl_os sample_cli = sample_os" by (simp add: sample_cli_def)
  have pid: "currentDaemonPid sample_os (lw_cfg sample_lower) ''low'' served_disk = Inr 42"
    using sample_live by (simp add: currentDaemonPid_def)
  obtain e w2 where k: "ho_Kill sample_os 42 15 served_disk = (e, w2)" by fastforce
  have "fst (ho_Kill sample_os 42 15 served_disk) = None \<and> \<not> IsAlive sample_os 42 (snd (ho_Kill sample_os 42 15 served_disk))"
    by code_simp
  then have dead: "e = None" "\<not> IsAlive sample_os 42 w2" using k by simp_all
  then have "wait_exit sample_cli 42 d w2 = Some w2" for d by (subst wait_exit.simps) (simp add: os)
  then have "umountCmd sample_cli sample_flags served_disk = Some (Inr (println ''unmounted''), w2)"
    using k dead pid by (simp add: umountCmd_def sample_resolved os)
  then show ?thesis using u dead by simp
qed

section \<open>Finding the daemon\<close>

definition runs :: "'w host \<Rightarrow> string \<Rightarrow> 'w \<Rightarrow> string \<Rightarrow> i64 \<Rightarrow> bool" where
  "runs os dir w sid pid \<longleftrightarrow> ReadPidFile os (path_Join [dir, sid, ''pid'']) w = Inr pid \<and> IsAlive os pid w"

lemma live_session_spec:
  "live_session os dir es w = Some (sid, pid) \<Longrightarrow> (sid, True) \<in> set es \<and> runs os dir w sid pid"
  "live_session os dir es w = None \<Longrightarrow> (sid, True) \<in> set es \<Longrightarrow> \<not> runs os dir w sid pid"
  by (induction es) (auto simp: runs_def split: if_splits sum.splits)

section \<open>Talking to the daemon\<close>

lemma trim_runes_suffix: "suffix (trim_runes rs s) s"
proof (induction rs s rule: trim_runes.induct)
  case (1 rs s)
  show ?case
  proof (cases "leading rs s")
    case (Some r)
    have "suffix (drop (length r) s) s" by (rule suffix_drop)
    then show ?thesis using 1 [OF Some] unfolding trim_runes_Some [OF Some] by (rule suffix_order.trans [rotated])
  qed (simp add: trim_runes_None)
qed

lemma TrimSpace_prefix: "graphic (hd s) \<Longrightarrow> prefix (TrimSpace s) s"
  using trim_runes_suffix [of "map rev space_runes" "rev s"]
  by (simp add: TrimSpace_def trim_runes_None leading_graphic suffix_to_prefix)

lemma read_line_line: "CHR ''\<newline>'' \<notin> set s \<Longrightarrow> read_line (s @ ''\<newline>'') = Some (s @ ''\<newline>'')"
  by (auto simp: read_line_def takeWhile_append)

lemma graphic_no_newline: "\<forall>c\<in>set s. graphic c \<or> c = CHR '' '' \<Longrightarrow> CHR ''\<newline>'' \<notin> set s"
  by (auto simp: graphic_def byte_in_def)

text \<open>A line of words, as the other side reads it.\<close>

lemma words_line:
  assumes "s \<noteq> []" "\<forall>c\<in>set s. graphic c \<or> c = CHR '' ''" "graphic (hd s)" "graphic (last s)"
  shows "read_line (s @ ''\<newline>'') = Some (s @ ''\<newline>'') \<and> TrimSpace (s @ ''\<newline>'') = s"
  using assms by (simp add: read_line_line graphic_no_newline TrimSpace_line)

lemma request_read:
  assumes "cmd \<in> {''status'', ''checkpoint''}"
  shows "read_line (take maxControlLine (cmd @ ''\<newline>'')) = Some (cmd @ ''\<newline>'')" and "TrimSpace (cmd @ ''\<newline>'') = cmd"
proof -
  have g: "\<forall>cmd\<in>{''status'', ''checkpoint''}. cmd \<noteq> [] \<and> (\<forall>c\<in>set cmd. graphic c)" by code_simp
  then have w: "read_line (cmd @ ''\<newline>'') = Some (cmd @ ''\<newline>'') \<and> TrimSpace (cmd @ ''\<newline>'') = cmd"
    using assms by (intro words_line) auto
  moreover have "length cmd \<le> 10" using assms by auto
  then have "take maxControlLine (cmd @ ''\<newline>'') = cmd @ ''\<newline>''" by (simp add: maxControlLine_def)
  ultimately show "read_line (take maxControlLine (cmd @ ''\<newline>'')) = Some (cmd @ ''\<newline>'')" "TrimSpace (cmd @ ''\<newline>'') = cmd"
    by simp_all
qed

lemma status_reply:
  assumes "valid_id (sm_ID (Meta ss))"
  shows "status_seq (ControlRequest None None (\<lambda>req. Inr (fst (handleControl reg dv known None req ss s))) ''status'') =
    fmt_u64 (seqLast (s_upper ss))"
proof -
  let ?i = "sm_ID (Meta ss)" and ?n = "fmt_u64 (seqLast (s_upper ss))"
  let ?r = "''status '' @ ?i @ '' '' @ ?n"
  have st: "\<forall>c\<in>set ''status''. graphic c" by code_simp
  have i: "?i \<noteq> []" "\<forall>c\<in>set ?i. graphic c" using assms graphic_id by (auto simp: valid_id_def)
  have n: "?n \<noteq> []" "\<forall>c\<in>set ?n. graphic c" using graphic_digits by (auto simp: fmt_u64_def)
  have "fst (handleControl reg dv known None (''status'' @ ''\<newline>'') ss s) = ?r @ ''\<newline>''"
    using request_read [of "''status''"] by (simp add: handleControl_def)
  moreover have "read_line (?r @ ''\<newline>'') = Some (?r @ ''\<newline>'') \<and> TrimSpace (?r @ ''\<newline>'') = ?r"
    using st i n by (intro words_line) auto
  moreover have "Fields ?r = [''status'', ?i, ?n]"
    using Fields_three [of "''status''" ?i ?n] st i n by auto
  ultimately show ?thesis by (simp add: ControlRequest_def status_seq_def Let_def)
qed

lemma checkpoint_reply:
  "ControlRequest None None (\<lambda>req. Inr (fst (handleControl reg dv known None req ss s))) ''checkpoint'' = Inr reply \<Longrightarrow>
   (case fst (Checkpoint reg dv known ss s) of
      Inr off \<Rightarrow> reply = ''offset '' @ Itoa off
    | Inl _ \<Rightarrow> \<not> HasPrefix reply ''offset '')"
  and checkpoint_answered:
  "\<exists>reply. ControlRequest None None (\<lambda>req. Inr (fst (handleControl reg dv known None req ss s))) ''checkpoint'' = Inr reply"
proof -
  let ?res = "fst (Checkpoint reg dv known ss s)"
  let ?line = "case ?res of Inr off \<Rightarrow> ''offset '' @ Itoa off | Inl err \<Rightarrow> ''error '' @ ge_msg err"
  have h: "fst (handleControl reg dv known None (''checkpoint'' @ ''\<newline>'') ss s) = ?line @ ''\<newline>''"
    using request_read [of "''checkpoint''"] by (simp add: handleControl_def split: prod.split sum.split)
  obtain r where r: "read_line (?line @ ''\<newline>'') = Some r" by (simp add: read_line_def)
  have c: "ControlRequest None None (\<lambda>req. Inr (fst (handleControl reg dv known None req ss s))) ''checkpoint'' = Inr (TrimSpace r)"
    unfolding ControlRequest_def option.case sum.case h r ..
  then show "\<exists>reply. ControlRequest None None (\<lambda>req. Inr (fst (handleControl reg dv known None req ss s))) ''checkpoint'' = Inr reply" ..
  assume "ControlRequest None None (\<lambda>req. Inr (fst (handleControl reg dv known None req ss s))) ''checkpoint'' = Inr reply"
  with c have reply: "reply = TrimSpace r" by simp
  show "case ?res of Inr off \<Rightarrow> reply = ''offset '' @ Itoa off | Inl _ \<Rightarrow> \<not> HasPrefix reply ''offset ''"
  proof (cases ?res)
    case (Inr off)
    have "\<forall>c\<in>set ''offset''. graphic c" by code_simp
    then have "read_line ((''offset '' @ Itoa off) @ ''\<newline>'') = Some ((''offset '' @ Itoa off) @ ''\<newline>'') \<and>
        TrimSpace ((''offset '' @ Itoa off) @ ''\<newline>'') = ''offset '' @ Itoa off"
      using graphic_Itoa graphic_Itoa [OF last_in_set [OF Itoa_nonempty]] by (intro words_line) auto
    with r Inr reply show ?thesis by simp
  next
    case (Inl err)
    then have "hd r = CHR ''e''" using r by (cases r) (auto simp: read_line_def split: if_splits)
    moreover have "graphic (CHR ''e'')" by code_simp
    ultimately have "prefix (TrimSpace r) r" using TrimSpace_prefix by simp
    then have "\<not> HasPrefix (TrimSpace r) ''offset ''" using \<open>hd r = CHR ''e''\<close> by (auto simp: prefix_def)
    with Inl reply show ?thesis by simp
  qed
qed

text \<open>
  C18. Daemon and command line understand each other. When the daemon that serves a session answers on its
  control socket, \<^verbatim>\<open>kfuse status\<close> prints the sequence number of the live overlay, and \<^verbatim>\<open>kfuse checkpoint\<close> prints
  the offset the daemon's checkpoint covered, without touching the remote services. If the daemon's
  checkpoint failed, the command does not print an offset of the daemon but checkpoints from the log.
\<close>

theorem control_replies_understood:
  assumes lw: "resolveLocal c f w = (Inr lw, w')"
    and live: "currentDaemonSession (cl_os c) (lw_cfg lw) (lw_id lw) w' = Inr (sid, pid)"
    and id: "sm_ID (Meta ss) = sid" "valid_id sid"
    and path: "path = ControlSocketPath (cl_os c) (cl_env c) (StateDir (lw_cfg lw)) (lw_id lw) sid"
    and served: "cl_dial c path = None" "cl_deadline c path = None" "cl_exchange c path = (\<lambda>req. Inr (fst (handleControl reg dv known None req ss s)))"
  shows "statusCmd c f w =
      (Inr (println (''mounted: session '' @ sid @ '' pid '' @ Itoa pid @ '' seq '' @ fmt_u64 (seqLast (s_upper ss)))), w') \<and>
    (case fst (Checkpoint reg dv known ss s) of
       Inr off \<Rightarrow> checkpointCmd c f None w l s0 = (Inr (println (Itoa off)), w', s0)
     | Inl _ \<Rightarrow> checkpointCmd c f None w l s0 = checkpointCmd c f (Some sid) w l s0)"
proof (rule conjI)
  obtain es where "live_session (cl_os c) (path_Join [StateDir (lw_cfg lw), lw_id lw]) es w' = Some (sid, pid)"
    using live by (auto simp: currentDaemonSession_def Let_def split: sum.splits option.splits if_splits)
  then have alive: "IsAlive (cl_os c) pid w'" using live_session_spec(1) by (fastforce simp: runs_def)
  have "status_seq (ask_daemon c lw sid ''status'') = fmt_u64 (seqLast (s_upper ss))"
    unfolding ask_daemon_def Let_def path [symmetric] served by (rule status_reply) (simp add: id)
  then show "statusCmd c f w =
      (Inr (println (''mounted: session '' @ sid @ '' pid '' @ Itoa pid @ '' seq '' @ fmt_u64 (seqLast (s_upper ss)))), w')"
    using lw live alive by (simp add: statusCmd_def)
  obtain reply where r: "ask_daemon c lw sid ''checkpoint'' = Inr reply"
    unfolding ask_daemon_def Let_def path [symmetric] served using checkpoint_answered [of reg dv known ss s] by blast
  note reply = checkpoint_reply [OF r [unfolded ask_daemon_def Let_def path [symmetric] served]]
  show "case fst (Checkpoint reg dv known ss s) of
      Inr off \<Rightarrow> checkpointCmd c f None w l s0 = (Inr (println (Itoa off)), w', s0)
    | Inl _ \<Rightarrow> checkpointCmd c f None w l s0 = checkpointCmd c f (Some sid) w l s0"
  proof (cases "fst (Checkpoint reg dv known ss s)")
    case (Inr off)
    then have "checkpoint_target c lw None w' = Inr (sid, Some (Itoa off))"
      using reply live r by (simp add: checkpoint_target_def trim_prefix_def)
    then show ?thesis using Inr lw by (simp add: checkpointCmd_def)
  next
    case (Inl err)
    then have "\<not> HasPrefix reply ''offset ''" using reply by simp
    then have "checkpoint_target c lw None w' = checkpoint_target c lw (Some sid) w'"
      using live r by (simp add: checkpoint_target_def)
    then show ?thesis using Inl lw by (simp add: checkpointCmd_def)
  qed
qed

theorem control_replies_understood_witness:
  "\<exists>w'. statusCmd sample_cli sample_flags served_disk = (Inr (println ''mounted: session s1 pid 42 seq 0''), w') \<and>
     fst (checkpointCmd sample_cli sample_flags None served_disk [] sample_fake) = Inr (println ''-1'')"
proof -
  note r = sample_resolved [of served_disk]
  have live: "currentDaemonSession (cl_os sample_cli) (lw_cfg sample_lower) (lw_id sample_lower) served_disk = Inr (''s1'', 42)"
    using sample_live by (simp add: sample_cli_def)
  have id: "sm_ID (Meta sample_session) = ''s1''" "valid_id ''s1''" by code_simp+
  have served: "cl_dial sample_cli p = None" "cl_deadline sample_cli p = None"
    "cl_exchange sample_cli p = (\<lambda>req. Inr (fst (handleControl sample_registry False (- 1) None req sample_session sample_fake)))" for p
    by (simp_all add: sample_cli_def)
  have "fst (Checkpoint sample_registry False (- 1) sample_session sample_fake) = Inr (- 1)"
    "println (''mounted: session '' @ ''s1'' @ '' pid '' @ Itoa 42 @ '' seq '' @ fmt_u64 (seqLast (s_upper sample_session))) =
      println ''mounted: session s1 pid 42 seq 0''" "Itoa (- 1) = ''-1''" by code_simp+
  then show ?thesis
    using control_replies_understood [OF r live id refl served, of "[]" sample_fake] by simp
qed

section \<open>Mounting what was selected\<close>



end
