(* ===== verification/Findings.thy ===== *)
theory Findings
  imports Handles_Props Config_Ids Daemon
begin

text \<open>
  Runs on which the program does not do what its interface or its comments say. Most are
  histories of events the file system commits, replayed over the small lower tree of \<open>Lower_Tree\<close> (a file \<^verbatim>\<open>x\<close>,
  a directory \<^verbatim>\<open>d\<close> with the files \<^verbatim>\<open>y\<close> and \<^verbatim>\<open>z\<close>) and evaluated; the last two concern local paths. Nothing else rests
  on this theory.
\<close>

definition replayed :: "event_op list \<Rightarrow> upper" where
  "replayed ops =
     (case Replay (map2 (\<lambda>i op. \<lparr>Seq = word_of_nat i, UnixMicros = 0, SessionId = ''s1'', LowerId = ''low'', Op = Some op\<rparr>)
             [1 ..< length ops + 1] ops) of
        Inr u \<Rightarrow> u | Inl _ \<Rightarrow> New)"

text \<open>Whether a lookup shows the path, and what a read of it returns.\<close>

definition visible :: "event_op list \<Rightarrow> path \<Rightarrow> bool" where
  "visible ops p = (case resolve (tree_os sample_tree) (replayed ops) p of Inr e \<Rightarrow> present e | Inl _ \<Rightarrow> False)"

definition listed :: "event_op list \<Rightarrow> path \<Rightarrow> string list" where
  "listed ops p = (case mergedEntries (tree_os sample_tree) (replayed ops) p of Inr es \<Rightarrow> map d_Name es | Inl _ \<Rightarrow> [])"

definition read_back :: "event_op list \<Rightarrow> path \<Rightarrow> errno + bytes" where
  "read_back ops p =
     HandleRead sample_mounter (sample_mount\<lparr>ms_Session := sample_session\<lparr>s_upper := replayed ops\<rparr>\<rparr>) p 16 0"

text \<open>One byte written to a file of the lower tree, as the first write to it commits it.\<close>

definition touch :: "path \<Rightarrow> event_op" where
  "touch p = Write \<lparr>wr_Path = p, wr_Offset = 0, wr_Length = 1, wr_BlobId = replicate 32 (CHR 0x00), wr_BlobOffset = 0,
     wr_Eof = False, wr_Mode = 420, wr_Fallthrough = True, wr_Uid = 0, wr_Gid = 0\<rparr>"

definition move :: "path \<Rightarrow> path \<Rightarrow> event_op" where
  "move a b = Rename \<lparr>rn_From = a, rn_To = b, rn_FromLower = True\<rparr>"

definition truncate_to :: "path \<Rightarrow> u64 \<Rightarrow> event_op" where
  "truncate_to p n = Setattr \<lparr>sa_Path = p, sa_Mode = None, sa_Uid = None, sa_Gid = None, sa_AtimeNs = None, sa_MtimeNs = None,
     sa_Size = Some n\<rparr>"

text \<open>A file of the lower tree that was written to and then unlinked is still there.\<close>

theorem unlinked_file_reappears:
  "visible [touch ''x''] ''x'' \<and> visible [touch ''x'', Unlink ''x''] ''x'' \<and> \<not> visible [Unlink ''x''] ''x''"
  by code_simp

text \<open>Renaming a directory of the lower tree in which one file was written to loses its other files.\<close>

theorem renamed_directory_loses_files:
  "visible [touch ''d/y'', move ''d'' ''e''] ''e/y'' \<and> \<not> visible [touch ''d/y'', move ''d'' ''e''] ''e/z'' \<and>
   \<not> visible [touch ''d/y'', move ''d'' ''e''] ''d/z'' \<and> visible [move ''d'' ''e''] ''e/z''"
  by code_simp

text \<open>Renaming a file out of a renamed directory loses it.\<close>

theorem second_rename_loses_file:
  "visible [move ''d'' ''e''] ''e/y'' \<and> \<not> visible [move ''d'' ''e'', move ''e/y'' ''f''] ''f'' \<and>
   \<not> visible [move ''d'' ''e'', move ''e/y'' ''f''] ''e/y''"
  by code_simp

text \<open>A file moved into a directory that replaced a removed one is listed there but cannot be looked up.\<close>

theorem listed_but_absent:
  "let ops = [Unlink ''d/y'', Unlink ''d/z'', Rmdir ''d'', Mkdir \<lparr>mk_Path = ''d'', mk_Mode = 493, mk_Uid = 0, mk_Gid = 0\<rparr>, move ''x'' ''d/x'']
   in ''x'' \<in> set (listed ops ''d'') \<and> \<not> visible ops ''d/x'' \<and> \<not> visible ops ''x''"
  by code_simp

text \<open>Bytes cut off by a truncation come back when the file is extended again.\<close>

theorem truncated_bytes_come_back:
  "read_back [truncate_to ''x'' 1] ''x'' = Inr ''h'' \<and> read_back [truncate_to ''x'' 1, truncate_to ''x'' 5] ''x'' = Inr ''hello''"
  by code_simp

text \<open>Truncating a file of the lower tree forgets its mode and owner, whatever they are.\<close>

theorem truncation_resets_attributes:
  "(case fmlookup (nodes (replayed [truncate_to ''x'' 1])) ''x'' of
      Some n \<Rightarrow> n_Mode n = 0x1A4 \<and> n_UID n = 0 \<and> n_GID n = 0 \<and> n_MtimeNs n = 0 | None \<Rightarrow> False)"
  by code_simp

text \<open>A lower id with parent components takes the selection out of the state directory.\<close>

theorem lower_id_escapes_state_dir:
  "SelectedPath ''/home/u/.kfuse'' ''../../x'' = ''/home/x/selected'' \<and> ValidateID ''KF_LOWER_ID'' ''../../x'' \<noteq> None \<and>
   fst (ResolveLower os (\<lambda>_. []) rnd ''/w'' ''../../x'' w) = Inr (''/w'', ''../../x'')"
proof (intro conjI)
  have "path_Clean ''/w'' = ''/w''" by code_simp
  then show "fst (ResolveLower os (\<lambda>_. []) rnd ''/w'' ''../../x'' w) = Inr (''/w'', ''../../x'')"
    by (simp add: ResolveLower_def path_Abs_def)
qed code_simp+

text \<open>
  With the state directory \<^verbatim>\<open>.\<close> the control socket is refused although its path is inside it: the prefix
  test misses it, and the directory has the mode the pidfile code gives it.
\<close>

theorem control_socket_refused_in_cwd:
  "\<not> prefix (path_Clean ''.'' @ ''/'') (path_Join [''.'', ''low'', ''s1'', ''control.sock'']) \<and>
   path_Dir (path_Join [''.'', ''low'', ''s1'', ''control.sock'']) = path_Dir (PidFilePath ''.'' sample_session) \<and>
   (ho_Stat os dir w = Inr (ho_uid os, 0x1ED) \<longrightarrow> checkPrivateDir os dir w \<noteq> None)"
proof (intro conjI)
  show "ho_Stat os dir w = Inr (ho_uid os, 0x1ED) \<longrightarrow> checkPrivateDir os dir w \<noteq> None"
    by (simp add: checkPrivateDir_def)
qed code_simp+

end
